(* ===== verification/KAR_Prelude.thy ===== *)
theory KAR_Prelude
  imports Main "HOL-Library.AList" "HOL-Library.Char_ord" "HOL-Library.List_Lexorder"
    "HOL-Library.Multiset"
begin

text \<open>
  Shared vocabulary of the development: the fragment of Go and of its standard library that
  the sources under \<^verbatim>\<open>src/core\<close> use (maps with zero values, \<^verbatim>\<open>strings.Split\<close>,
  \<^verbatim>\<open>strings.Join\<close>, \<^verbatim>\<open>strconv\<close>, \<^verbatim>\<open>time.Time\<close>, error values), the lemma collections
  the components add to, and the generic facts about them.

  A Go map is an association list with distinct keys.  Reading it is \<^const>\<open>map_of\<close>, writing
  \<^const>\<open>AList.update\<close>, \<^verbatim>\<open>delete\<close> is \<^const>\<open>AList.delete\<close>.  Where the code ranges over a map,
  the order Go leaves unspecified is a parameter of the model.
\<close>

named_theorems go_simps \<open>rewrite rules for Go maps, strings and numbers\<close>
named_theorems wf_intros \<open>preservation of well-formedness by the operations\<close>

section \<open>Errors\<close>

datatype err =
    ErrCtx                 \<comment> \<open>\<^verbatim>\<open>ctx.Err()\<close> of a cancelled context\<close>
  | ErrUnavailable         \<comment> \<open>\<^verbatim>\<open>rpc.ErrUnavailable\<close>\<close>
  | ErrTooFewPartitions    \<comment> \<open>\<^verbatim>\<open>rpc.errTooFewPartitions\<close>\<close>
  | ErrNil                 \<comment> \<open>\<^verbatim>\<open>store.ErrNil\<close>, the nil reply of Redis\<close>
  | ErrMsg string          \<comment> \<open>any other error, with its text\<close>

section \<open>Go maps\<close>

type_synonym ('k, 'v) gomap = "('k \<times> 'v) list"

definition wf_map :: "('k, 'v) gomap \<Rightarrow> bool" where
  "wf_map m \<longleftrightarrow> distinct (map fst m)"

definition mget :: "'v \<Rightarrow> ('k, 'v) gomap \<Rightarrow> 'k \<Rightarrow> 'v" where
  "mget z m k = (case map_of m k of None \<Rightarrow> z | Some v \<Rightarrow> v)"

abbreviation mput :: "'k \<Rightarrow> 'v \<Rightarrow> ('k, 'v) gomap \<Rightarrow> ('k, 'v) gomap" where
  "mput \<equiv> AList.update"

abbreviation mdel :: "'k \<Rightarrow> ('k, 'v) gomap \<Rightarrow> ('k, 'v) gomap" where
  "mdel \<equiv> AList.delete"

abbreviation keys :: "('k, 'v) gomap \<Rightarrow> 'k list" where
  "keys m \<equiv> map fst m"

lemma map_of_mput [go_simps, simp]: "map_of (mput k v m) = (map_of m)(k \<mapsto> v)"
  by (simp add: update_conv')

lemma map_of_mdel [go_simps, simp]: "map_of (mdel k m) = (map_of m)(k := None)"
  by (simp add: delete_conv')

lemma mget_mput [go_simps, simp]: "mget z (mput k v m) k' = (if k' = k then v else mget z m k')"
  by (simp add: mget_def)

lemma mget_mdel [go_simps, simp]: "mget z (mdel k m) k' = (if k' = k then z else mget z m k')"
  by (simp add: mget_def)

lemma mget_Nil [go_simps, simp]: "mget z [] k = z"
  by (simp add: mget_def)

lemma wf_map_Nil [wf_intros, simp]: "wf_map []"
  by (simp add: wf_map_def)

lemma wf_map_mput [wf_intros]: "wf_map m \<Longrightarrow> wf_map (mput k v m)"
  by (simp add: wf_map_def distinct_update)

lemma wf_map_mdel [wf_intros]: "wf_map m \<Longrightarrow> wf_map (mdel k m)"
  by (simp add: wf_map_def distinct_delete)

lemma wf_map_map_of: "wf_map m \<Longrightarrow> (k, v) \<in> set m \<longleftrightarrow> map_of m k = Some v"
  by (simp add: wf_map_def)

lemma set_keys_mput [simp]: "set (keys (mput k v m)) = insert k (set (keys m))"
  by (induction m) auto

text \<open>A range order is any enumeration of the entries of the map it is given.\<close>

lemma image_fst_mput [simp]: "fst ` set (mput k v m) = insert k (fst ` set m)"
  using set_keys_mput [of k v m] by (simp del: set_keys_mput)

definition range_order :: "('a list \<Rightarrow> 'a list) \<Rightarrow> bool" where
  "range_order f \<longleftrightarrow> (\<forall>xs. mset (f xs) = mset xs)"

lemma range_order_set: "range_order f \<Longrightarrow> set (f xs) = set xs"
  by (metis range_order_def set_mset_mset)

lemma range_order_length: "range_order f \<Longrightarrow> length (f xs) = length xs"
  by (metis range_order_def size_mset)

lemma range_order_distinct: "range_order f \<Longrightarrow> distinct (f xs) = distinct xs"
  unfolding range_order_def by (metis mset_eq_imp_distinct_iff)

lemma range_order_keys: "range_order f \<Longrightarrow> mset (keys (f m)) = mset (keys m)"
  by (simp add: range_order_def)

lemma range_order_wf: "range_order f \<Longrightarrow> wf_map (f m) = wf_map m"
  unfolding wf_map_def by (rule mset_eq_imp_distinct_iff) (rule range_order_keys)

lemma range_order_id [simp]: "range_order (\<lambda>xs. xs)"
  by (simp add: range_order_def)

lemma mset_eq_map_of:
  assumes "mset xs = mset ys" and "wf_map xs"
  shows "map_of xs = map_of ys"
proof
  fix k
  have keys: "mset (keys xs) = mset (keys ys)"
    using assms(1) by (metis mset_map)
  then have "wf_map ys"
    using assms(2) unfolding wf_map_def by (metis mset_eq_imp_distinct_iff)
  moreover have "set xs = set ys"
    using assms(1) by (metis set_mset_mset)
  ultimately have "\<And>v. map_of xs k = Some v \<longleftrightarrow> map_of ys k = Some v"
    using assms(2) by (metis wf_map_map_of)
  then show "map_of xs k = map_of ys k"
    by (metis not_None_eq)
qed

lemma range_order_map_of: "range_order f \<Longrightarrow> wf_map m \<Longrightarrow> map_of (f m) = map_of m"
  by (metis mset_eq_map_of range_order_def)

section \<open>Strings\<close>

text \<open>\<^verbatim>\<open>strings.Split(s, sep)\<close> for a separator of one character, and \<^verbatim>\<open>strings.Join\<close>.\<close>

fun split_on :: "char \<Rightarrow> string \<Rightarrow> string list" where
  "split_on c [] = [[]]"
| "split_on c (x # xs) =
     (if x = c then [] # split_on c xs
      else case split_on c xs of [] \<Rightarrow> [[x]] | w # ws \<Rightarrow> (x # w) # ws)"

fun join_with :: "string \<Rightarrow> string list \<Rightarrow> string" where
  "join_with s [] = []"
| "join_with s [w] = w"
| "join_with s (w # ws) = w @ s @ join_with s ws"

lemma split_on_not_Nil [simp]: "split_on c s \<noteq> []"
  by (induction s) (auto split: list.splits)

lemma split_on_absent [go_simps]: "c \<notin> set s \<Longrightarrow> split_on c s = [s]"
  by (induction s) auto

lemma split_on_append [go_simps]: "c \<notin> set a \<Longrightarrow> split_on c (a @ c # b) = a # split_on c b"
  by (induction a) (auto split: list.splits)

lemma split_on_free: "w \<in> set (split_on c s) \<Longrightarrow> c \<notin> set w"
proof (induction s arbitrary: w)
  case (Cons x xs)
  then show ?case
    by (cases "split_on c xs") (auto split: if_splits)
qed simp

lemma join_split: "join_with [c] (split_on c s) = s"
proof (induction s)
  case (Cons x xs)
  then show ?case
    by (cases "split_on c xs" rule: remdups_adj.cases)
      (auto split: list.splits)
qed simp

lemma join_Cons [simp]: "ws \<noteq> [] \<Longrightarrow> join_with s (w # ws) = w @ s @ join_with s ws"
  by (cases ws) simp_all

lemma split_join: "ws \<noteq> [] \<Longrightarrow> \<forall>w \<in> set ws. c \<notin> set w \<Longrightarrow> split_on c (join_with [c] ws) = ws"
proof (induction ws)
  case (Cons w ws)
  then show ?case
    by (cases "ws = []") (auto simp: go_simps)
qed simp

section \<open>Numbers as text: strconv\<close>

definition digit :: "nat \<Rightarrow> char" where
  "digit d = char_of (48 + d)"

fun nat_str :: "nat \<Rightarrow> string" where
  "nat_str n = (if n < 10 then [digit n] else nat_str (n div 10) @ [digit (n mod 10)])"

declare nat_str.simps [simp del]

text \<open>\<^verbatim>\<open>strconv.Itoa\<close> and \<^verbatim>\<open>strconv.FormatInt(_, 10)\<close>.\<close>

definition itoa :: "int \<Rightarrow> string" where
  "itoa i = (if i < 0 then CHR ''-'' # nat_str (nat (- i)) else nat_str (nat i))"

datatype digits_result = DSyntax | DRange | DOk nat

definition is_digit :: "char \<Rightarrow> bool" where
  "is_digit c \<longleftrightarrow> 48 \<le> (of_char c :: nat) \<and> (of_char c :: nat) \<le> 57"

fun parse_uint :: "string \<Rightarrow> nat \<Rightarrow> digits_result" where
  "parse_uint [] acc = DOk acc"
| "parse_uint (c # cs) acc =
     (if \<not> is_digit c then DSyntax
      else let n = 10 * acc + (of_char c - 48)
           in if n > 2 ^ 64 - 1 then DRange else parse_uint cs n)"

text \<open>
  \<^verbatim>\<open>strconv.ParseInt(s, 10, 64)\<close> and \<^verbatim>\<open>strconv.Atoi\<close>: the value and whether the error is nil.
  A syntax error gives 0, a range error the closest representable value.
\<close>

definition parse_int :: "string \<Rightarrow> int \<times> bool" where
  "parse_int s =
     (let neg = (s \<noteq> [] \<and> hd s = CHR ''-'');
          ds = (if s \<noteq> [] \<and> (hd s = CHR ''-'' \<or> hd s = CHR ''+'') then tl s else s)
      in if ds = [] then (0, False)
         else case parse_uint ds 0 of
           DSyntax \<Rightarrow> (0, False)
         | DRange \<Rightarrow> (if neg then (- (2 ^ 63), False) else (2 ^ 63 - 1, False))
         | DOk n \<Rightarrow>
             if \<not> neg \<and> n \<ge> 2 ^ 63 then (2 ^ 63 - 1, False)
             else if neg \<and> n > 2 ^ 63 then (- (2 ^ 63), False)
             else ((if neg then - int n else int n), True))"

text \<open>\<^verbatim>\<open>strconv.ParseBool\<close>, and \<^verbatim>\<open>strings.TrimSpace\<close> on the white space of ASCII.\<close>

definition parse_bool :: "string \<Rightarrow> bool option" where
  "parse_bool s =
     (if s \<in> set [''1'', ''t'', ''T'', ''TRUE'', ''true'', ''True''] then Some True
      else if s \<in> set [''0'', ''f'', ''F'', ''FALSE'', ''false'', ''False''] then Some False
      else None)"

definition is_space :: "char \<Rightarrow> bool" where
  "is_space c \<longleftrightarrow> (of_char c :: nat) \<in> {9, 10, 11, 12, 13, 32}"

definition trim_space :: "string \<Rightarrow> string" where
  "trim_space s = rev (dropWhile is_space (rev (dropWhile is_space s)))"

text \<open>\<^verbatim>\<open>strings.ToLower\<close>, on ASCII letters.\<close>

definition to_lower :: "string \<Rightarrow> string" where
  "to_lower = map (\<lambda>c. if CHR ''A'' \<le> c \<and> c \<le> CHR ''Z'' then char_of (of_char c + 32 :: nat) else c)"

definition int64 :: "int \<Rightarrow> bool" where
  "int64 i \<longleftrightarrow> - (2 ^ 63) \<le> i \<and> i < 2 ^ 63"

lemma of_char_digit [simp]: "d < 10 \<Longrightarrow> (of_char (digit d) :: nat) = 48 + d"
  by (simp add: digit_def)

lemma is_digit_digit [simp]: "d < 10 \<Longrightarrow> is_digit (digit d)"
  by (simp add: is_digit_def)

lemma nat_str_not_Nil [simp]: "nat_str n \<noteq> []"
  by (subst nat_str.simps) simp

lemma is_digit_nat_str: "c \<in> set (nat_str n) \<Longrightarrow> is_digit c"
proof (induction n rule: nat_str.induct)
  case (1 n)
  then show ?case
    by (cases "n < 10") (auto simp: nat_str.simps [of n])
qed

lemma parse_uint_append:
  "parse_uint xs acc = DOk n \<Longrightarrow> parse_uint (xs @ ys) acc = parse_uint ys n"
  by (induction xs arbitrary: acc) (auto simp: Let_def split: if_splits)

lemma parse_uint_nat_str: "n < 2 ^ 64 \<Longrightarrow> parse_uint (nat_str n) 0 = DOk n"
proof (induction n rule: nat_str.induct)
  case (1 n)
  show ?case
  proof (cases "n < 10")
    case True
    then show ?thesis by (simp add: nat_str.simps [of n])
  next
    case False
    then have "parse_uint (nat_str (n div 10)) 0 = DOk (n div 10)"
      using 1 by simp
    then have "parse_uint (nat_str (n div 10) @ [digit (n mod 10)]) 0
        = parse_uint [digit (n mod 10)] (n div 10)"
      by (rule parse_uint_append)
    also have "\<dots> = DOk n"
      using "1.prems" by (simp add: Let_def)
    finally show ?thesis
      using False by (simp add: nat_str.simps [of n])
  qed
qed

lemma hd_nat_str: "is_digit (hd (nat_str n))"
  by (rule is_digit_nat_str [of _ n]) simp

lemma not_digit_sign [simp]: "\<not> is_digit (CHR ''-'')" "\<not> is_digit (CHR ''+'')" "\<not> is_digit (CHR ''_'')"
  by (simp_all add: is_digit_def)

lemma hd_nat_str_not_sign [simp]:
  "hd (nat_str n) \<noteq> CHR ''-''" "hd (nat_str n) \<noteq> CHR ''+''"
  using hd_nat_str [of n] by auto

lemma parse_int_nat_str:
  assumes "n < 2 ^ 63"
  shows "parse_int (nat_str n) = (int n, True)"
proof -
  have "parse_uint (nat_str n) 0 = DOk n"
    using assms by (intro parse_uint_nat_str) simp
  then show ?thesis
    using assms by (simp add: parse_int_def Let_def)
qed

lemma parse_int_minus_nat_str:
  assumes "n \<le> 2 ^ 63"
  shows "parse_int (CHR ''-'' # nat_str n) = (- int n, True)"
proof -
  have "parse_uint (nat_str n) 0 = DOk n"
    using assms by (intro parse_uint_nat_str) simp
  then show ?thesis
    using assms by (simp add: parse_int_def Let_def)
qed

lemma parse_int_itoa [go_simps, simp]:
  assumes "int64 i"
  shows "parse_int (itoa i) = (i, True)"
proof (cases "i < 0")
  case True
  then have "nat (- i) \<le> 2 ^ 63"
    using assms by (simp add: int64_def nat_le_iff)
  from parse_int_minus_nat_str [OF this] True show ?thesis
    by (simp add: itoa_def)
next
  case False
  then have "nat i < 2 ^ 63"
    using assms by (simp add: int64_def nat_less_iff)
  from parse_int_nat_str [OF this] False show ?thesis
    by (simp add: itoa_def)
qed

lemma itoa_no_separator [simp]: "CHR ''_'' \<notin> set (itoa i)"
  using is_digit_nat_str [of "CHR ''_''"] by (auto simp: itoa_def)

section \<open>Time\<close>

text \<open>
  \<^verbatim>\<open>time.Time\<close> is the number of nanoseconds since the zero time (January 1, year 1, UTC), so
  that \<^verbatim>\<open>IsZero\<close> is equality with 0 and \<^verbatim>\<open>Before\<close> is \<open><\<close>; \<^verbatim>\<open>time.Duration\<close> is a number of
  nanoseconds.
\<close>

type_synonym time = int

definition time_Unix :: "int \<Rightarrow> time" where
  "time_Unix u = (u + 62135596800) * 1000000000"

definition Unix :: "time \<Rightarrow> int" where
  "Unix t = t div 1000000000 - 62135596800"

text \<open>What is left of a time after a trip through its Unix seconds.\<close>

definition trunc_second :: "time \<Rightarrow> time" where
  "trunc_second t = t - t mod 1000000000"

lemma time_Unix_Unix [simp]: "time_Unix (Unix t) = trunc_second t"
  by (simp add: time_Unix_def Unix_def trunc_second_def minus_mod_eq_div_mult)

lemma trunc_second_le: "trunc_second t \<le> t"
  by (simp add: trunc_second_def)

lemma trunc_second_0 [simp]: "trunc_second 0 = 0"
  by (simp add: trunc_second_def)

end
