(* ===== verification/Rpc_Messages.thy ===== *)
theory Rpc_Messages
  imports KAR_Prelude
begin

text \<open>
  The data of the rpc layer and its wire format: the targets and the request and result types of
  \<^verbatim>\<open>src/core/pkg/rpc/rpc.go\<close>, the four message kinds of \<^verbatim>\<open>src/core/pkg/rpc/messages.go\<close> with
  their accessor methods, and the translation of a message to and from the headers of a Kafka
  record.  The theorem is the round trip: what \<^verbatim>\<open>decode\<close> gives back for what \<^verbatim>\<open>encode\<close> produced.
\<close>

section \<open>Targets, requests, results\<close>

text \<open>\<^verbatim>\<open>[]byte\<close>: \<^const>\<open>None\<close> is the nil slice.\<close>

type_synonym bytes = "string option"

record session =
  s_Name :: string
  s_ID :: string
  s_Flow :: string
  s_DeferredLockID :: string

datatype Target = Service string | Session session | Node string

record Destination =
  d_Target :: Target
  d_Method :: string

record Result =
  r_Value :: bytes
  r_Err :: "err option"

record CallRequest =
  cr_RequestID :: string
  cr_Value :: bytes
  cr_Deadline :: time
  cr_Target :: Target
  cr_Method :: string
  cr_Caller :: string
  cr_Sequence :: int
  cr_ChildID :: string
  cr_ParentID :: string
  cr_IsEdited :: bool

record TellRequest =
  tr_RequestID :: string
  tr_Value :: bytes
  tr_Deadline :: time
  tr_Target :: Target
  tr_Method :: string
  tr_Sequence :: int
  tr_ChildID :: string
  tr_ParentID :: string
  tr_IsEdited :: bool

record Response =
  rs_RequestID :: string
  rs_Value :: bytes
  rs_Deadline :: time
  rs_ErrMsg :: string
  rs_Node :: string

record Done =
  dn_RequestID :: string
  dn_Deadline :: time

text \<open>The interfaces \<^verbatim>\<open>Request\<close> and \<^verbatim>\<open>Message\<close> as the sums of the structs that implement them.\<close>

datatype Request = CallReq CallRequest | TellReq TellRequest

datatype Message = Req Request | Resp Response | DoneMsg Done

fun requestID :: "Message \<Rightarrow> string" where
  "requestID (Req (CallReq m)) = cr_RequestID m"
| "requestID (Req (TellReq m)) = tr_RequestID m"
| "requestID (Resp m) = rs_RequestID m"
| "requestID (DoneMsg m) = dn_RequestID m"

fun msg_value :: "Message \<Rightarrow> bytes" where
  "msg_value (Req (CallReq m)) = cr_Value m"
| "msg_value (Req (TellReq m)) = tr_Value m"
| "msg_value (Resp m) = rs_Value m"
| "msg_value (DoneMsg m) = None"

fun deadline :: "Message \<Rightarrow> time" where
  "deadline (Req (CallReq m)) = cr_Deadline m"
| "deadline (Req (TellReq m)) = tr_Deadline m"
| "deadline (Resp m) = rs_Deadline m"
| "deadline (DoneMsg m) = dn_Deadline m"

fun target :: "Request \<Rightarrow> Target" where
  "target (CallReq m) = cr_Target m"
| "target (TellReq m) = tr_Target m"

fun method_of :: "Request \<Rightarrow> string" where
  "method_of (CallReq m) = cr_Method m"
| "method_of (TellReq m) = tr_Method m"

fun sequence :: "Request \<Rightarrow> int" where
  "sequence (CallReq m) = cr_Sequence m"
| "sequence (TellReq m) = tr_Sequence m"

fun childID :: "Request \<Rightarrow> string" where
  "childID (CallReq m) = cr_ChildID m"
| "childID (TellReq m) = tr_ChildID m"

abbreviation reqID :: "Request \<Rightarrow> string" where
  "reqID r \<equiv> requestID (Req r)"

section \<open>Wire format\<close>

record ProducerMessage =
  pm_Topic :: string
  pm_Partition :: int
  pm_Headers :: "(string \<times> string) list"
  pm_Value :: bytes

record ConsumerMessage =
  cm_Headers :: "(string \<times> string) list"
  cm_Value :: bytes
  cm_Offset :: int

type_synonym meta = "(string, string) gomap"

fun encodeTarget :: "Target \<Rightarrow> meta \<Rightarrow> meta" where
  "encodeTarget (Session t) m =
     mput ''Lock'' (s_DeferredLockID t) (mput ''Flow'' (s_Flow t)
       (mput ''Session'' (s_ID t) (mput ''Service'' (s_Name t) m)))"
| "encodeTarget (Service n) m = mput ''Service'' n m"
| "encodeTarget (Node i) m = mput ''Node'' i m"

definition decodeTarget :: "meta \<Rightarrow> Target" where
  "decodeTarget m =
     (case map_of m ''Session'' of
        Some session \<Rightarrow>
          Session \<lparr>s_Name = mget '''' m ''Service'', s_ID = session,
            s_Flow = mget '''' m ''Flow'', s_DeferredLockID = mget '''' m ''Lock''\<rparr>
      | None \<Rightarrow>
          (case map_of m ''Service'' of
             Some service \<Rightarrow> Service service
           | None \<Rightarrow> Node (mget '''' m ''Node'')))"

text \<open>The \<^verbatim>\<open>switch\<close> of \<^verbatim>\<open>encode\<close>, with the assignments to \<^verbatim>\<open>meta\<close> that follow each literal.\<close>

fun encode_meta :: "string \<Rightarrow> Message \<Rightarrow> meta" where
  "encode_meta self (Req (CallReq m)) =
     (let caller = (if cr_Caller m = '''' then self else cr_Caller m);
          meta = [(''Type'', ''Call''), (''RequestID'', cr_RequestID m), (''Method'', cr_Method m),
                  (''Caller'', caller), (''Child'', cr_ChildID m), (''Parent'', cr_ParentID m)];
          meta = (if cr_Sequence m \<noteq> 0 then mput ''Sequence'' (itoa (cr_Sequence m)) meta else meta);
          meta = (if cr_IsEdited m then mput ''Edited'' ''1'' meta else meta)
      in encodeTarget (cr_Target m) meta)"
| "encode_meta self (Req (TellReq m)) =
     (let meta = [(''Type'', ''Tell''), (''RequestID'', tr_RequestID m), (''Method'', tr_Method m),
                  (''Child'', tr_ChildID m), (''Parent'', tr_ParentID m)];
          meta = (if tr_Sequence m \<noteq> 0 then mput ''Sequence'' (itoa (tr_Sequence m)) meta else meta);
          meta = (if tr_IsEdited m then mput ''Edited'' ''1'' meta else meta)
      in encodeTarget (tr_Target m) meta)"
| "encode_meta self (Resp m) =
     [(''Type'', ''Response''), (''RequestID'', rs_RequestID m), (''ErrMsg'', rs_ErrMsg m)]"
| "encode_meta self (DoneMsg m) = [(''Type'', ''Done''), (''RequestID'', dn_RequestID m)]"

text \<open>
  \<^verbatim>\<open>encode\<close>.  \<open>self\<close> is the node id of the sender; \<open>rng\<close> is the order in which Go ranges over
  \<^verbatim>\<open>meta\<close> when it fills the header array.
\<close>

definition encode ::
  "string \<Rightarrow> (meta \<Rightarrow> meta) \<Rightarrow> string \<Rightarrow> int \<Rightarrow> Message \<Rightarrow> ProducerMessage" where
  "encode self rng topic prt msg =
     (let meta = encode_meta self msg;
          meta = (if deadline msg \<noteq> 0 then mput ''Deadline'' (itoa (Unix (deadline msg))) meta
                  else meta)
      in \<lparr>pm_Topic = topic, pm_Partition = prt, pm_Headers = rng meta,
          pm_Value = msg_value msg\<rparr>)"

definition read_headers :: "(string \<times> string) list \<Rightarrow> meta" where
  "read_headers hs = fold (\<lambda>(k, v). mput k v) hs []"

definition decode :: "ConsumerMessage \<Rightarrow> Message" where
  "decode msg =
     (let meta = read_headers (cm_Headers msg);
          dl = (case map_of meta ''Deadline'' of Some d \<Rightarrow> time_Unix (fst (parse_int d)) | None \<Rightarrow> 0);
          sq = (case map_of meta ''Sequence'' of Some s \<Rightarrow> fst (parse_int s) | None \<Rightarrow> 0);
          ty = mget '''' meta ''Type''
      in if ty = ''Call'' then
           Req (CallReq \<lparr>cr_RequestID = mget '''' meta ''RequestID'', cr_Value = cm_Value msg,
             cr_Deadline = dl, cr_Target = decodeTarget meta, cr_Method = mget '''' meta ''Method'',
             cr_Caller = mget '''' meta ''Caller'', cr_Sequence = sq,
             cr_ChildID = mget '''' meta ''Child'', cr_ParentID = mget '''' meta ''Parent'',
             cr_IsEdited = False\<rparr>)
         else if ty = ''Tell'' then
           Req (TellReq \<lparr>tr_RequestID = mget '''' meta ''RequestID'', tr_Value = cm_Value msg,
             tr_Deadline = dl, tr_Target = decodeTarget meta, tr_Method = mget '''' meta ''Method'',
             tr_Sequence = sq, tr_ChildID = mget '''' meta ''Child'', tr_ParentID = '''',
             tr_IsEdited = False\<rparr>)
         else if ty = ''Response'' then
           Resp \<lparr>rs_RequestID = mget '''' meta ''RequestID'', rs_Value = cm_Value msg,
             rs_Deadline = dl, rs_ErrMsg = mget '''' meta ''ErrMsg'', rs_Node = ''''\<rparr>
         else DoneMsg \<lparr>dn_RequestID = mget '''' meta ''RequestID'', dn_Deadline = dl\<rparr>)"

section \<open>Round trip\<close>

text \<open>Kafka hands the headers and the value of a record to the consumer as they were produced.\<close>

definition delivers :: "ProducerMessage \<Rightarrow> ConsumerMessage \<Rightarrow> bool" where
  "delivers pm cm \<longleftrightarrow> cm_Headers cm = pm_Headers pm \<and> cm_Value cm = pm_Value pm"

text \<open>
  What survives the trip: the caller defaults to the sender, deadlines lose their sub-second
  part, the debugging marks and the addressee of a response do not come back.
\<close>

fun wire :: "string \<Rightarrow> Message \<Rightarrow> Message" where
  "wire self (Req (CallReq m)) =
     Req (CallReq (m\<lparr>cr_Caller := (if cr_Caller m = '''' then self else cr_Caller m),
       cr_Deadline := trunc_second (cr_Deadline m), cr_IsEdited := False\<rparr>))"
| "wire self (Req (TellReq m)) =
     Req (TellReq (m\<lparr>tr_Deadline := trunc_second (tr_Deadline m), tr_ParentID := '''',
       tr_IsEdited := False\<rparr>))"
| "wire self (Resp m) = Resp (m\<lparr>rs_Deadline := trunc_second (rs_Deadline m), rs_Node := ''''\<rparr>)"
| "wire self (DoneMsg m) = DoneMsg (m\<lparr>dn_Deadline := trunc_second (dn_Deadline m)\<rparr>)"

text \<open>Sequence numbers are Go ints and deadlines have 64-bit Unix seconds.\<close>

fun encodable :: "Message \<Rightarrow> bool" where
  "encodable (Req r) \<longleftrightarrow> int64 (sequence r) \<and> int64 (Unix (deadline (Req r)))"
| "encodable m \<longleftrightarrow> int64 (Unix (deadline m))"

lemma wf_map_encodeTarget [wf_intros]: "wf_map m \<Longrightarrow> wf_map (encodeTarget t m)"
  by (cases t) (auto intro!: wf_intros)

lemma wf_map_encode_meta [wf_intros]: "wf_map (encode_meta self m)"
  by (cases "(self, m)" rule: encode_meta.cases)
    (auto simp: Let_def wf_map_def distinct_update intro!: wf_map_encodeTarget [unfolded wf_map_def])

lemma map_of_fold_mput:
  "wf_map hs \<Longrightarrow> map_of (fold (\<lambda>(k, v). mput k v) hs m) = map_of m ++ map_of hs"
proof (induction hs arbitrary: m)
  case (Cons h hs)
  obtain k v where h: "h = (k, v)" by fastforce
  with Cons.prems have "map_of hs k = None"
    by (auto simp: wf_map_def map_of_eq_None_iff)
  moreover have "wf_map hs"
    using Cons.prems by (simp add: wf_map_def)
  ultimately show ?case
    using Cons.IH [of "mput k v m"] by (auto simp: h map_add_def fun_eq_iff split: option.splits)
qed simp

lemma map_of_read_headers:
  "wf_map hs \<Longrightarrow> map_of (read_headers hs) = map_of hs"
  by (simp add: read_headers_def map_of_fold_mput)

lemma decodeTarget_encodeTarget:
  assumes "map_of m ''Session'' = None" and "map_of m ''Service'' = None"
  shows "decodeTarget (encodeTarget t m) = t"
  using assms by (cases t) (auto simp: decodeTarget_def mget_def)

text \<open>Only the lookups of the metadata matter to \<^const>\<open>decode\<close>.\<close>

lemma decodeTarget_cong: "map_of m = map_of m' \<Longrightarrow> decodeTarget m = decodeTarget m'"
  by (simp add: decodeTarget_def mget_def cong: option.case_cong)

definition full_meta :: "string \<Rightarrow> Message \<Rightarrow> meta" where
  "full_meta self msg =
     (if deadline msg \<noteq> 0 then mput ''Deadline'' (itoa (Unix (deadline msg))) (encode_meta self msg)
      else encode_meta self msg)"

lemma encode_headers: "pm_Headers (encode self rng topic p msg) = rng (full_meta self msg)"
  by (simp add: encode_def full_meta_def Let_def)

lemma wf_map_full_meta [wf_intros]: "wf_map (full_meta self msg)"
  by (auto simp: full_meta_def intro!: wf_intros)

lemma map_of_delivered:
  assumes "range_order rng" and "delivers (encode self rng topic p msg) cm"
  shows "map_of (read_headers (cm_Headers cm)) = map_of (full_meta self msg)"
proof -
  have hs: "cm_Headers cm = rng (full_meta self msg)"
    using assms(2) by (simp add: delivers_def encode_headers)
  have eq: "mset (rng (full_meta self msg)) = mset (full_meta self msg)"
    using assms(1) by (simp add: range_order_def)
  have "wf_map (rng (full_meta self msg))"
    using wf_map_full_meta [of self msg] eq unfolding wf_map_def
    by (metis mset_eq_imp_distinct_iff mset_map)
  then show ?thesis
    using eq wf_map_full_meta by (metis hs map_of_read_headers mset_eq_map_of)
qed

lemma map_of_encodeTarget_other [simp]:
  "k \<notin> {''Lock'', ''Flow'', ''Session'', ''Service'', ''Node''} \<Longrightarrow>
    map_of (encodeTarget t m) k = map_of m k"
  by (cases t) auto

lemma decodeTarget_mput_Deadline [simp]: "decodeTarget (mput ''Deadline'' v m) = decodeTarget m"
  by (simp add: decodeTarget_def mget_def cong: option.case_cong)

lemma target_of_encode_meta: "decodeTarget (encode_meta self (Req r)) = target r"
  by (cases r) (simp_all add: Let_def decodeTarget_encodeTarget)

lemma target_of_full_meta: "decodeTarget (full_meta self (Req r)) = target r"
  by (simp add: full_meta_def target_of_encode_meta del: encode_meta.simps)

lemma full_meta_other: "k \<noteq> ''Deadline'' \<Longrightarrow> map_of (full_meta self msg) k = map_of (encode_meta self msg) k"
  by (simp add: full_meta_def)

lemma encode_meta_no_Deadline: "map_of (encode_meta self msg) ''Deadline'' = None"
  by (cases "(self, msg)" rule: encode_meta.cases) (simp_all add: Let_def)

lemma full_meta_Deadline:
  "map_of (full_meta self msg) ''Deadline'' =
    (if deadline msg \<noteq> 0 then Some (itoa (Unix (deadline msg))) else None)"
  by (simp add: full_meta_def encode_meta_no_Deadline)

lemma decoded_deadline:
  "int64 (Unix (deadline msg)) \<Longrightarrow>
    (case map_of (full_meta self msg) ''Deadline'' of Some d \<Rightarrow> time_Unix (fst (parse_int d)) | None \<Rightarrow> 0)
      = trunc_second (deadline msg)"
  by (simp add: full_meta_Deadline)

lemma decoded_sequence:
  "int64 (sequence r) \<Longrightarrow>
    (case map_of (encode_meta self (Req r)) ''Sequence'' of Some d \<Rightarrow> fst (parse_int d) | None \<Rightarrow> 0)
      = sequence r"
  by (cases r) (simp_all add: Let_def)

lemma call_meta:
  "mget '''' (encode_meta self (Req (CallReq m))) ''Type'' = ''Call''"
  "mget '''' (encode_meta self (Req (CallReq m))) ''RequestID'' = cr_RequestID m"
  "mget '''' (encode_meta self (Req (CallReq m))) ''Method'' = cr_Method m"
  "mget '''' (encode_meta self (Req (CallReq m))) ''Child'' = cr_ChildID m"
  "mget '''' (encode_meta self (Req (CallReq m))) ''Parent'' = cr_ParentID m"
  "mget '''' (encode_meta self (Req (CallReq m))) ''Caller'' =
    (if cr_Caller m = '''' then self else cr_Caller m)"
  by (simp_all add: Let_def mget_def)

lemma tell_meta:
  "mget '''' (encode_meta self (Req (TellReq m))) ''Type'' = ''Tell''"
  "mget '''' (encode_meta self (Req (TellReq m))) ''RequestID'' = tr_RequestID m"
  "mget '''' (encode_meta self (Req (TellReq m))) ''Method'' = tr_Method m"
  "mget '''' (encode_meta self (Req (TellReq m))) ''Child'' = tr_ChildID m"
  by (simp_all add: Let_def mget_def)

lemma response_meta:
  "mget '''' (encode_meta self (Resp m)) ''Type'' = ''Response''"
  "mget '''' (encode_meta self (Resp m)) ''RequestID'' = rs_RequestID m"
  "mget '''' (encode_meta self (Resp m)) ''ErrMsg'' = rs_ErrMsg m"
  "mget '''' (encode_meta self (DoneMsg d)) ''Type'' = ''Done''"
  "mget '''' (encode_meta self (DoneMsg d)) ''RequestID'' = dn_RequestID d"
  by (simp_all add: Let_def mget_def)

declare encode_meta.simps [simp del]

text \<open>C19 (round trip).  For every message a sidecar can send, decoding the Kafka record that \<^verbatim>\<open>encode\<close>
  produced, whatever the order Go ranged over the headers in, gives the message back up to
  \<^const>\<open>wire\<close>: request id, target (including flow and deferred lock), method, payload, child id,
  sequence number, error text and whole seconds of the deadline all survive.\<close>

theorem decode_encode:
  assumes rng: "range_order rng" and enc: "encodable msg"
    and del: "delivers (encode self rng topic p msg) cm"
  shows "decode cm = wire self msg"
proof -
  let ?m = "read_headers (cm_Headers cm)"
  have m: "map_of ?m = map_of (full_meta self msg)"
    using rng del by (rule map_of_delivered)
  have v: "cm_Value cm = msg_value msg"
    using del by (simp add: delivers_def encode_def Let_def)
  have dl: "(case map_of ?m ''Deadline'' of Some d \<Rightarrow> time_Unix (fst (parse_int d)) | None \<Rightarrow> 0)
      = trunc_second (deadline msg)"
    using enc decoded_deadline [of msg self] by (cases msg) (simp_all add: m)
  have mg: "mget '''' ?m k = mget '''' (encode_meta self msg) k" if "k \<noteq> ''Deadline''" for k
    using that by (simp add: mget_def m full_meta_other)
  show ?thesis
  proof (cases msg)
    case (Req r)
    have sq: "(case map_of ?m ''Sequence'' of Some s \<Rightarrow> fst (parse_int s) | None \<Rightarrow> 0) = sequence r"
      using enc decoded_sequence [of r self] by (simp add: m Req full_meta_other)
    have tg: "decodeTarget ?m = target r"
      using decodeTarget_cong [OF m] by (simp add: Req target_of_full_meta)
    show ?thesis
      using dl sq tg v mg
      by (cases r) (simp_all add: decode_def Let_def Req call_meta tell_meta)
  qed (use dl v mg in \<open>simp_all add: decode_def Let_def response_meta\<close>)
qed

definition sample_call :: Message where
  "sample_call = Req (CallReq \<lparr>cr_RequestID = ''req-1'', cr_Value = Some ''x'',
     cr_Deadline = 1500000000, cr_Target = Session \<lparr>s_Name = ''Fork'', s_ID = ''7'', s_Flow = ''flow-1'',
       s_DeferredLockID = ''''\<rparr>, cr_Method = ''handlerActor'', cr_Caller = '''', cr_Sequence = 2,
     cr_ChildID = '''', cr_ParentID = ''req-0'', cr_IsEdited = True\<rparr>)"

lemma decode_encode_witness:
  "decode \<lparr>cm_Headers = pm_Headers (encode ''node-1'' rev ''kar_app'' 3 sample_call),
      cm_Value = Some ''x'', cm_Offset = 0\<rparr>
    = Req (CallReq \<lparr>cr_RequestID = ''req-1'', cr_Value = Some ''x'',
     cr_Deadline = 1000000000, cr_Target = Session \<lparr>s_Name = ''Fork'', s_ID = ''7'', s_Flow = ''flow-1'',
       s_DeferredLockID = ''''\<rparr>, cr_Method = ''handlerActor'', cr_Caller = ''node-1'', cr_Sequence = 2,
     cr_ChildID = '''', cr_ParentID = ''req-0'', cr_IsEdited = False\<rparr>)" (is "decode ?cm = _")
proof -
  have "range_order rev" "encodable sample_call"
    by (simp_all add: range_order_def int64_def Unix_def sample_call_def)
  moreover have "delivers (encode ''node-1'' rev ''kar_app'' 3 sample_call) ?cm"
    by (simp add: delivers_def encode_def Let_def sample_call_def)
  ultimately have "decode ?cm = wire ''node-1'' sample_call"
    by (rule decode_encode)
  then show ?thesis
    by (simp add: sample_call_def trunc_second_def)
qed

end
