(* ===== verification/Rpc_Store.thy ===== *)
theory Rpc_Store
  imports KAR_Prelude
begin

text \<open>
  \<^verbatim>\<open>src/core/pkg/store/store.go\<close>: the operations on Redis.  Redis and its client library redigo
  are not part of the repository: \<open>redigo\<close> is a record of the calls the code makes (obtaining a
  connection, \<^verbatim>\<open>conn.Do\<close>, the reply conversions), over an abstract server state and an abstract
  reply type.  The locale \<open>redis\<close> states the documented behaviour of the commands the code relies
  on; its lemmas give the meaning of the operations of \<^verbatim>\<open>store.go\<close>.
\<close>

section \<open>Interface to the client library\<close>

datatype 'a result = Ok 'a | Error err | Panicked

record ('r, 'p) redigo =
  rd_GetContext :: "'r \<Rightarrow> err option \<times> 'r"               \<comment> \<open>\<^verbatim>\<open>pool.GetContext\<close>\<close>
  rd_ctxErr :: "'r \<Rightarrow> err option"                        \<comment> \<open>\<^verbatim>\<open>ctx.Err()\<close>\<close>
  rd_waits :: "int \<Rightarrow> 'r \<Rightarrow> nat"                         \<comment> \<open>intervals the back-off grants within a limit\<close>
  rd_Do :: "string \<Rightarrow> string list \<Rightarrow> 'r \<Rightarrow> 'p option \<times> 'r"  \<comment> \<open>\<^verbatim>\<open>conn.Do\<close>; \<^const>\<open>None\<close> for an error\<close>
  rd_Int :: "'p \<Rightarrow> err + int"
  rd_String :: "'p \<Rightarrow> err + string"
  rd_Strings :: "'p \<Rightarrow> err + string list"
  rd_StringMap :: "'p \<Rightarrow> err + (string, string) gomap"
  rd_Values :: "'p \<Rightarrow> err + 'p list"
  rd_bytes :: "'p \<Rightarrow> string option"                       \<comment> \<open>type assertion \<^verbatim>\<open>.([]byte)\<close>\<close>
  rd_list :: "'p \<Rightarrow> 'p list option"                       \<comment> \<open>type assertion \<^verbatim>\<open>.([]interface{})\<close>\<close>

record StoreConfig =
  MangleKey :: "string \<Rightarrow> string"
  UnmangleKey :: "string \<Rightarrow> string"
  RequestRetryLimit :: int

section \<open>Operations\<close>

text \<open>
  \<^verbatim>\<open>backoff.Retry\<close> on the closure of \<^verbatim>\<open>getValidConnection\<close>: the closure runs until it succeeds, its
  error is permanent (\<^verbatim>\<open>err == ctx.Err()\<close>), or the back-off stops.
\<close>

fun retry_conn :: "('r, 'p) redigo \<Rightarrow> nat \<Rightarrow> 'r \<Rightarrow> err option \<times> 'r" where
  "retry_conn api n r =
     (case rd_GetContext api r of
        (None, r1) \<Rightarrow> (None, r1)
      | (Some e, r1) \<Rightarrow>
          (if rd_ctxErr api r1 = Some e then (Some e, r1)
           else (case n of 0 \<Rightarrow> (Some e, r1) | Suc n' \<Rightarrow> retry_conn api n' r1)))"

declare retry_conn.simps [simp del]

definition getValidConnection :: "('r, 'p) redigo \<Rightarrow> int \<Rightarrow> 'r \<Rightarrow> err option \<times> 'r" where
  "getValidConnection api limit r =
     (case rd_GetContext api r of
        (Some e, r1) \<Rightarrow>
          (if e = ErrCtx then (Some e, r1) else retry_conn api (rd_waits api limit r1) r1)
      | (None, r1) \<Rightarrow> (None, r1))"

definition doRaw :: "('r, 'p) redigo \<Rightarrow> StoreConfig \<Rightarrow> string \<Rightarrow> string list \<Rightarrow> 'r \<Rightarrow> 'p result \<times> 'r" where
  "doRaw api sc command args r =
     (case getValidConnection api (RequestRetryLimit sc) r of
        (Some e, r1) \<Rightarrow> (Error e, r1)
      | (None, r1) \<Rightarrow>
          (case rd_Do api command args r1 of
             (None, r2) \<Rightarrow> (Panicked, r2)
           | (Some p, r2) \<Rightarrow> (Ok p, r2)))"

definition do_cmd ::
  "('r, 'p) redigo \<Rightarrow> StoreConfig \<Rightarrow> string \<Rightarrow> string \<Rightarrow> string list \<Rightarrow> 'r \<Rightarrow> 'p result \<times> 'r" where
  "do_cmd api sc command key args r = doRaw api sc command (MangleKey sc key # args) r"

text \<open>A reply conversion applied to what \<^verbatim>\<open>do\<close> returned.\<close>

fun conv :: "('p \<Rightarrow> err + 'a) \<Rightarrow> 'p result \<times> 'r \<Rightarrow> 'a result \<times> 'r" where
  "conv f (Ok p, r) = ((case f p of Inl e \<Rightarrow> Error e | Inr v \<Rightarrow> Ok v), r)"
| "conv f (Error e, r) = (Error e, r)"
| "conv f (Panicked, r) = (Panicked, r)"

definition store_Set where
  "store_Set api sc key value r = conv (rd_String api) (do_cmd api sc ''SET'' key [value] r)"

definition store_Get where
  "store_Get api sc key r = conv (rd_String api) (do_cmd api sc ''GET'' key [] r)"

definition store_Del where
  "store_Del api sc key r = conv (rd_Int api) (do_cmd api sc ''DEL'' key [] r)"

text \<open>The two Lua scripts of \<^verbatim>\<open>CompareAndSet\<close>, as sent to \<^verbatim>\<open>EVAL\<close>.\<close>

definition del_script :: string where
  "del_script = ''if redis.call('' @ [char_of (39::nat)] @ ''GET'' @ [char_of (39::nat)] @
     '', KEYS[1]) == ARGV[1] then redis.call('' @ [char_of (39::nat)] @ ''DEL'' @ [char_of (39::nat)] @
     '', KEYS[1]); return 1 else return 0 end''"

definition set_script :: string where
  "set_script = ''if redis.call('' @ [char_of (39::nat)] @ ''GET'' @ [char_of (39::nat)] @
     '', KEYS[1]) == ARGV[1] then redis.call('' @ [char_of (39::nat)] @ ''SET'' @ [char_of (39::nat)] @
     '', KEYS[1], ARGV[2]); return 1 else return 0 end''"

definition CompareAndSet ::
  "('r, 'p) redigo \<Rightarrow> StoreConfig \<Rightarrow> string \<Rightarrow> string option \<Rightarrow> string option \<Rightarrow> 'r \<Rightarrow> int result \<times> 'r" where
  "CompareAndSet api sc key expected value r =
     (case (expected, value) of
        (None, None) \<Rightarrow>
          (case store_Get api sc key r of
             (Error e, r') \<Rightarrow> (if e = ErrNil then (Ok 1, r') else (Error e, r'))
           | (Panicked, r') \<Rightarrow> (Panicked, r')
           | (Ok _, r') \<Rightarrow> (Ok 0, r'))
      | (None, Some v) \<Rightarrow> conv (rd_Int api) (do_cmd api sc ''SETNX'' key [v] r)
      | (Some e, None) \<Rightarrow>
          conv (rd_Int api) (doRaw api sc ''EVAL'' [del_script, ''1'', MangleKey sc key, e] r)
      | (Some e, Some v) \<Rightarrow>
          conv (rd_Int api) (doRaw api sc ''EVAL'' [set_script, ''1'', MangleKey sc key, e, v] r))"

definition store_Keys where
  "store_Keys api sc pattern r =
     (case conv (rd_Strings api) (do_cmd api sc ''KEYS'' pattern [] r) of
        (Ok ks, r') \<Rightarrow> (Ok (map (UnmangleKey sc) ks), r')
      | (e, r') \<Rightarrow> (e, r'))"

text \<open>
  \<^verbatim>\<open>Purge\<close>: the \<^verbatim>\<open>SCAN\<close> loop runs until the server returns cursor 0; \<open>fuel\<close> bounds the number of
  pages and \<^const>\<open>None\<close> is running out of it.
\<close>

fun purge_scan ::
  "('r, 'p) redigo \<Rightarrow> StoreConfig \<Rightarrow> string \<Rightarrow> nat \<Rightarrow> int \<Rightarrow> string list list \<Rightarrow> 'r \<Rightarrow>
    (string list list result \<times> 'r) option" where
  "purge_scan api sc pattern 0 cursor bags r = None"
| "purge_scan api sc pattern (Suc fuel) cursor bags r =
     (case conv (rd_Values api) (doRaw api sc ''SCAN'' [itoa cursor, ''MATCH'', pattern, ''COUNT'', ''100''] r) of
        (Error e, r') \<Rightarrow> Some (Error e, r')
      | (Panicked, r') \<Rightarrow> Some (Panicked, r')
      | (Ok (c # ks # _), r') \<Rightarrow>
          (case (rd_bytes api c, rd_list api ks) of
             (Some c', Some ks') \<Rightarrow>
               (let cursor' = fst (parse_int c');
                    names = map (\<lambda>k. case rd_bytes api k of Some s \<Rightarrow> s | None \<Rightarrow> '''') ks';
                    bags' = (if length ks' > 0 then bags @ [names] else bags)
                in if cursor' = 0 then Some (Ok bags', r')
                   else purge_scan api sc pattern fuel cursor' bags' r')
           | _ \<Rightarrow> Some (Panicked, r'))
      | (Ok _, r') \<Rightarrow> Some (Panicked, r'))"

fun purge_del ::
  "('r, 'p) redigo \<Rightarrow> StoreConfig \<Rightarrow> string list list \<Rightarrow> int \<Rightarrow> 'r \<Rightarrow> (int \<times> err option) result \<times> 'r" where
  "purge_del api sc [] cnt r = (Ok (cnt, None), r)"
| "purge_del api sc (ks # bags) cnt r =
     (case conv (rd_Int api) (doRaw api sc ''DEL'' ks r) of
        (Ok n, r') \<Rightarrow> purge_del api sc bags (cnt + n) r'
      | (Error e, r') \<Rightarrow> (Ok (cnt, Some e), r')
      | (Panicked, r') \<Rightarrow> (Panicked, r'))"

definition Purge ::
  "('r, 'p) redigo \<Rightarrow> StoreConfig \<Rightarrow> nat \<Rightarrow> string \<Rightarrow> 'r \<Rightarrow> ((int \<times> err option) result \<times> 'r) option" where
  "Purge api sc fuel pattern r =
     (case purge_scan api sc (MangleKey sc pattern) fuel 0 [] r of
        None \<Rightarrow> None
      | Some (Error e, r') \<Rightarrow> Some (Ok (0, Some e), r')
      | Some (Panicked, r') \<Rightarrow> Some (Panicked, r')
      | Some (Ok bags, r') \<Rightarrow> Some (purge_del api sc bags 0 r'))"

definition HSet where
  "HSet api sc hash key value r = conv (rd_Int api) (do_cmd api sc ''HSET'' hash [key, value] r)"

definition HSet2 where
  "HSet2 api sc hash k1 v1 k2 v2 r =
     conv (rd_Int api) (do_cmd api sc ''HSET'' hash [k1, v1, k2, v2] r)"

definition HSet3 where
  "HSet3 api sc hash k1 v1 k2 v2 k3 v3 r =
     conv (rd_Int api) (do_cmd api sc ''HSET'' hash [k1, v1, k2, v2, k3, v3] r)"

text \<open>The argument array of \<^verbatim>\<open>HSetMultiple\<close> after the hash; \<open>rng\<close> is Go's range order.\<close>

fun pair_args :: "(string, string) gomap \<Rightarrow> string list" where
  "pair_args [] = []"
| "pair_args ((k, v) # m) = k # v # pair_args m"

definition HSetMultiple where
  "HSetMultiple api sc rng hash m r =
     (if length m = 0 then (Ok 0, r)
      else conv (rd_Int api) (do_cmd api sc ''HSET'' hash (pair_args (rng m)) r))"

definition HGet where
  "HGet api sc hash key r = conv (rd_String api) (do_cmd api sc ''HGET'' hash [key] r)"

definition HDel where
  "HDel api sc hash key r = conv (rd_Int api) (do_cmd api sc ''HDEL'' hash [key] r)"

definition HDelMultiple where
  "HDelMultiple api sc hash ks r = conv (rd_Int api) (do_cmd api sc ''HDEL'' hash ks r)"

definition HMGet where
  "HMGet api sc hash ks r = conv (rd_Strings api) (do_cmd api sc ''HMGET'' hash ks r)"

definition HScan ::
  "('r, 'p) redigo \<Rightarrow> StoreConfig \<Rightarrow> string \<Rightarrow> int \<Rightarrow> string \<Rightarrow> 'r \<Rightarrow> (int \<times> string list) result \<times> 'r" where
  "HScan api sc hash cursor match r =
     (case conv (rd_Values api)
         (if match \<noteq> '''' then
            do_cmd api sc ''HSCAN'' hash [itoa cursor, ''MATCH'', match, ''COUNT'', ''1000''] r
          else do_cmd api sc ''HSCAN'' hash [itoa cursor] r) of
        (Error e, r') \<Rightarrow> (Error e, r')
      | (Panicked, r') \<Rightarrow> (Panicked, r')
      | (Ok (c # ds # _), r') \<Rightarrow>
          (case rd_bytes api c of
             None \<Rightarrow> (Panicked, r')
           | Some c' \<Rightarrow>
               (case parse_int c' of
                  (n, False) \<Rightarrow> (Error (ErrMsg c'), r')
                | (n, True) \<Rightarrow>
                    (case rd_list api ds of
                       None \<Rightarrow> (Panicked, r')
                     | Some ds' \<Rightarrow>
                         (if list_all (\<lambda>d. rd_bytes api d \<noteq> None) ds'
                          then (Ok (n, map (\<lambda>d. the (rd_bytes api d)) ds'), r')
                          else (Panicked, r')))))
      | (Ok _, r') \<Rightarrow> (Panicked, r'))"

definition HGetAll where
  "HGetAll api sc hash r = conv (rd_StringMap api) (do_cmd api sc ''HGETALL'' hash [] r)"

definition HExists where
  "HExists api sc hash key r = conv (rd_Int api) (do_cmd api sc ''HEXISTS'' hash [key] r)"

definition HKeys where
  "HKeys api sc hash r = conv (rd_Strings api) (do_cmd api sc ''HKEYS'' hash [] r)"

definition ZAdd where
  "ZAdd api sc key (score :: int) value r =
     conv (rd_Int api) (do_cmd api sc ''ZADD'' key [itoa score, value] r)"

definition ZRange where
  "ZRange api sc key (start :: int) stop r =
     conv (rd_Strings api) (do_cmd api sc ''ZRANGE'' key [itoa start, itoa stop] r)"

definition ZRemRangeByScore where
  "ZRemRangeByScore api sc key (mn :: int) mx r =
     conv (rd_Int api) (do_cmd api sc ''ZREMRANGEBYSCORE'' key [itoa mn, itoa mx] r)"

definition cas_script :: string where
  "cas_script = ''local v=redis.call('' @ [char_of (39::nat)] @ ''GET'' @ [char_of (39::nat)] @
     '', KEYS[1]); if v==ARGV[1] or v==false and ARGV[1]=='' @ [char_of (39::nat), char_of (39::nat)] @
     '' then redis.call('' @ [char_of (39::nat)] @ ''SET'' @ [char_of (39::nat)] @
     '', KEYS[1], ARGV[2]); return ARGV[2] else return v end''"

definition CAS ::
  "('r, 'p) redigo \<Rightarrow> StoreConfig \<Rightarrow> string \<Rightarrow> string \<Rightarrow> string \<Rightarrow> 'r \<Rightarrow> string result \<times> 'r" where
  "CAS api sc key expected desired r =
     (case conv (rd_String api)
         (doRaw api sc ''EVAL'' [cas_script, ''1'', MangleKey sc key, expected, desired] r) of
        (Error e, r') \<Rightarrow> (if e = ErrNil then (Ok '''', r') else (Error e, r'))
      | (x, r') \<Rightarrow> (x, r'))"

section \<open>What Redis promises\<close>

text \<open>The server state as its clients see it: strings and hashes by key.\<close>

datatype rview = VStr string | VHash "string \<rightharpoonup> string"

definition str_at :: "(string \<rightharpoonup> rview) \<Rightarrow> string \<Rightarrow> string option" where
  "str_at v k = (case v k of Some (VStr s) \<Rightarrow> Some s | _ \<Rightarrow> None)"

definition hash_at :: "(string \<rightharpoonup> rview) \<Rightarrow> string \<Rightarrow> (string \<rightharpoonup> string)" where
  "hash_at v k = (case v k of Some (VHash f) \<Rightarrow> f | _ \<Rightarrow> Map.empty)"

definition is_str :: "(string \<rightharpoonup> rview) \<Rightarrow> string \<Rightarrow> bool" where
  "is_str v k \<longleftrightarrow> (case v k of Some (VHash _) \<Rightarrow> False | _ \<Rightarrow> True)"

definition is_hash :: "(string \<rightharpoonup> rview) \<Rightarrow> string \<Rightarrow> bool" where
  "is_hash v k \<longleftrightarrow> (case v k of Some (VStr _) \<Rightarrow> False | _ \<Rightarrow> True)"

definition put_str :: "(string \<rightharpoonup> rview) \<Rightarrow> string \<Rightarrow> string option \<Rightarrow> (string \<rightharpoonup> rview)" where
  "put_str v k x = v(k := map_option VStr x)"

text \<open>A hash whose last field goes is removed.\<close>

definition put_hash :: "(string \<rightharpoonup> rview) \<Rightarrow> string \<Rightarrow> (string \<rightharpoonup> string) \<Rightarrow> (string \<rightharpoonup> rview)" where
  "put_hash v k f = v(k := if f = Map.empty then None else Some (VHash f))"

text \<open>
  The Lua scripts: from the string at the key (\<^const>\<open>None\<close> where \<^verbatim>\<open>GET\<close> gives \<^verbatim>\<open>false\<close>) and the
  arguments, the new string at the key and the value returned.
\<close>

definition lua_del :: "string option \<Rightarrow> string \<Rightarrow> string option \<times> int" where
  "lua_del v a1 = (if v = Some a1 then (None, 1) else (v, 0))"

definition lua_set :: "string option \<Rightarrow> string \<Rightarrow> string \<Rightarrow> string option \<times> int" where
  "lua_set v a1 a2 = (if v = Some a1 then (Some a2, 1) else (v, 0))"

definition lua_cas :: "string option \<Rightarrow> string \<Rightarrow> string \<Rightarrow> string option \<times> string option" where
  "lua_cas v a1 a2 = (if v = Some a1 \<or> v = None \<and> a1 = '''' then (Some a2, Some a2) else (v, v))"

text \<open>A piece of a pattern with no character that \<^verbatim>\<open>KEYS\<close> treats specially.\<close>

definition plain :: "string \<Rightarrow> bool" where
  "plain s \<longleftrightarrow> set s \<inter> {CHR ''*'', CHR ''?'', CHR ''['', CHR '']'', CHR 0x5C, CHR ''^''} = {}"

definition nil_or :: "'a option \<Rightarrow> err + 'a" where
  "nil_or x = (case x of None \<Rightarrow> Inl ErrNil | Some v \<Rightarrow> Inr v)"

locale redis =
  fixes api :: "('r, 'p) redigo"
    and view :: "'r \<Rightarrow> (string \<rightharpoonup> rview)"
    and glob :: "string \<Rightarrow> string \<Rightarrow> bool"
  assumes conn: "rd_GetContext api r = (e, r') \<Longrightarrow> view r' = view r \<and> e \<noteq> Some ErrNil"
    and GET: "rd_Do api ''GET'' [k] r = (Some p, r') \<Longrightarrow>
      view r' = view r \<and> is_str (view r) k \<and> rd_String api p = nil_or (str_at (view r) k)"
    and SET: "rd_Do api ''SET'' [k, v] r = (Some p, r') \<Longrightarrow>
      view r' = put_str (view r) k (Some v) \<and> rd_String api p = Inr ''OK''"
    and DEL: "rd_Do api ''DEL'' [k] r = (Some p, r') \<Longrightarrow>
      view r' = (view r)(k := None) \<and> rd_Int api p = Inr (if view r k = None then 0 else 1)"
    and SETNX: "rd_Do api ''SETNX'' [k, v] r = (Some p, r') \<Longrightarrow>
      view r' = (if view r k = None then put_str (view r) k (Some v) else view r) \<and>
      rd_Int api p = Inr (if view r k = None then 1 else 0)"
    and EVAL_del: "rd_Do api ''EVAL'' [del_script, ''1'', k, a1] r = (Some p, r') \<Longrightarrow>
      is_str (view r) k \<and> view r' = put_str (view r) k (fst (lua_del (str_at (view r) k) a1)) \<and>
      rd_Int api p = Inr (snd (lua_del (str_at (view r) k) a1))"
    and EVAL_set: "rd_Do api ''EVAL'' [set_script, ''1'', k, a1, a2] r = (Some p, r') \<Longrightarrow>
      is_str (view r) k \<and> view r' = put_str (view r) k (fst (lua_set (str_at (view r) k) a1 a2)) \<and>
      rd_Int api p = Inr (snd (lua_set (str_at (view r) k) a1 a2))"
    and EVAL_cas: "rd_Do api ''EVAL'' [cas_script, ''1'', k, a1, a2] r = (Some p, r') \<Longrightarrow>
      is_str (view r) k \<and> view r' = put_str (view r) k (fst (lua_cas (str_at (view r) k) a1 a2)) \<and>
      rd_String api p = nil_or (snd (lua_cas (str_at (view r) k) a1 a2))"
    and KEYS: "rd_Do api ''KEYS'' [pat] r = (Some p, r') \<Longrightarrow>
      view r' = view r \<and> (\<exists>ks. rd_Strings api p = Inr ks \<and> distinct ks \<and>
        set ks = {k. view r k \<noteq> None \<and> glob pat k})"
    and glob_star: "plain a \<Longrightarrow> plain b \<Longrightarrow> glob (a @ ''*'' @ b) k \<longleftrightarrow> (\<exists>m. k = a @ m @ b)"
    and HSET: "m \<noteq> [] \<Longrightarrow> rd_Do api ''HSET'' (h # pair_args m) r = (Some p, r') \<Longrightarrow>
      is_hash (view r) h \<and> view r' = put_hash (view r) h (hash_at (view r) h ++ map_of (rev m)) \<and>
      rd_Int api p = Inr (int (card (set (keys m) - dom (hash_at (view r) h))))"
    and HGET: "rd_Do api ''HGET'' [h, f] r = (Some p, r') \<Longrightarrow>
      view r' = view r \<and> is_hash (view r) h \<and> rd_String api p = nil_or (hash_at (view r) h f)"
    and HDEL: "fs \<noteq> [] \<Longrightarrow> rd_Do api ''HDEL'' (h # fs) r = (Some p, r') \<Longrightarrow>
      is_hash (view r) h \<and> view r' = put_hash (view r) h (hash_at (view r) h |` (- set fs)) \<and>
      rd_Int api p = Inr (int (card (set fs \<inter> dom (hash_at (view r) h))))"
    and HEXISTS: "rd_Do api ''HEXISTS'' [h, f] r = (Some p, r') \<Longrightarrow>
      view r' = view r \<and> is_hash (view r) h \<and>
      rd_Int api p = Inr (if hash_at (view r) h f = None then 0 else 1)"
    and HGETALL: "rd_Do api ''HGETALL'' [h] r = (Some p, r') \<Longrightarrow>
      view r' = view r \<and> is_hash (view r) h \<and>
      (\<exists>m. rd_StringMap api p = Inr m \<and> wf_map m \<and> map_of m = hash_at (view r) h)"
begin

lemma retry_conn_view: "retry_conn api n r = (e, r') \<Longrightarrow> view r' = view r \<and> e \<noteq> Some ErrNil"
proof (induction n arbitrary: r)
  case 0
  then show ?case
    using conn by (subst (asm) retry_conn.simps) (auto split: prod.splits option.splits if_splits)
next
  case (Suc n)
  then show ?case
    using conn [of r]
    by (subst (asm) (2) retry_conn.simps) (auto split: prod.splits option.splits if_splits)
qed

lemma getValidConnection_view:
  "getValidConnection api limit r = (e, r') \<Longrightarrow> view r' = view r \<and> e \<noteq> Some ErrNil"
  using conn retry_conn_view
  by (fastforce simp: getValidConnection_def split: prod.splits option.splits if_splits)

text \<open>An operation that fails to get a connection leaves the server as it was.\<close>

lemma doRaw_Error: "doRaw api sc c args r = (Error e, r') \<Longrightarrow> view r' = view r \<and> e \<noteq> ErrNil"
  using getValidConnection_view by (fastforce simp: doRaw_def split: option.splits prod.splits)

lemma doRaw_Ok:
  assumes "doRaw api sc c args r = (Ok p, r')"
  obtains r1 where "view r1 = view r" and "rd_Do api c args r1 = (Some p, r')"
  using assms getValidConnection_view by (fastforce simp: doRaw_def split: option.splits prod.splits)

lemma conv_Ok: "conv f x = (Ok v, r') \<longleftrightarrow> (\<exists>p. x = (Ok p, r') \<and> f p = Inr v)"
  by (cases x; cases "fst x") (auto split: sum.splits)

lemma conv_Error:
  "conv f x = (Error e, r') \<longleftrightarrow> x = (Error e, r') \<or> (\<exists>p. x = (Ok p, r') \<and> f p = Inl e)"
  by (cases x; cases "fst x") (auto split: sum.splits)

end

lemma put_str_same: "is_str v k \<Longrightarrow> put_str v k (str_at v k) = v"
  by (auto simp: put_str_def is_str_def str_at_def fun_eq_iff split: option.splits rview.splits)

lemma str_at_put_str [simp]: "str_at (put_str v k x) k' = (if k' = k then x else str_at v k')"
  by (auto simp: str_at_def put_str_def split: option.splits)

lemma put_str_other [simp]: "k' \<noteq> k \<Longrightarrow> put_str v k x k' = v k'"
  by (simp add: put_str_def)

lemma str_at_put_hash [simp]: "k' \<noteq> k \<Longrightarrow> str_at (put_hash v k f) k' = str_at v k'"
  by (simp add: str_at_def put_hash_def)

lemma hash_at_put_hash [simp]: "hash_at (put_hash v k f) k' = (if k' = k then f else hash_at v k')"
  by (auto simp: hash_at_def put_hash_def)

lemma hash_at_put_str [simp]: "k' \<noteq> k \<Longrightarrow> hash_at (put_str v k x) k' = hash_at v k'"
  by (simp add: hash_at_def put_str_def)

lemma nil_or_simps [simp]:
  "nil_or x = Inr v \<longleftrightarrow> x = Some v" "nil_or x = Inl e \<longleftrightarrow> x = None \<and> e = ErrNil"
  by (auto simp: nil_or_def split: option.splits)

context redis
begin

lemma store_Get_Ok:
  assumes "store_Get api sc key r = (Ok v, r')"
  shows "view r' = view r \<and> str_at (view r) (MangleKey sc key) = Some v"
  using assms by (auto simp: store_Get_def do_cmd_def conv_Ok elim!: doRaw_Ok dest!: GET)

lemma store_Get_Error:
  assumes "store_Get api sc key r = (Error e, r')"
  shows "view r' = view r \<and> (e = ErrNil \<longrightarrow> str_at (view r) (MangleKey sc key) = None)"
  using assms
  by (auto simp: store_Get_def do_cmd_def conv_Error elim!: doRaw_Ok dest!: GET doRaw_Error)

lemma store_Set_Ok:
  assumes "store_Set api sc key v r = (Ok x, r')"
  shows "view r' = put_str (view r) (MangleKey sc key) (Some v)"
  using assms by (auto simp: store_Set_def do_cmd_def conv_Ok elim!: doRaw_Ok dest!: SET)

lemma store_Del_Ok:
  assumes "store_Del api sc key r = (Ok n, r')"
  shows "view r' = (view r)(MangleKey sc key := None) \<and>
    n = (if view r (MangleKey sc key) = None then 0 else 1)"
  using assms by (auto simp: store_Del_def do_cmd_def conv_Ok elim!: doRaw_Ok dest!: DEL)

lemma CAS_Ok:
  assumes "CAS api sc key a1 a2 r = (Ok n, r')"
  defines "k \<equiv> MangleKey sc key"
  shows "is_str (view r) k \<and> view r' = put_str (view r) k (fst (lua_cas (str_at (view r) k) a1 a2)) \<and>
    n = (case snd (lua_cas (str_at (view r) k) a1 a2) of None \<Rightarrow> '''' | Some x \<Rightarrow> x)"
  using assms
  by (auto simp: CAS_def conv_Ok conv_Error split: prod.splits result.splits if_splits
      elim!: doRaw_Ok dest!: EVAL_cas doRaw_Error)

lemma CAS_Error:
  assumes "CAS api sc key a1 a2 r = (Error e, r')"
  shows "view r' = view r"
  using assms
  by (auto simp: CAS_def conv_Error split: prod.splits result.splits if_splits
      elim!: doRaw_Ok dest!: EVAL_cas doRaw_Error)

lemma CompareAndSet_Ok:
  assumes "CompareAndSet api sc key expected nval r = (Ok n, r')"
    and "is_str (view r) (MangleKey sc key)"
  shows "(str_at (view r) (MangleKey sc key) = expected \<longrightarrow>
      n = 1 \<and> view r' = put_str (view r) (MangleKey sc key) nval) \<and>
    (str_at (view r) (MangleKey sc key) \<noteq> expected \<longrightarrow> n = 0 \<and> view r' = view r)"
proof (cases expected)
  case None
  show ?thesis
  proof (cases nval)
    case (Some v)
    have "view r (MangleKey sc key) = None \<longleftrightarrow> str_at (view r) (MangleKey sc key) = None"
      using assms(2) by (auto simp: is_str_def str_at_def split: option.splits rview.splits)
    then show ?thesis
      using assms(1) None Some
      by (auto simp: CompareAndSet_def do_cmd_def conv_Ok elim!: doRaw_Ok dest!: SETNX)
  next
    case None
    then show ?thesis
      using assms(1) \<open>expected = None\<close> put_str_same [OF assms(2)]
      by (auto simp: CompareAndSet_def split: prod.splits result.splits if_splits
          dest!: store_Get_Ok store_Get_Error)
  qed
next
  case (Some e)
  show ?thesis
  proof (cases nval)
    case None
    then show ?thesis
      using assms(1) Some put_str_same [OF assms(2)]
      by (auto simp: CompareAndSet_def conv_Ok lua_del_def elim!: doRaw_Ok dest!: EVAL_del)
  next
    case (Some v)
    then show ?thesis
      using assms(1) \<open>expected = Some e\<close> put_str_same [OF assms(2)]
      by (auto simp: CompareAndSet_def conv_Ok lua_set_def elim!: doRaw_Ok dest!: EVAL_set)
  qed
qed

end

context redis
begin

lemma doRaw_Error_conn:
  "doRaw api sc c args r = (Error e, r') \<Longrightarrow> getValidConnection api (RequestRetryLimit sc) r = (Some e, r')"
  by (auto simp: doRaw_def split: prod.splits option.splits)

lemma doRaw_Panicked:
  "doRaw api sc c args r = (Panicked, r') \<Longrightarrow>
    \<exists>r1. getValidConnection api (RequestRetryLimit sc) r = (None, r1) \<and> rd_Do api c args r1 = (None, r')"
  by (auto simp: doRaw_def split: prod.splits option.splits)

lemma conv_Panicked: "conv f x = (Panicked, r') \<longleftrightarrow> x = (Panicked, r')"
  by (cases x; cases "fst x") (auto split: sum.splits)

text \<open>
  \<^verbatim>\<open>CompareAndSet\<close> returns an error only when no connection is to be had, and then the server is
  unchanged; it panics only when the command itself failed.
\<close>

lemma CompareAndSet_Error:
  assumes "CompareAndSet api sc key expected nval r = (Error e, r')"
  shows "getValidConnection api (RequestRetryLimit sc) r = (Some e, r') \<and> view r' = view r"
proof -
  have "getValidConnection api (RequestRetryLimit sc) r = (Some e, r')"
    using assms
    by (auto simp: CompareAndSet_def store_Get_def do_cmd_def conv_Error conv_Ok
        split: option.splits prod.splits result.splits if_splits
        elim!: doRaw_Ok dest!: EVAL_del EVAL_set SETNX GET dest: doRaw_Error_conn)
  then show ?thesis using getValidConnection_view by blast
qed

lemma CompareAndSet_Panicked:
  assumes "CompareAndSet api sc key expected nval r = (Panicked, r')"
  shows "\<exists>r1 c args. getValidConnection api (RequestRetryLimit sc) r = (None, r1) \<and>
    rd_Do api c args r1 = (None, r')"
  using assms
  by (auto simp: CompareAndSet_def store_Get_def do_cmd_def conv_Panicked
      split: option.splits prod.splits result.splits if_splits dest!: doRaw_Panicked)

end

section \<open>An in-memory server\<close>

text \<open>
  A server that meets the contract, with which concrete executions of the code are evaluated:
  strings and hashes in an association list, always reachable, failing on commands applied to a
  key of the wrong type.
\<close>

datatype reply = RNil | RInt int | RBulk string | RArr "reply list"

datatype mval = MStr string | MHash "(string, string) gomap"

type_synonym mem = "(string, mval) gomap"

fun mval_view :: "mval \<Rightarrow> rview" where
  "mval_view (MStr s) = VStr s"
| "mval_view (MHash m) = VHash (map_of m)"

definition mem_view :: "mem \<Rightarrow> (string \<rightharpoonup> rview)" where
  "mem_view r k = map_option mval_view (map_of r k)"

fun star_match :: "string \<Rightarrow> string \<Rightarrow> bool" where
  "star_match [] s \<longleftrightarrow> s = []"
| "star_match (c # p) [] \<longleftrightarrow> c = CHR ''*'' \<and> star_match p []"
| "star_match (c # p) (x # s) \<longleftrightarrow>
     (if c = CHR ''*'' then star_match p (x # s) \<or> star_match (c # p) s
      else c = x \<and> star_match p s)"

definition bulk :: "string option \<Rightarrow> reply" where
  "bulk x = (case x of None \<Rightarrow> RNil | Some s \<Rightarrow> RBulk s)"

text \<open>The string (or absent) and the hash (or absent) at a key; \<^const>\<open>None\<close> is a type error.\<close>

definition get_str :: "mem \<Rightarrow> string \<Rightarrow> string option option" where
  "get_str r k = (case map_of r k of None \<Rightarrow> Some None | Some (MStr s) \<Rightarrow> Some (Some s)
     | Some (MHash _) \<Rightarrow> None)"

definition get_hash :: "mem \<Rightarrow> string \<Rightarrow> (string, string) gomap option" where
  "get_hash r k = (case map_of r k of None \<Rightarrow> Some [] | Some (MHash m) \<Rightarrow> Some m | Some (MStr _) \<Rightarrow> None)"

definition mem_put_str :: "mem \<Rightarrow> string \<Rightarrow> string option \<Rightarrow> mem" where
  "mem_put_str r k x = (case x of None \<Rightarrow> mdel k r | Some s \<Rightarrow> mput k (MStr s) r)"

definition mem_put_hash :: "mem \<Rightarrow> string \<Rightarrow> (string, string) gomap \<Rightarrow> mem" where
  "mem_put_hash r k m = (if m = [] then mdel k r else mput k (MHash m) r)"

fun upd_args :: "string list \<Rightarrow> (string, string) gomap \<Rightarrow> (string, string) gomap" where
  "upd_args (k # v # xs) m = upd_args xs (mput k v m)"
| "upd_args _ m = m"

fun arg_keys :: "string list \<Rightarrow> string list" where
  "arg_keys (k # v # xs) = k # arg_keys xs"
| "arg_keys _ = []"

fun str_cmd :: "string \<Rightarrow> string list \<Rightarrow> mem \<Rightarrow> reply option \<times> mem" where
  "str_cmd c [k] r =
     (if c = ''GET'' then (case get_str r k of None \<Rightarrow> (None, r) | Some x \<Rightarrow> (Some (bulk x), r))
      else if c = ''DEL'' then (Some (RInt (if map_of r k = None then 0 else 1)), mdel k r)
      else if c = ''KEYS'' then
        (Some (RArr (map RBulk (filter (star_match k) (remdups (keys r))))), r)
      else (None, r))"
| "str_cmd c [k, v] r =
     (if c = ''SET'' then (Some (RBulk ''OK''), mem_put_str r k (Some v))
      else if c = ''SETNX'' then
        (if map_of r k = None then (Some (RInt 1), mem_put_str r k (Some v)) else (Some (RInt 0), r))
      else (None, r))"
| "str_cmd c [s, n, k, a1] r =
     (if c = ''EVAL'' \<and> s = del_script then
        (case get_str r k of None \<Rightarrow> (None, r)
         | Some x \<Rightarrow> (Some (RInt (snd (lua_del x a1))), mem_put_str r k (fst (lua_del x a1))))
      else (None, r))"
| "str_cmd c [s, n, k, a1, a2] r =
     (if c = ''EVAL'' then
        (case get_str r k of None \<Rightarrow> (None, r)
         | Some x \<Rightarrow>
            (if s = set_script then
               (Some (RInt (snd (lua_set x a1 a2))), mem_put_str r k (fst (lua_set x a1 a2)))
             else if s = cas_script then
               (Some (bulk (snd (lua_cas x a1 a2))), mem_put_str r k (fst (lua_cas x a1 a2)))
             else (None, r)))
      else (None, r))"
| "str_cmd c _ r = (None, r)"

definition hash_cmd :: "string \<Rightarrow> string list \<Rightarrow> mem \<Rightarrow> reply option \<times> mem" where
  "hash_cmd c args r =
     (case args of [] \<Rightarrow> (None, r) | h # fs \<Rightarrow>
       (case get_hash r h of None \<Rightarrow> (None, r) | Some m \<Rightarrow>
         (if c = ''HSET'' then
            (Some (RInt (int (card (set (arg_keys fs) - set (keys m))))), mem_put_hash r h (upd_args fs m))
          else if c = ''HDEL'' then
            (Some (RInt (int (card (set fs \<inter> set (keys m))))),
             mem_put_hash r h (filter (\<lambda>(k, v). k \<notin> set fs) m))
          else if c = ''HGETALL'' then
            (Some (RArr (concat (map (\<lambda>(k, v). [RBulk k, RBulk v]) (AList.clearjunk m)))), r)
          else if c = ''HGET'' then
            (Some (bulk (map_of m (case fs of [] \<Rightarrow> '''' | f # _ \<Rightarrow> f))), r)
          else if c = ''HEXISTS'' then
            (Some (RInt (if map_of m (case fs of [] \<Rightarrow> '''' | f # _ \<Rightarrow> f) = None then 0 else 1)), r)
          else (None, r))))"

definition mem_Do :: "string \<Rightarrow> string list \<Rightarrow> mem \<Rightarrow> reply option \<times> mem" where
  "mem_Do c args r =
     (if c \<in> {''HSET'', ''HDEL'', ''HGETALL'', ''HGET'', ''HEXISTS''} then hash_cmd c args r
      else str_cmd c args r)"

fun reply_Int :: "reply \<Rightarrow> err + int" where
  "reply_Int (RInt n) = Inr n"
| "reply_Int RNil = Inl ErrNil"
| "reply_Int _ = Inl (ErrMsg ''unexpected type for Int'')"

fun reply_String :: "reply \<Rightarrow> err + string" where
  "reply_String (RBulk s) = Inr s"
| "reply_String RNil = Inl ErrNil"
| "reply_String _ = Inl (ErrMsg ''unexpected type for String'')"

fun reply_bytes :: "reply \<Rightarrow> string option" where
  "reply_bytes (RBulk s) = Some s"
| "reply_bytes _ = None"

fun reply_list :: "reply \<Rightarrow> reply list option" where
  "reply_list (RArr xs) = Some xs"
| "reply_list _ = None"

fun reply_Strings :: "reply \<Rightarrow> err + string list" where
  "reply_Strings (RArr xs) = Inr (map (\<lambda>x. case reply_bytes x of Some s \<Rightarrow> s | None \<Rightarrow> '''') xs)"
| "reply_Strings RNil = Inl ErrNil"
| "reply_Strings _ = Inl (ErrMsg ''unexpected type for Strings'')"

fun reply_pairs :: "reply list \<Rightarrow> (string, string) gomap" where
  "reply_pairs (RBulk k # RBulk v # xs) = (k, v) # reply_pairs xs"
| "reply_pairs _ = []"

fun reply_StringMap :: "reply \<Rightarrow> err + (string, string) gomap" where
  "reply_StringMap (RArr xs) = Inr (reply_pairs xs)"
| "reply_StringMap _ = Inl (ErrMsg ''unexpected type for StringMap'')"

fun reply_Values :: "reply \<Rightarrow> err + reply list" where
  "reply_Values (RArr xs) = Inr xs"
| "reply_Values RNil = Inl ErrNil"
| "reply_Values _ = Inl (ErrMsg ''unexpected type for Values'')"

definition mem_redis :: "(mem, reply) redigo" where
  "mem_redis = \<lparr>rd_GetContext = (\<lambda>r. (None, r)),
     rd_ctxErr = (\<lambda>_. None), rd_waits = (\<lambda>_ _. 0), rd_Do = mem_Do, rd_Int = reply_Int, rd_String = reply_String,
     rd_Strings = reply_Strings, rd_StringMap = reply_StringMap, rd_Values = reply_Values,
     rd_bytes = reply_bytes, rd_list = reply_list\<rparr>"

lemma star_match_refl: "CHR ''*'' \<notin> set b \<Longrightarrow> star_match b s \<longleftrightarrow> s = b"
  by (induction b s rule: star_match.induct) auto

lemma star_match_star: "CHR ''*'' \<notin> set b \<Longrightarrow> star_match (CHR ''*'' # b) s \<longleftrightarrow> (\<exists>m. s = m @ b)"
proof (induction s)
  case Nil
  then show ?case by (auto simp: star_match_refl)
next
  case (Cons x s)
  then show ?case
    by (auto simp: star_match_refl Cons_eq_append_conv)
qed

lemma star_match_prefix:
  assumes "CHR ''*'' \<notin> set a" "CHR ''*'' \<notin> set b"
  shows "star_match (a @ CHR ''*'' # b) s \<longleftrightarrow> (\<exists>m. s = a @ m @ b)"
  using assms
proof (induction a arbitrary: s)
  case (Cons c a)
  then show ?case by (cases s) auto
qed (simp add: star_match_star)

lemma str_cmd_view:
  "get_str r k = Some x \<longleftrightarrow> is_str (mem_view r) k \<and> x = str_at (mem_view r) k"
  by (auto simp: get_str_def is_str_def str_at_def mem_view_def split: option.splits mval.splits)

lemma hash_cmd_view:
  "get_hash r k = Some m \<Longrightarrow> is_hash (mem_view r) k \<and> map_of m = hash_at (mem_view r) k"
  by (auto simp: get_hash_def is_hash_def hash_at_def mem_view_def split: option.splits mval.splits)

lemma map_of_empty_iff: "map_of m = Map.empty \<longleftrightarrow> m = []"
  by (cases m) (auto simp: fun_eq_iff)

lemma mem_view_put [simp]:
  "mem_view (mem_put_str r k x) = put_str (mem_view r) k x"
  "mem_view (mem_put_hash r k m) = put_hash (mem_view r) k (map_of m)"
  "mem_view (mdel k r) = (mem_view r)(k := None)"
  by (auto simp: mem_view_def mem_put_str_def mem_put_hash_def put_str_def put_hash_def fun_eq_iff
      map_of_empty_iff [unfolded fun_eq_iff] split: option.splits)

lemma map_of_upd_args: "map_of (upd_args (pair_args m) h) = map_of h ++ map_of (rev m)"
proof (induction m arbitrary: h)
  case (Cons x m)
  then show ?case
    by (cases x) (auto simp: map_add_def fun_eq_iff split: option.splits)
qed simp

lemma arg_keys_pair_args [simp]: "arg_keys (pair_args m) = keys m"
  by (induction m rule: pair_args.induct) simp_all

lemma map_of_filter_keys: "map_of (filter (\<lambda>(k, v). k \<notin> A) m) = map_of m |` (- A)"
  by (induction m) (auto simp: restrict_map_def fun_eq_iff)

lemma reply_pairs_concat [simp]:
  "reply_pairs (concat (map (\<lambda>(k, v). [RBulk k, RBulk v]) m)) = m"
  by (induction m) auto

lemma script_neq: "cas_script \<noteq> set_script"
  by (simp add: cas_script_def set_script_def)

lemma reply_bulk [simp]: "reply_String (bulk x) = nil_or x"
  by (simp add: bulk_def nil_or_def split: option.splits)

lemma dom_keys: "dom (map_of m) = set (keys m)"
  by (simp add: dom_map_of_conv_image_fst)

lemma mem_view_None [simp]: "mem_view r k = None \<longleftrightarrow> map_of r k = None"
  by (simp add: mem_view_def)

lemmas mem_cmd = mem_redis_def mem_Do_def hash_cmd_def dom_keys

interpretation mem: redis mem_redis mem_view star_match
proof
  fix pat r p r'
  assume "rd_Do mem_redis ''KEYS'' [pat] r = (Some p, r')"
  then show "mem_view r' = mem_view r \<and> (\<exists>ks. rd_Strings mem_redis p = Inr ks \<and> distinct ks \<and>
      set ks = {k. mem_view r k \<noteq> None \<and> star_match pat k})"
    by (auto simp: mem_cmd comp_def map_of_eq_None_iff)
next
  fix h r p r'
  assume "rd_Do mem_redis ''HGETALL'' [h] r = (Some p, r')"
  then show "mem_view r' = mem_view r \<and> is_hash (mem_view r) h \<and>
      (\<exists>m. rd_StringMap mem_redis p = Inr m \<and> wf_map m \<and> map_of m = hash_at (mem_view r) h)"
    by (auto simp: mem_cmd map_of_clearjunk distinct_clearjunk wf_map_def
        split: option.splits dest!: hash_cmd_view)
next
  fix m :: "(string, string) gomap" and h r p r'
  assume "rd_Do mem_redis ''HSET'' (h # pair_args m) r = (Some p, r')"
  then show "is_hash (mem_view r) h \<and>
      mem_view r' = put_hash (mem_view r) h (hash_at (mem_view r) h ++ map_of (rev m)) \<and>
      rd_Int mem_redis p = Inr (int (card (set (keys m) - dom (hash_at (mem_view r) h))))"
    by (auto simp: mem_cmd map_of_upd_args split: option.splits dest!: hash_cmd_view)
      (simp flip: dom_map_of_conv_image_fst)
next
  fix fs h r p r'
  assume "rd_Do mem_redis ''HDEL'' (h # fs) r = (Some p, r')"
  then show "is_hash (mem_view r) h \<and>
      mem_view r' = put_hash (mem_view r) h (hash_at (mem_view r) h |` (- set fs)) \<and>
      rd_Int mem_redis p = Inr (int (card (set fs \<inter> dom (hash_at (mem_view r) h))))"
    by (auto simp: mem_cmd map_of_filter_keys split: option.splits dest!: hash_cmd_view)
      (simp flip: dom_map_of_conv_image_fst)
qed (auto simp: mem_cmd script_neq str_cmd_view star_match_prefix plain_def
      split: option.splits if_splits dest!: hash_cmd_view)

section \<open>Properties\<close>

text \<open>compare-and-set.
  Against any server with the behaviour of \<^const>\<open>redis\<close>, \<^verbatim>\<open>CompareAndSet(key, expected, value)\<close> on a
  key that holds a string or nothing returns 1 and stores \<^verbatim>\<open>value\<close> (deletes the key when it is nil)
  if the key held exactly \<^verbatim>\<open>expected\<close> (nothing when it is nil), and otherwise returns 0 and changes
  nothing; every other key keeps its value.  It fails only where no connection is to be had, without
  a change, and panics only where the command is refused.\<close>
theorem CompareAndSet_spec:
  assumes "redis api view glob"
    and "is_str (view r) (MangleKey sc key)"
    and "CompareAndSet api sc key expected nval r = (res, r')"
  shows "(\<forall>n. res = Ok n \<longrightarrow>
        n = (if str_at (view r) (MangleKey sc key) = expected then 1 else 0) \<and>
        str_at (view r') (MangleKey sc key) =
          (if str_at (view r) (MangleKey sc key) = expected then nval
           else str_at (view r) (MangleKey sc key)) \<and>
        (\<forall>k. k \<noteq> MangleKey sc key \<longrightarrow> view r' k = view r k)) \<and>
    (\<forall>e. res = Error e \<longrightarrow>
        getValidConnection api (RequestRetryLimit sc) r = (Some e, r') \<and> view r' = view r) \<and>
    (res = Panicked \<longrightarrow>
        (\<exists>r1 c args. getValidConnection api (RequestRetryLimit sc) r = (None, r1) \<and>
          rd_Do api c args r1 = (None, r')))"
  using redis.CompareAndSet_Ok [OF assms(1) _ assms(2), of expected nval]
    redis.CompareAndSet_Error [OF assms(1), of sc key expected nval r]
    redis.CompareAndSet_Panicked [OF assms(1), of sc key expected nval r] assms(3)
  by auto

definition sample_sc :: StoreConfig where
  "sample_sc = \<lparr>MangleKey = (\<lambda>k. ''kar_app_'' @ k), UnmangleKey = (\<lambda>k. drop 8 k), RequestRetryLimit = 0\<rparr>"

theorem CompareAndSet_spec_witness:
  "CompareAndSet mem_redis sample_sc ''k'' (Some ''a'') (Some ''b'') [(''kar_app_k'', MStr ''a'')]
     = (Ok 1, [(''kar_app_k'', MStr ''b'')]) \<and>
   is_str (mem_view [(''kar_app_k'', MStr ''a'')]) (MangleKey sample_sc ''k'') \<and>
   (1::int) = (if str_at (mem_view [(''kar_app_k'', MStr ''a'')]) (MangleKey sample_sc ''k'') = Some ''a''
     then 1 else 0)"
  (is "?run \<and> ?str \<and> _")
proof -
  have run: ?run by code_simp
  have str: ?str by code_simp
  show ?thesis
    using CompareAndSet_spec [OF mem.redis_axioms str run, THEN conjunct1, rule_format, OF refl,
        THEN conjunct1] run str
    by blast
qed

end
