(* ===== verification/Rpc_Routing.thy ===== *)
theory Rpc_Routing
  imports Rpc_Messages Rpc_Store
begin

text \<open>
  Routing: the tables of \<^verbatim>\<open>src/core/pkg/rpc/dial.go\<close>, the choice of a partition and the sending of
  messages of \<^verbatim>\<open>src/core/pkg/rpc/send.go\<close>, and the queries of \<^verbatim>\<open>src/core/pkg/rpc/query.go\<close>.

  \<open>rpc_state\<close> holds the package variables, \<open>world\<close> adds the state of Redis and of Kafka.  The
  producer is a parameter (a function on the Kafka state, \<^const>\<open>None\<close> for success), and so are the
  random draws \<open>rnd\<close>: \<^verbatim>\<open>rand.Int31n(n)\<close> is \<open>rnd mod n\<close>.  The placement loop has fuel; the theorems
  show that two rounds are enough when the node drawn is live.
\<close>

section \<open>State\<close>

record info =
  i_Node :: string
  i_Port :: int
  i_Services :: "string list"
  i_Partition :: int

record placementCacheEntry =
  pc_node :: string
  pc_used :: bool

record rpc_state =
  appTopic :: string
  self :: info
  service2nodes :: "(string, string list) gomap"
  node2partition :: "(string, int) gomap"
  node2port :: "(string, int) gomap"
  session2NodeCache :: "(string, placementCacheEntry) gomap"
  tick :: nat                                   \<comment> \<open>how often the channel was closed and replaced\<close>
  head :: int
  recovery :: "(int, bool) gomap option"         \<comment> \<open>\<^const>\<open>None\<close> is the nil map\<close>
  newest :: "(int, int) gomap"
  offset0 :: int
  max0 :: int
  PlacementCache :: bool

record ('r, 'p, 'k) env =
  e_redis :: "('r, 'p) redigo"
  e_sc :: StoreConfig
  e_SendMessage :: "ProducerMessage \<Rightarrow> 'k \<Rightarrow> err option \<times> 'k"
  e_rng :: "meta \<Rightarrow> meta"

record ('r, 'k) world =
  w_rpc :: rpc_state
  w_redis :: 'r
  w_kafka :: 'k

abbreviation partition_of :: "rpc_state \<Rightarrow> string \<Rightarrow> int" where
  "partition_of st node \<equiv> mget 0 (node2partition st) node"

abbreviation nodes_of :: "rpc_state \<Rightarrow> string \<Rightarrow> string list" where
  "nodes_of st service \<equiv> mget [] (service2nodes st) service"

section \<open>Keys\<close>

definition place :: "string list \<Rightarrow> string" where
  "place names = fold (\<lambda>name key. key @ ''_'' @ name) names ''rpc''"

definition alt :: "string \<Rightarrow> string" where
  "alt id' = ''alt_'' @ id'"

text \<open>\<^verbatim>\<open>parts[1]\<close> and \<^verbatim>\<open>parts[2]\<close> panic when there are not as many parts.\<close>

definition instance_of :: "string \<Rightarrow> (string \<times> string) option" where
  "instance_of key =
     (let parts = split_on (CHR ''_'') key
      in if length parts > 2 then Some (parts ! 1, parts ! 2) else None)"

section \<open>Routing\<close>

definition routeToService :: "nat \<Rightarrow> string \<Rightarrow> rpc_state \<Rightarrow> string \<times> int" where
  "routeToService rnd service st =
     (let nodes = nodes_of st service
      in if length nodes = 0 then ('''', 0)
         else let node = nodes ! (rnd mod length nodes) in (node, partition_of st node))"

fun place_loop ::
  "('r, 'p) redigo \<Rightarrow> StoreConfig \<Rightarrow> rpc_state \<Rightarrow> string \<Rightarrow> string \<Rightarrow> nat \<Rightarrow> string \<Rightarrow> 'r \<Rightarrow>
    ((string \<times> int) result \<times> 'r) option" where
  "place_loop api sc st key nxt 0 node r = None"
| "place_loop api sc st key nxt (Suc fuel) node r =
     (case rd_ctxErr api r of
        Some e \<Rightarrow> Some (Error e, r)
      | None \<Rightarrow>
          (case CAS api sc key node nxt r of
             (Error e, r') \<Rightarrow> Some (Error e, r')
           | (Panicked, r') \<Rightarrow> Some (Panicked, r')
           | (Ok node', r') \<Rightarrow>
               (let prt = partition_of st node'
                in if prt \<noteq> 0 then Some (Ok (node', prt), r')
                   else place_loop api sc st key nxt fuel node' r')))"

definition routeToSession ::
  "('r, 'p, 'k) env \<Rightarrow> nat \<Rightarrow> nat \<Rightarrow> string \<Rightarrow> string \<Rightarrow> ('r, 'k) world \<Rightarrow>
    ((string \<times> int) result \<times> ('r, 'k) world) option" where
  "routeToSession env fuel rnd service session w =
     (let st = w_rpc w; nodes = nodes_of st service; key = place [service, session]
      in if length nodes = 0 then Some (Ok ('''', 0), w)
         else case (if PlacementCache st then map_of (session2NodeCache st) key else None) of
           Some entry \<Rightarrow>
             Some (Ok (pc_node entry, partition_of st (pc_node entry)),
               w\<lparr>w_rpc := st\<lparr>session2NodeCache :=
                   mput key (entry\<lparr>pc_used := True\<rparr>) (session2NodeCache st)\<rparr>\<rparr>)
         | None \<Rightarrow>
             (case place_loop (e_redis env) (e_sc env) st key (nodes ! (rnd mod length nodes)) fuel ''''
                 (w_redis w) of
                None \<Rightarrow> None
              | Some (Ok (node, prt), r) \<Rightarrow>
                  Some (Ok (node, prt),
                    w\<lparr>w_redis := r,
                      w_rpc := if PlacementCache st
                        then st\<lparr>session2NodeCache :=
                          mput key \<lparr>pc_node = node, pc_used = True\<rparr> (session2NodeCache st)\<rparr>
                        else st\<rparr>)
              | Some (Error e, r) \<Rightarrow> Some (Error e, w\<lparr>w_redis := r\<rparr>)
              | Some (Panicked, r) \<Rightarrow> Some (Panicked, w\<lparr>w_redis := r\<rparr>)))"

section \<open>Sending\<close>

text \<open>\<^verbatim>\<open>producer.SendMessage(encode(appTopic, partition, msg))\<close>.\<close>

definition produce ::
  "('r, 'p, 'k) env \<Rightarrow> int \<Rightarrow> Message \<Rightarrow> ('r, 'k) world \<Rightarrow> err option \<times> ('r, 'k) world" where
  "produce env prt msg w =
     (let (e, k) = e_SendMessage env
            (encode (i_Node (self (w_rpc w))) (e_rng env) (appTopic (w_rpc w)) prt msg) (w_kafka w)
      in (e, w\<lparr>w_kafka := k\<rparr>))"

definition error_result :: "err option \<Rightarrow> unit result" where
  "error_result e = (case e of None \<Rightarrow> Ok () | Some x \<Rightarrow> Error x)"

text \<open>
  The partition and the redirection key that the switch of \<^verbatim>\<open>Send\<close> decides on.
\<close>

definition send_partition ::
  "('r, 'p, 'k) env \<Rightarrow> nat \<Rightarrow> nat \<Rightarrow> Message \<Rightarrow> ('r, 'k) world \<Rightarrow>
    ((int \<times> string) result \<times> ('r, 'k) world) option" where
  "send_partition env fuel rnd msg w =
     (case msg of
        Req v \<Rightarrow>
          (case target v of
             Service name \<Rightarrow> Some (Ok (snd (routeToService rnd name (w_rpc w)), ''''), w)
           | Session t \<Rightarrow>
               (case routeToSession env fuel rnd (s_Name t) (s_ID t) w of
                  None \<Rightarrow> None
                | Some (Ok (_, prt), w') \<Rightarrow> Some (Ok (prt, ''''), w')
                | Some (Error e, w') \<Rightarrow> Some (Error e, w')
                | Some (Panicked, w') \<Rightarrow> Some (Panicked, w'))
           | Node n \<Rightarrow>
               (let prt = partition_of (w_rpc w) n
                in if prt = 0 then Some (Error ErrUnavailable, w) else Some (Ok (prt, ''''), w)))
      | Resp v \<Rightarrow>
          (let prt = partition_of (w_rpc w) (rs_Node v)
           in if prt \<noteq> 0 then Some (Ok (prt, ''''), w)
              else let key = alt (rs_RequestID v)
                   in case store_Get (e_redis env) (e_sc env) key (w_redis w) of
                        (Panicked, r) \<Rightarrow> Some (Panicked, w\<lparr>w_redis := r\<rparr>)
                      | (res, r) \<Rightarrow>
                          (let node = (case res of Ok n \<Rightarrow> n | _ \<Rightarrow> '''')
                           in if node = '''' then Some (Error ErrUnavailable, w\<lparr>w_redis := r\<rparr>)
                              else Some (Ok (partition_of (w_rpc w) node, key), w\<lparr>w_redis := r\<rparr>)))
      | DoneMsg v \<Rightarrow> Some (Ok (0, ''''), w))"

definition Send ::
  "('r, 'p, 'k) env \<Rightarrow> nat \<Rightarrow> nat \<Rightarrow> Message \<Rightarrow> ('r, 'k) world \<Rightarrow>
    (unit result \<times> ('r, 'k) world) option" where
  "Send env fuel rnd msg w =
     (case rd_ctxErr (e_redis env) (w_redis w) of
        Some e \<Rightarrow> Some (Error e, w)
      | None \<Rightarrow>
          (case send_partition env fuel rnd msg w of
             None \<Rightarrow> None
           | Some (Error e, w') \<Rightarrow> Some (Error e, w')
           | Some (Panicked, w') \<Rightarrow> Some (Panicked, w')
           | Some (Ok (prt, redirected), w') \<Rightarrow>
               (case produce env prt msg w' of
                  (e, w2) \<Rightarrow>
                    (if e = None \<and> redirected \<noteq> '''' then
                       (case store_Del (e_redis env) (e_sc env) redirected (w_redis w2) of
                          (Panicked, r) \<Rightarrow> Some (Panicked, w2\<lparr>w_redis := r\<rparr>)
                        | (_, r) \<Rightarrow> Some (Ok (), w2\<lparr>w_redis := r\<rparr>))
                     else Some (error_result e, w2)))))"

text \<open>\<^verbatim>\<open>resend\<close>: the end of the function, after the switch on the target.\<close>

definition resend_to ::
  "('r, 'p, 'k) env \<Rightarrow> Request \<Rightarrow> bool \<Rightarrow> string \<Rightarrow> int \<Rightarrow> ('r, 'k) world \<Rightarrow>
    unit result \<times> ('r, 'k) world" where
  "resend_to env msg drp node prt w =
     (if prt = 0 \<and> drp then (Ok (), w)
      else let (panicked, w1) =
             (if childID msg \<noteq> '''' \<and> node \<noteq> '''' then
                (case store_Set (e_redis env) (e_sc env) (alt (childID msg)) node (w_redis w) of
                   (res, r) \<Rightarrow> (res = Panicked, w\<lparr>w_redis := r\<rparr>))
              else (False, w))
           in if panicked then (Panicked, w1)
              else let (e, w2) = produce env prt (Req msg) w1 in (error_result e, w2))"

definition resend ::
  "('r, 'p, 'k) env \<Rightarrow> nat \<Rightarrow> nat \<Rightarrow> Request \<Rightarrow> bool \<Rightarrow> ('r, 'k) world \<Rightarrow>
    (unit result \<times> ('r, 'k) world) option" where
  "resend env fuel rnd msg drp w =
     (case target msg of
        Node _ \<Rightarrow>
          (case msg of
             CallReq v \<Rightarrow>
               (let m = Resp \<lparr>rs_RequestID = cr_RequestID v, rs_Value = None, rs_Deadline = 0,
                      rs_ErrMsg = ''node died before processing call request'', rs_Node = cr_Caller v\<rparr>;
                    (e, w') = produce env (partition_of (w_rpc w) (cr_Caller v)) m w
                in Some (error_result e, w'))
           | TellReq v \<Rightarrow> Some (Ok (), w))
      | Service name \<Rightarrow>
          (let (node, prt) = routeToService rnd name (w_rpc w)
           in Some (resend_to env msg drp node prt w))
      | Session t \<Rightarrow>
          (case routeToSession env fuel rnd (s_Name t) (s_ID t) w of
             None \<Rightarrow> None
           | Some (Ok (node, prt), w') \<Rightarrow> Some (resend_to env msg drp node prt w')
           | Some (Error e, w') \<Rightarrow> Some (Error e, w')
           | Some (Panicked, w') \<Rightarrow> Some (Panicked, w')))"

definition respond :: "('r, 'p, 'k) env \<Rightarrow> Done \<Rightarrow> ('r, 'k) world \<Rightarrow> unit result \<times> ('r, 'k) world" where
  "respond env msg w = (let (e, w') = produce env 0 (DoneMsg msg) w in (error_result e, w'))"

section \<open>Queries\<close>

definition getNodeID :: "rpc_state \<Rightarrow> string" where
  "getNodeID st = i_Node (self st)"

definition getTopology ::
  "((string, string list) gomap \<Rightarrow> (string, string list) gomap) \<Rightarrow> rpc_state \<Rightarrow>
    (string, string list) gomap \<times> nat" where
  "getTopology rng st =
     (fold (\<lambda>(service, nodes) m. fold (\<lambda>node m. mput node (mget [] m node @ [service]) m) nodes m)
        (rng (service2nodes st)) [], tick st)"

definition getPorts ::
  "((string, int) gomap \<Rightarrow> (string, int) gomap) \<Rightarrow> rpc_state \<Rightarrow> (string, int) gomap \<times> nat" where
  "getPorts rng st = (fold (\<lambda>(node, port) m. mput node port m) (rng (node2port st)) [], tick st)"

definition getNodeIDs ::
  "((string, int) gomap \<Rightarrow> (string, int) gomap) \<Rightarrow> rpc_state \<Rightarrow> string list \<times> nat" where
  "getNodeIDs rng st = (sort (keys (rng (node2partition st))), tick st)"

definition getServices ::
  "((string, string list) gomap \<Rightarrow> (string, string list) gomap) \<Rightarrow> rpc_state \<Rightarrow> string list \<times> nat" where
  "getServices rng st = (sort (keys (rng (service2nodes st))), tick st)"

definition getServiceNodeIDs :: "string \<Rightarrow> rpc_state \<Rightarrow> string list \<times> nat" where
  "getServiceNodeIDs service st = (sort (nodes_of st service), tick st)"

definition getPartition :: "rpc_state \<Rightarrow> int" where
  "getPartition st = i_Partition (self st)"

definition getPartitions :: "rpc_state \<Rightarrow> int list \<times> nat" where
  "getPartitions st = ([0], tick st)"

definition getSessionNodeID ::
  "('r, 'p) redigo \<Rightarrow> StoreConfig \<Rightarrow> session \<Rightarrow> 'r \<Rightarrow> string result \<times> 'r" where
  "getSessionNodeID api sc s r =
     (case store_Get api sc (place [s_Name s, s_ID s]) r of
        (Error e, r') \<Rightarrow> (if e = ErrNil then (Ok '''', r') else (Error e, r'))
      | (x, r') \<Rightarrow> (x, r'))"

definition delSession ::
  "('r, 'p) redigo \<Rightarrow> StoreConfig \<Rightarrow> session \<Rightarrow> 'r \<Rightarrow> unit result \<times> 'r" where
  "delSession api sc s r =
     (case store_Del api sc (place [s_Name s, s_ID s]) r of
        (Error e, r') \<Rightarrow> (Error e, r')
      | (Panicked, r') \<Rightarrow> (Panicked, r')
      | (Ok _, r') \<Rightarrow> (Ok (), r'))"

fun group_sessions :: "string list \<Rightarrow> (string, string list) gomap \<Rightarrow> (string, string list) gomap option" where
  "group_sessions [] m = Some m"
| "group_sessions (key # reply) m =
     (case instance_of key of
        None \<Rightarrow> None
      | Some (actorType, instanceID) \<Rightarrow>
          group_sessions reply (mput actorType (mget [] m actorType @ [instanceID]) m))"

definition getAllSessions ::
  "('r, 'p) redigo \<Rightarrow> StoreConfig \<Rightarrow> string \<Rightarrow> 'r \<Rightarrow> (string, string list) gomap result \<times> 'r" where
  "getAllSessions api sc sessionPrefixFilter r =
     (let pattern = (if sessionPrefixFilter \<noteq> '''' then place [sessionPrefixFilter, ''*''] else place [''*''])
      in case store_Keys api sc pattern r of
           (Error e, r') \<Rightarrow> (Error e, r')
         | (Panicked, r') \<Rightarrow> (Panicked, r')
         | (Ok reply, r') \<Rightarrow>
             (case group_sessions reply [] of None \<Rightarrow> (Panicked, r') | Some m \<Rightarrow> (Ok m, r')))"

section \<open>Placement of sessions\<close>

abbreviation live :: "rpc_state \<Rightarrow> string \<Rightarrow> bool" where
  "live st node \<equiv> partition_of st node \<noteq> 0"

text \<open>The node the store has for a session, and the node it is to be on from now on.\<close>

abbreviation placed :: "StoreConfig \<Rightarrow> (string \<rightharpoonup> rview) \<Rightarrow> string \<Rightarrow> string option" where
  "placed sc v key \<equiv> str_at v (MangleKey sc key)"

definition chosen :: "rpc_state \<Rightarrow> string option \<Rightarrow> string \<Rightarrow> string" where
  "chosen st old nxt = (case old of Some n \<Rightarrow> if live st n then n else nxt | None \<Rightarrow> nxt)"

text \<open>The placement cache, where it is used, agrees with the store and names live nodes only.\<close>

definition cache_coherent :: "StoreConfig \<Rightarrow> (string \<rightharpoonup> rview) \<Rightarrow> rpc_state \<Rightarrow> bool" where
  "cache_coherent sc v st \<longleftrightarrow>
     (\<forall>key e. PlacementCache st \<and> map_of (session2NodeCache st) key = Some e \<longrightarrow>
        placed sc v key = Some (pc_node e) \<and> live st (pc_node e))"

context redis
begin

text \<open>One compare-and-swap either sets the key to the node drawn, or reports the node it holds.\<close>

lemma CAS_placed:
  assumes "CAS api sc key node nxt r = (Ok n, r')"
  shows "n = nxt \<and> view r' = put_str (view r) (MangleKey sc key) (Some nxt) \<and>
           (placed sc (view r) key = Some node \<or> placed sc (view r) key = None \<and> node = '''') \<or>
         placed sc (view r) key = Some n \<and> n \<noteq> node \<and> view r' = view r \<or>
         placed sc (view r) key = None \<and> node \<noteq> '''' \<and> n = '''' \<and> view r' = view r"
  using CAS_Ok [OF assms] put_str_same [of "view r" "MangleKey sc key"]
  by (auto simp: lua_cas_def split: if_splits option.splits)

lemma place_loop_retry:
  assumes "placed sc (view r) key = Some node" and "live st nxt"
  shows "\<exists>res r'. place_loop api sc st key nxt (Suc fuel) node r = Some (res, r') \<and>
    (\<forall>n p. res = Ok (n, p) \<longrightarrow> n = nxt \<and> p = partition_of st n \<and>
       view r' = put_str (view r) (MangleKey sc key) (Some n)) \<and>
    (\<forall>e. res = Error e \<longrightarrow> view r' = view r)"
proof (cases "rd_ctxErr api r")
  case None
  obtain res r1 where cas: "CAS api sc key node nxt r = (res, r1)" by fastforce
  show ?thesis
  proof (cases res)
    case (Ok n)
    with CAS_placed [of sc key node nxt r n r1] cas assms(1)
    have "n = nxt" "view r1 = put_str (view r) (MangleKey sc key) (Some nxt)" by auto
    then show ?thesis using None cas Ok assms(2) by simp
  qed (use None cas CAS_Error in auto)
qed simp

lemma place_loop_spec:
  assumes nxt: "live st nxt" and none: "\<not> live st ''''"
  shows "\<exists>res r'. place_loop api sc st key nxt (Suc (Suc fuel)) '''' r = Some (res, r') \<and>
    (\<forall>n p. res = Ok (n, p) \<longrightarrow> n = chosen st (placed sc (view r) key) nxt \<and> p = partition_of st n \<and>
       live st n \<and> view r' = put_str (view r) (MangleKey sc key) (Some n)) \<and>
    (\<forall>e. res = Error e \<longrightarrow> view r' = view r)"
proof (cases "rd_ctxErr api r")
  case None
  obtain res r1 where cas: "CAS api sc key '''' nxt r = (res, r1)" by fastforce
  show ?thesis
  proof (cases res)
    case (Ok n)
    with cas have cas': "CAS api sc key '''' nxt r = (Ok n, r1)" by simp
    note split = CAS_placed [OF cas']
    have str: "is_str (view r) (MangleKey sc key)" using CAS_Ok [OF cas'] by simp
    show ?thesis
    proof (cases "live st n")
      case True
      then have "n = chosen st (placed sc (view r) key) nxt \<and>
          view r1 = put_str (view r) (MangleKey sc key) (Some n)"
        using split none put_str_same [OF str] by (auto simp: chosen_def)
      then show ?thesis using None cas' True by simp
    next
      case False
      then have pl: "placed sc (view r) key = Some n" and v: "view r1 = view r"
        using split nxt by auto
      then have "placed sc (view r1) key = Some n" by simp
      from place_loop_retry [OF this nxt, of fuel] obtain res' r' where
        "place_loop api sc st key nxt (Suc fuel) n r1 = Some (res', r')"
        "\<forall>n p. res' = Ok (n, p) \<longrightarrow> n = nxt \<and> p = partition_of st n \<and>
          view r' = put_str (view r1) (MangleKey sc key) (Some n)"
        "\<forall>e. res' = Error e \<longrightarrow> view r' = view r1" by blast
      moreover from this(1) None cas' False
      have "place_loop api sc st key nxt (Suc (Suc fuel)) '''' r = Some (res', r')"
        by (subst place_loop.simps) simp
      ultimately show ?thesis using pl v False nxt by (auto simp: chosen_def simp del: place_loop.simps)
    qed
  qed (use None cas CAS_Error in auto)
qed simp

end

lemma cache_coherent_put:
  assumes "cache_coherent sc v st" "inj (MangleKey sc)" "live st (pc_node e)"
  shows "cache_coherent sc (put_str v (MangleKey sc key) (Some (pc_node e)))
    (st\<lparr>session2NodeCache := mput key e (session2NodeCache st)\<rparr>)"
  using assms by (auto simp: cache_coherent_def dest: injD)

lemma cache_coherent_put_uncached:
  assumes "cache_coherent sc v st" "inj (MangleKey sc)" "\<not> PlacementCache st"
  shows "cache_coherent sc (put_str v (MangleKey sc key) x) st"
  using assms by (auto simp: cache_coherent_def dest: injD)

text \<open>
  The placement of a session when the cache does not answer, with what the caller sees of the
  world afterwards.
\<close>

lemma routeToSession_miss:
  assumes "redis (e_redis env) view glob"
    and "nodes_of (w_rpc w) service \<noteq> []" and "\<forall>n\<in>set (nodes_of (w_rpc w) service). live (w_rpc w) n"
    and "\<not> live (w_rpc w) ''''"
    and "PlacementCache (w_rpc w) \<longrightarrow> map_of (session2NodeCache (w_rpc w)) (place [service, session]) = None"
  defines "key \<equiv> place [service, session]" and "nodes \<equiv> nodes_of (w_rpc w) service"
  shows "\<exists>res w'. routeToSession env (Suc (Suc fuel)) rnd service session w = Some (res, w') \<and>
    w_kafka w' = w_kafka w \<and>
    (\<forall>n p. res = Ok (n, p) \<longrightarrow>
       n = chosen (w_rpc w) (placed (e_sc env) (view (w_redis w)) key) (nodes ! (rnd mod length nodes)) \<and>
       p = partition_of (w_rpc w) n \<and> live (w_rpc w) n \<and>
       view (w_redis w') = put_str (view (w_redis w)) (MangleKey (e_sc env) key) (Some n) \<and>
       w_rpc w' = (if PlacementCache (w_rpc w) then (w_rpc w)\<lparr>session2NodeCache :=
          mput key \<lparr>pc_node = n, pc_used = True\<rparr> (session2NodeCache (w_rpc w))\<rparr> else w_rpc w)) \<and>
    (\<forall>e. res = Error e \<longrightarrow> view (w_redis w') = view (w_redis w) \<and> w_rpc w' = w_rpc w)"
proof -
  let ?nxt = "nodes ! (rnd mod length nodes)"
  have "?nxt \<in> set nodes" using assms(2) by (simp add: nodes_def)
  then have "live (w_rpc w) ?nxt" using assms(3) by (simp add: nodes_def)
  from redis.place_loop_spec [OF assms(1) this assms(4), of "e_sc env" key fuel "w_redis w"]
  obtain res r where "place_loop (e_redis env) (e_sc env) (w_rpc w) key ?nxt (Suc (Suc fuel)) '''' (w_redis w) =
      Some (res, r)"
    "\<forall>n p. res = Ok (n, p) \<longrightarrow> n = chosen (w_rpc w) (placed (e_sc env) (view (w_redis w)) key) ?nxt \<and>
       p = partition_of (w_rpc w) n \<and> live (w_rpc w) n \<and>
       view r = put_str (view (w_redis w)) (MangleKey (e_sc env) key) (Some n)"
    "\<forall>e. res = Error e \<longrightarrow> view r = view (w_redis w)"
    by blast
  then show ?thesis
    using assms(2,5)
    by (cases res) (auto simp: routeToSession_def key_def nodes_def Let_def simp del: place_loop.simps)
qed

lemma routeToSession_placed:
  assumes "redis (e_redis env) view glob" and "inj (MangleKey (e_sc env))"
    and "nodes_of (w_rpc w) service \<noteq> []" and "\<forall>n\<in>set (nodes_of (w_rpc w) service). live (w_rpc w) n"
    and "\<not> live (w_rpc w) ''''"
    and "cache_coherent (e_sc env) (view (w_redis w)) (w_rpc w)"
  shows "\<exists>res w'. routeToSession env (Suc (Suc fuel)) rnd service session w = Some (res, w') \<and>
    w_kafka w' = w_kafka w \<and>
    (\<forall>n p. res = Ok (n, p) \<longrightarrow>
       p = partition_of (w_rpc w) n \<and> live (w_rpc w) n \<and>
       placed (e_sc env) (view (w_redis w')) (place [service, session]) = Some n \<and>
       (\<forall>old. placed (e_sc env) (view (w_redis w)) (place [service, session]) = Some old \<and>
          live (w_rpc w) old \<longrightarrow> n = old) \<and>
       (\<forall>k. k \<noteq> MangleKey (e_sc env) (place [service, session]) \<longrightarrow>
          view (w_redis w') k = view (w_redis w) k) \<and>
       cache_coherent (e_sc env) (view (w_redis w')) (w_rpc w')) \<and>
    (\<forall>e. res = Error e \<longrightarrow> view (w_redis w') = view (w_redis w) \<and> w_rpc w' = w_rpc w)"
proof (cases "if PlacementCache (w_rpc w)
    then map_of (session2NodeCache (w_rpc w)) (place [service, session]) else None")
  case None
  then have miss: "PlacementCache (w_rpc w) \<longrightarrow>
      map_of (session2NodeCache (w_rpc w)) (place [service, session]) = None"
    by (auto split: if_splits)
  have coherent: "cache_coherent (e_sc env) (put_str (view (w_redis w))
      (MangleKey (e_sc env) (place [service, session])) (Some n))
      ((w_rpc w)\<lparr>session2NodeCache := mput (place [service, session]) \<lparr>pc_node = n, pc_used = True\<rparr>
        (session2NodeCache (w_rpc w))\<rparr>)" if "live (w_rpc w) n" for n
    using cache_coherent_put [OF assms(6,2), of "\<lparr>pc_node = n, pc_used = True\<rparr>"] that by simp
  show ?thesis
    using routeToSession_miss [OF assms(1,3,4,5) miss, of fuel rnd]
    by (elim ex_forward)
      (auto simp: chosen_def coherent assms(6) cache_coherent_put_uncached [OF assms(6,2)])
next
  case (Some entry)
  then have hit: "PlacementCache (w_rpc w)"
    "map_of (session2NodeCache (w_rpc w)) (place [service, session]) = Some entry"
    by (auto split: if_splits)
  then have "placed (e_sc env) (view (w_redis w)) (place [service, session]) = Some (pc_node entry)"
    "live (w_rpc w) (pc_node entry)"
    using assms(6) by (auto simp: cache_coherent_def)
  moreover have "cache_coherent (e_sc env) (view (w_redis w)) ((w_rpc w)\<lparr>session2NodeCache :=
      mput (place [service, session]) (entry\<lparr>pc_used := True\<rparr>) (session2NodeCache (w_rpc w))\<rparr>)"
    using assms(6) hit by (auto simp: cache_coherent_def)
  ultimately show ?thesis
    using hit assms(3) by (auto simp: routeToSession_def Let_def)
qed

lemma routeToSession_frame:
  "routeToSession env fuel rnd service session w = Some (res, w') \<Longrightarrow>
    w_kafka w' = w_kafka w \<and> (\<exists>c. w_rpc w' = (w_rpc w)\<lparr>session2NodeCache := c\<rparr>)"
  by (auto simp: routeToSession_def Let_def split: if_splits option.splits prod.splits result.splits
      intro: exI [of _ "session2NodeCache (w_rpc w)"])

text \<open>
  What the tables of a sidecar promise while it sends: nodes of services are live, no node has the
  empty name, and the placement cache is coherent with the store.
\<close>

definition wf_routes :: "StoreConfig \<Rightarrow> (string \<rightharpoonup> rview) \<Rightarrow> rpc_state \<Rightarrow> bool" where
  "wf_routes sc v st \<longleftrightarrow>
     (\<forall>s n. n \<in> set (nodes_of st s) \<longrightarrow> live st n) \<and> \<not> live st '''' \<and> cache_coherent sc v st"

text \<open>Where a message has to go, given the tables and the store before and after the decision.\<close>

fun send_dest ::
  "StoreConfig \<Rightarrow> rpc_state \<Rightarrow> (string \<rightharpoonup> rview) \<Rightarrow> (string \<rightharpoonup> rview) \<Rightarrow> Message \<Rightarrow> int \<Rightarrow> bool" where
  "send_dest sc st v v' (Req q) prt \<longleftrightarrow>
     (case target q of
        Service s \<Rightarrow> if nodes_of st s = [] then prt = 0
          else prt \<noteq> 0 \<and> (\<exists>n\<in>set (nodes_of st s). prt = partition_of st n)
      | Session t \<Rightarrow> if nodes_of st (s_Name t) = [] then prt = 0
          else prt \<noteq> 0 \<and> (\<exists>n. placed sc v' (place [s_Name t, s_ID t]) = Some n \<and> prt = partition_of st n)
      | Node n \<Rightarrow> prt \<noteq> 0 \<and> prt = partition_of st n)"
| "send_dest sc st v v' (Resp q) prt \<longleftrightarrow>
     (if live st (rs_Node q) then prt = partition_of st (rs_Node q)
      else \<exists>n. n \<noteq> '''' \<and> placed sc v (alt (rs_RequestID q)) = Some n \<and> prt = partition_of st n)"
| "send_dest sc st v v' (DoneMsg q) prt \<longleftrightarrow> prt = 0"

lemma routeToService_live:
  assumes "\<forall>n\<in>set (nodes_of st s). live st n"
  shows "let prt = snd (routeToService rnd s st) in
    if nodes_of st s = [] then prt = 0
    else prt \<noteq> 0 \<and> (\<exists>n\<in>set (nodes_of st s). prt = partition_of st n)"
proof (cases "nodes_of st s = []")
  case False
  then have "nodes_of st s ! (rnd mod length (nodes_of st s)) \<in> set (nodes_of st s)" by simp
  then show ?thesis using assms False by (auto simp: routeToService_def Let_def)
qed (simp add: routeToService_def)

lemma send_partition_spec:
  assumes "redis (e_redis env) view glob" and "inj (MangleKey (e_sc env))"
    and "wf_routes (e_sc env) (view (w_redis w)) (w_rpc w)"
  shows "\<exists>res w'. send_partition env (Suc (Suc fuel)) rnd msg w = Some (res, w') \<and>
    w_kafka w' = w_kafka w \<and> (\<exists>c. w_rpc w' = (w_rpc w)\<lparr>session2NodeCache := c\<rparr>) \<and>
    (\<forall>prt red. res = Ok (prt, red) \<longrightarrow>
       send_dest (e_sc env) (w_rpc w) (view (w_redis w)) (view (w_redis w')) msg prt \<and>
       red = (case msg of Resp q \<Rightarrow> if live (w_rpc w) (rs_Node q) then '''' else alt (rs_RequestID q)
              | _ \<Rightarrow> ''''))"
proof (cases msg)
  case (Req q)
  show ?thesis
  proof (cases "target q")
    case (Service s)
    then show ?thesis
      using assms(3) routeToService_live [of "w_rpc w" s rnd] Req
      by (auto simp: send_partition_def wf_routes_def Let_def intro: exI [of _ "session2NodeCache (w_rpc w)"])
  next
    case (Session t)
    show ?thesis
    proof (cases "nodes_of (w_rpc w) (s_Name t) = []")
      case True
      then show ?thesis
        using Session Req by (auto simp: send_partition_def routeToSession_def
            intro: exI [of _ "session2NodeCache (w_rpc w)"])
    next
      case False
      then obtain res w' where run:
        "routeToSession env (Suc (Suc fuel)) rnd (s_Name t) (s_ID t) w = Some (res, w')"
        "\<forall>n p. res = Ok (n, p) \<longrightarrow> p = partition_of (w_rpc w) n \<and> live (w_rpc w) n \<and>
          placed (e_sc env) (view (w_redis w')) (place [s_Name t, s_ID t]) = Some n"
        using routeToSession_placed [OF assms(1,2) False, of fuel rnd "s_ID t"] assms(3)
        by (auto simp: wf_routes_def)
      then show ?thesis
        using routeToSession_frame [OF run(1)] Session Req False
        by (cases res) (auto simp: send_partition_def)
    qed
  next
    case (Node n)
    then show ?thesis
      using Req by (auto simp: send_partition_def Let_def intro: exI [of _ "session2NodeCache (w_rpc w)"])
  qed
next
  case (Resp q)
  obtain res r where get: "store_Get (e_redis env) (e_sc env) (alt (rs_RequestID q)) (w_redis w) = (res, r)"
    by fastforce
  then show ?thesis
    using redis.store_Get_Ok [OF assms(1)] Resp
    by (cases res) (auto simp: send_partition_def Let_def intro: exI [of _ "session2NodeCache (w_rpc w)"])
next
  case (DoneMsg q)
  then show ?thesis
    by (auto simp: send_partition_def intro: exI [of _ "session2NodeCache (w_rpc w)"])
qed

text \<open>C16 placement of sessions.
  Routing a session of a service that has nodes needs at most two compare-and-swap rounds when
  those nodes are live: it does not spin.  When it answers with a node, that node is live, the
  store holds it for the session, the partition is the one of the routing table, and a live node
  found in the store is kept: only a session that has no node, or a dead one, moves (to the node
  drawn).  No other key of the store changes, and a placement cache that agreed with the store still
  does.  A failed attempt leaves store and tables as they were.\<close>
theorem routeToSession_spec:
  assumes "redis (e_redis env) view glob" and "inj (MangleKey (e_sc env))"
    and "nodes_of (w_rpc w) service \<noteq> []" and "\<forall>n\<in>set (nodes_of (w_rpc w) service). live (w_rpc w) n"
    and "\<not> live (w_rpc w) ''''"
    and "cache_coherent (e_sc env) (view (w_redis w)) (w_rpc w)"
  shows "\<exists>res w'. routeToSession env (Suc (Suc fuel)) rnd service session w = Some (res, w') \<and>
    w_kafka w' = w_kafka w \<and>
    (\<forall>n p. res = Ok (n, p) \<longrightarrow>
       p = partition_of (w_rpc w) n \<and> live (w_rpc w) n \<and>
       placed (e_sc env) (view (w_redis w')) (place [service, session]) = Some n \<and>
       (\<forall>old. placed (e_sc env) (view (w_redis w)) (place [service, session]) = Some old \<and>
          live (w_rpc w) old \<longrightarrow> n = old) \<and>
       (\<forall>k. k \<noteq> MangleKey (e_sc env) (place [service, session]) \<longrightarrow>
          view (w_redis w') k = view (w_redis w) k) \<and>
       cache_coherent (e_sc env) (view (w_redis w')) (w_rpc w')) \<and>
    (\<forall>e. res = Error e \<longrightarrow> view (w_redis w') = view (w_redis w) \<and> w_rpc w' = w_rpc w)"
  by (rule routeToSession_placed [OF assms])

text \<open>C17 sending.
  With the tables of a sidecar in order, \<^verbatim>\<open>Send\<close> terminates.  When it succeeds it handed exactly one
  record to the producer, the encoding of the message for the partition the message belongs to: a
  node that offers the service, the node the session is placed on, the named node, the caller of a
  response or, when that one is gone, the node recorded for the request, partition 0 for a
  completion and for services nobody offers.  When it fails, either the producer refused that
  record, or none was handed over; and a request to a node that is not live is refused.\<close>
theorem Send_spec:
  assumes "redis (e_redis env) view glob" and "inj (MangleKey (e_sc env))"
    and "wf_routes (e_sc env) (view (w_redis w)) (w_rpc w)"
  shows "\<exists>res w'. Send env (Suc (Suc fuel)) rnd msg w = Some (res, w') \<and>
    (res = Ok () \<longrightarrow> (\<exists>prt. send_dest (e_sc env) (w_rpc w) (view (w_redis w)) (view (w_redis w')) msg prt \<and>
       e_SendMessage env (encode (i_Node (self (w_rpc w))) (e_rng env) (appTopic (w_rpc w)) prt msg)
         (w_kafka w) = (None, w_kafka w'))) \<and>
    (\<forall>e. res = Error e \<longrightarrow> w_kafka w' = w_kafka w \<or>
       (\<exists>prt. send_dest (e_sc env) (w_rpc w) (view (w_redis w)) (view (w_redis w')) msg prt \<and>
         e_SendMessage env (encode (i_Node (self (w_rpc w))) (e_rng env) (appTopic (w_rpc w)) prt msg)
           (w_kafka w) = (Some e, w_kafka w'))) \<and>
    (rd_ctxErr (e_redis env) (w_redis w) = None \<longrightarrow>
       (\<forall>q n. msg = Req q \<and> target q = Node n \<and> \<not> live (w_rpc w) n \<longrightarrow>
          res = Error ErrUnavailable \<and> w' = w))"
proof -
  obtain res w1 c where run: "send_partition env (Suc (Suc fuel)) rnd msg w = Some (res, w1)"
    "w_kafka w1 = w_kafka w" "w_rpc w1 = (w_rpc w)\<lparr>session2NodeCache := c\<rparr>"
    "\<And>prt red. res = Ok (prt, red) \<Longrightarrow>
       send_dest (e_sc env) (w_rpc w) (view (w_redis w)) (view (w_redis w1)) msg prt"
    "\<And>prt red. res = Ok (prt, red) \<Longrightarrow> red \<noteq> [] \<Longrightarrow> \<exists>q. msg = Resp q"
    using send_partition_spec [OF assms, of fuel rnd msg]
    by (elim exE conjE) (auto split: Message.splits)
  have gone: "res = Error ErrUnavailable \<and> w1 = w"
    if "msg = Req q" "target q = Node n" "\<not> live (w_rpc w) n" for q n
    using run(1) that by (simp add: send_partition_def)
  show ?thesis
  proof (cases "rd_ctxErr (e_redis env) (w_redis w)")
    case None
    show ?thesis
    proof (cases res)
      case (Ok pr)
      obtain prt red where pr: "pr = (prt, red)" by fastforce
      obtain e k where "e_SendMessage env (encode (i_Node (self (w_rpc w))) (e_rng env)
          (appTopic (w_rpc w)) prt msg) (w_kafka w) = (e, k)" by fastforce
      moreover have "red \<noteq> [] \<Longrightarrow> send_dest (e_sc env) (w_rpc w) (view (w_redis w)) v' msg prt" for v'
        using run(4,5) [of prt red] Ok pr by auto
      ultimately show ?thesis
        using None run Ok pr gone
        by (auto simp del: send_dest.simps simp: Send_def produce_def error_result_def Let_def
            split: prod.splits result.splits option.splits)
    qed (use None run gone in \<open>auto simp: Send_def\<close>)
  qed (simp add: Send_def)
qed

section \<open>Keys and queries\<close>

lemma place_two: "place [name, id'] = ''rpc'' @ CHR ''_'' # name @ CHR ''_'' # id'"
  by (simp add: place_def)

lemma instance_of_place:
  assumes "CHR ''_'' \<notin> set name" "CHR ''_'' \<notin> set id'"
  shows "instance_of (place [name, id']) = Some (name, id')"
proof -
  have "split_on (CHR ''_'') (place [name, id']) = [''rpc'', name, id']"
    unfolding place_two using assms
    by (subst split_on_append) (simp_all add: split_on_append split_on_absent)
  then show ?thesis by (simp add: instance_of_def)
qed

lemma instance_of_free:
  assumes "instance_of key = Some (name, id')"
  shows "CHR ''_'' \<notin> set name \<and> CHR ''_'' \<notin> set id'"
proof -
  have "name \<in> set (split_on (CHR ''_'') key)" "id' \<in> set (split_on (CHR ''_'') key)"
    using assms by (auto simp: instance_of_def Let_def split: if_splits)
  then show ?thesis using split_on_free by blast
qed

text \<open>placement keys.
  The key under which a session is placed gives back its service and its id exactly when neither
  contains the separator (so \<^verbatim>\<open>getAllSessions\<close> reports such an id cut at its first underscore), and
  keys of sessions of services without the separator in their names are distinct for distinct
  sessions.\<close>
theorem place_instance:
  "(instance_of (place [name, id']) = Some (name, id') \<longleftrightarrow>
      CHR ''_'' \<notin> set name \<and> CHR ''_'' \<notin> set id') \<and>
   (CHR ''_'' \<notin> set name \<and> CHR ''_'' \<notin> set name2 \<and> place [name, id'] = place [name2, id2] \<longrightarrow>
      name = name2 \<and> id' = id2) \<and>
   instance_of (place [''svc'', ''a_b'']) = Some (''svc'', ''a'') \<and>
   place [''a_b'', ''c''] = place [''a'', ''b_c'']"
proof -
  have "hd (split_on (CHR ''_'') (n @ CHR ''_'' # i)) = n" if "CHR ''_'' \<notin> set n" for n i
    using that by (simp add: split_on_append)
  then have "name = name2 \<and> id' = id2"
    if "CHR ''_'' \<notin> set name" "CHR ''_'' \<notin> set name2" "place [name, id'] = place [name2, id2]"
    using that unfolding place_two by (metis append_same_eq list.inject same_append_eq)
  moreover have "instance_of (place [''svc'', ''a_b'']) = Some (''svc'', ''a'')" by code_simp
  moreover have "place [''a_b'', ''c''] = place [''a'', ''b_c'']" by code_simp
  ultimately show ?thesis using instance_of_place instance_of_free by blast
qed

theorem place_instance_witness:
  "instance_of (place [''svc'', ''id7'']) = Some (''svc'', ''id7'') \<and>
   instance_of (place [''svc'', ''a_b'']) = Some (''svc'', ''a'')"
  using place_instance [of "''svc''" "''id7''" "''svc''" "''id7''"] by simp

text \<open>The inner and the outer loop of \<^verbatim>\<open>getTopology\<close>.\<close>

lemma topology_nodes:
  "set (mget [] (fold (\<lambda>node m. mput node (mget [] m node @ [service]) m) nodes m) n) =
     set (mget [] m n) \<union> (if n \<in> set nodes then {service} else {})"
  by (induction nodes arbitrary: m) auto

lemma topology_services:
  "set (mget [] (fold (\<lambda>(service, nodes) m. fold (\<lambda>node m. mput node (mget [] m node @ [service]) m) nodes m)
      xs m) n) = set (mget [] m n) \<union> {s. \<exists>nodes. (s, nodes) \<in> set xs \<and> n \<in> set nodes}"
  by (induction xs arbitrary: m) (auto simp: topology_nodes split: if_splits)

text \<open>Topology.
  Whatever order Go ranges over the table in, \<^verbatim>\<open>getTopology\<close> inverts it: it lists a service under a
  node exactly when the routing table lists the node under the service.\<close>
theorem getTopology_spec:
  assumes "range_order rng" and "wf_map (service2nodes st)"
  shows "service \<in> set (mget [] (fst (getTopology rng st)) node) \<longleftrightarrow> node \<in> set (nodes_of st service)"
proof -
  have "node \<in> set (nodes_of st service) \<longleftrightarrow>
      (\<exists>nodes. (service, nodes) \<in> set (service2nodes st) \<and> node \<in> set nodes)"
    using assms(2) by (auto simp: wf_map_def mget_def split: option.splits dest: map_of_SomeD)
  then show ?thesis
    by (simp add: getTopology_def topology_services range_order_set [OF assms(1)] mget_def [of _ "[]"])
qed

section \<open>Sample executions\<close>

definition sample_st :: rpc_state where
  "sample_st = \<lparr>appTopic = ''app'', self = \<lparr>i_Node = ''n1'', i_Port = 0, i_Services = [], i_Partition = 1\<rparr>,
     service2nodes = [(''Fork'', [''n1'', ''n2''])], node2partition = [(''n1'', 1), (''n2'', 2)],
     node2port = [], session2NodeCache = [], tick = 0, head = 0, recovery = None, newest = [],
     offset0 = 0, max0 = 0, PlacementCache = True\<rparr>"

definition log_send :: "ProducerMessage \<Rightarrow> ProducerMessage list \<Rightarrow> err option \<times> ProducerMessage list" where
  "log_send m k = (None, k @ [m])"

definition sample_env :: "(mem, reply, ProducerMessage list) env" where
  "sample_env = \<lparr>e_redis = mem_redis, e_sc = sample_sc, e_SendMessage = log_send, e_rng = id\<rparr>"

text \<open>A session that the store has on \<^verbatim>\<open>n2\<close>.\<close>

definition sample_w :: "(mem, ProducerMessage list) world" where
  "sample_w = \<lparr>w_rpc = sample_st, w_redis = [(''kar_app_rpc_Fork_7'', MStr ''n2'')], w_kafka = []\<rparr>"

lemma sample_wf: "wf_routes (e_sc sample_env) (mem_view (w_redis sample_w)) (w_rpc sample_w)"
  by (simp add: wf_routes_def cache_coherent_def sample_w_def sample_st_def mget_def)

lemma sample_inj: "inj (MangleKey (e_sc sample_env))"
  by (simp add: sample_env_def sample_sc_def inj_def)

lemma sample_redis: "redis (e_redis sample_env) mem_view star_match"
  by (simp add: sample_env_def mem.redis_axioms)

theorem routeToSession_spec_witness:
  "\<exists>w'. routeToSession sample_env (Suc (Suc 0)) 0 ''Fork'' ''7'' sample_w = Some (Ok (''n2'', 2), w') \<and>
     cache_coherent (e_sc sample_env) (mem_view (w_redis w')) (w_rpc w')"
proof -
  have run: "map_option fst (routeToSession sample_env (Suc (Suc 0)) 0 ''Fork'' ''7'' sample_w) =
      Some (Ok (''n2'', 2))"
    by code_simp
  have "nodes_of (w_rpc sample_w) ''Fork'' \<noteq> []"
    "\<forall>n\<in>set (nodes_of (w_rpc sample_w) ''Fork''). live (w_rpc sample_w) n" "\<not> live (w_rpc sample_w) ''''"
    "cache_coherent (e_sc sample_env) (mem_view (w_redis sample_w)) (w_rpc sample_w)"
    using sample_wf by (simp_all add: wf_routes_def sample_w_def sample_st_def mget_def)
  from routeToSession_spec [OF sample_redis sample_inj this, of 0 0 "''7''"] obtain res w' where
    r: "routeToSession sample_env (Suc (Suc 0)) 0 ''Fork'' ''7'' sample_w = Some (res, w')"
    and c: "\<And>n p. res = Ok (n, p) \<Longrightarrow> cache_coherent (e_sc sample_env) (mem_view (w_redis w')) (w_rpc w')"
    by blast
  from run have "res = Ok (''n2'', 2)" by (simp only: r option.map fst_conv option.inject)
  then show ?thesis using r c by blast
qed

definition sample_tell :: Message where
  "sample_tell = Req (TellReq \<lparr>tr_RequestID = [], tr_Value = None, tr_Deadline = 0,
     tr_Target = Session \<lparr>s_Name = ''Fork'', s_ID = ''7'', s_Flow = ''f'', s_DeferredLockID = []\<rparr>,
     tr_Method = ''m'', tr_Sequence = 0, tr_ChildID = [], tr_ParentID = [], tr_IsEdited = False\<rparr>)"

theorem Send_spec_witness:
  "\<exists>w'. Send sample_env (Suc (Suc 0)) 0 sample_tell sample_w = Some (Ok (), w') \<and>
    (\<exists>prt. e_SendMessage sample_env (encode (i_Node (self (w_rpc sample_w))) (e_rng sample_env)
       (appTopic (w_rpc sample_w)) prt sample_tell) (w_kafka sample_w) = (None, w_kafka w'))"
proof -
  have run: "map_option fst (Send sample_env (Suc (Suc 0)) 0 sample_tell sample_w) = Some (Ok ())"
    by code_simp
  from Send_spec [OF sample_redis sample_inj sample_wf, of 0 0 sample_tell] obtain res w' where
    r: "Send sample_env (Suc (Suc 0)) 0 sample_tell sample_w = Some (res, w')"
    and c: "res = Ok () \<Longrightarrow> \<exists>prt. e_SendMessage sample_env (encode (i_Node (self (w_rpc sample_w)))
       (e_rng sample_env) (appTopic (w_rpc sample_w)) prt sample_tell) (w_kafka sample_w) = (None, w_kafka w')"
    by blast
  from run have "res = Ok ()" by (simp only: r option.map fst_conv option.inject)
  then show ?thesis using r c by blast
qed

theorem getTopology_spec_witness:
  "range_order (\<lambda>xs :: (string, string list) gomap. xs) \<and> wf_map (service2nodes sample_st) \<and>
   (''Fork'' \<in> set (mget [] (fst (getTopology (\<lambda>xs. xs) sample_st)) ''n2'') \<longleftrightarrow>
     ''n2'' \<in> set (nodes_of sample_st ''Fork''))"
proof -
  have "wf_map (service2nodes sample_st)" by code_simp
  then show ?thesis using getTopology_spec [OF range_order_id] range_order_id by blast
qed

end
