(* ===== verification/Rpc_Strategy.thy ===== *)
theory Rpc_Strategy
  imports Rpc_Routing
begin

text \<open>
  \<^verbatim>\<open>src/core/pkg/rpc/strategy.go\<close>: the leader of the consumer group assigns partitions to the
  members (\<^verbatim>\<open>Plan\<close>), and every member rebuilds its routing tables from the assignment
  (\<^verbatim>\<open>updateRoutes\<close>).

  The Kafka client is a parameter: the offsets of a partition, the creation of partitions and the
  description of the group.  The JSON decoding of the metadata of a member is a parameter too.  A plan
  is the list of the calls of \<^verbatim>\<open>plan.Add\<close>, a member with a partition each.  The three loops over maps
  each have the order Go picks as a parameter.
\<close>

section \<open>Kafka as the strategy sees it\<close>

datatype offset_time = OffsetOldest | OffsetNewest

record 'k kafka_admin =
  GetOffset :: "int \<Rightarrow> offset_time \<Rightarrow> 'k \<Rightarrow> err + int"
  CreatePartitions :: "int \<Rightarrow> 'k \<Rightarrow> err option \<times> 'k"

text \<open>The orders in which Go ranges over \<^verbatim>\<open>members\<close>, \<^verbatim>\<open>node2partition\<close> and \<^verbatim>\<open>node2member\<close>.\<close>

record orders =
  o_members :: "(string, string) gomap \<Rightarrow> (string, string) gomap"
  o_partitions :: "(string, int) gomap \<Rightarrow> (string, int) gomap"
  o_nodes :: "(string, string) gomap \<Rightarrow> (string, string) gomap"

section \<open>Plan\<close>

text \<open>The body of the loop over \<^verbatim>\<open>members\<close>: service table, member table, live nodes, partitions.\<close>

definition plan_member ::
  "info \<Rightarrow> string \<Rightarrow> (string, string) gomap \<times> string list \<times> rpc_state \<Rightarrow>
    (string, string) gomap \<times> string list \<times> rpc_state" where
  "plan_member v member s =
     (case s of (node2member, liveNodes, st) \<Rightarrow>
        let node2member = mput (i_Node v) member node2member;
            s2n = fold (\<lambda>s m. mput s (mget [] m s @ [i_Node v]) m) (i_Services v) (service2nodes st);
            liveNodes = List.insert (i_Node v) liveNodes;
            n2p = (if i_Partition v > 0 then mput (i_Node v) (i_Partition v) (node2partition st)
                   else node2partition st);
            off = (if mget 0 n2p (i_Node v) = 0 then 0 else offset0 st)
        in (node2member, liveNodes, st\<lparr>service2nodes := s2n, node2partition := n2p, offset0 := off\<rparr>))"

fun plan_members ::
  "(string \<Rightarrow> err + info) \<Rightarrow> (string \<times> string) list \<Rightarrow>
    (string, string) gomap \<times> string list \<times> rpc_state \<Rightarrow>
    err option \<times> (string, string) gomap \<times> string list \<times> rpc_state" where
  "plan_members unmarshal [] s = (None, s)"
| "plan_members unmarshal ((member, userData) # ms) s =
     (case unmarshal userData of
        Inl e \<Rightarrow> (Some e, s)
      | Inr v \<Rightarrow> plan_members unmarshal ms (plan_member v member s))"

text \<open>The loop over \<^verbatim>\<open>node2partition\<close>: forget dead nodes, mark the partitions of live ones.\<close>

definition plan_attach :: "string list \<Rightarrow> (string \<times> int) list \<Rightarrow> rpc_state \<Rightarrow> rpc_state" where
  "plan_attach liveNodes =
     fold (\<lambda>(n, p) st.
       if n \<notin> set liveNodes then st\<lparr>node2partition := mdel n (node2partition st)\<rparr>
       else if p > 0 then st\<lparr>recovery := map_option (mput p True) (recovery st)\<rparr>
       else st)"

abbreviation attached :: "rpc_state \<Rightarrow> int \<Rightarrow> bool" where
  "attached st p \<equiv> mget False (case recovery st of None \<Rightarrow> [] | Some m \<Rightarrow> m) p"

text \<open>The loop over the partitions of the topic.\<close>

fun plan_offsets ::
  "'k kafka_admin \<Rightarrow> 'k \<Rightarrow> int list \<Rightarrow> bool \<Rightarrow> rpc_state \<Rightarrow> (err + bool) \<times> rpc_state" where
  "plan_offsets ka k [] clean st = (Inr clean, st)"
| "plan_offsets ka k (p # ps) clean st =
     (case GetOffset ka p OffsetOldest k of
        Inl e \<Rightarrow> (Inl e, st)
      | Inr mn \<Rightarrow>
          (case GetOffset ka p OffsetNewest k of
             Inl e \<Rightarrow> (Inl e, st)
           | Inr mx \<Rightarrow>
               (if mn < mx then
                  let st1 = st\<lparr>newest := mput p mx (newest st)\<rparr>
                  in if p \<noteq> 0 \<and> \<not> attached st1 p then plan_offsets ka k ps False st1
                     else if p = 0 \<and> offset0 st1 < mx then plan_offsets ka k ps False (st1\<lparr>max0 := mx\<rparr>)
                     else plan_offsets ka k ps clean st1
                else plan_offsets ka k ps clean st)))"

text \<open>
  The inner loop that looks for a free partition for a node: \<^verbatim>\<open>next\<close> is the suffix
  \<^verbatim>\<open>partitions[next:]\<close> of those not tried yet.
\<close>

fun free_loop ::
  "(int \<Rightarrow> bool) \<Rightarrow> string \<Rightarrow> int list \<Rightarrow> (string, int) gomap \<Rightarrow> int list \<times> (string, int) gomap" where
  "free_loop free node [] n2p = ([], n2p)"
| "free_loop free node (p # ps) n2p =
     (if mget 0 n2p node \<noteq> 0 then (p # ps, n2p)
      else free_loop free node ps (if free p then mput node p n2p else n2p))"

definition is_free :: "rpc_state \<Rightarrow> int \<Rightarrow> bool" where
  "is_free st p \<longleftrightarrow> \<not> attached st p \<and> mget 0 (newest st) p = 0"

text \<open>
  The loop over \<^verbatim>\<open>node2member\<close>.  \<^const>\<open>Inl\<close> is the number of nodes that are still without a partition
  when the supply runs out.
\<close>

fun plan_assign ::
  "(int \<Rightarrow> bool) \<Rightarrow> string list \<Rightarrow> string list \<Rightarrow> int list \<Rightarrow> (string, int) gomap \<Rightarrow>
    (nat + unit) \<times> (string, int) gomap" where
  "plan_assign free allNodes [] nxt n2p = (Inr (), n2p)"
| "plan_assign free allNodes (node # nodes) nxt n2p =
     (case free_loop free node nxt n2p of
        (nxt', n2p') \<Rightarrow>
          if mget 0 n2p' node = 0
          then (Inl (length (filter (\<lambda>n. mget 0 n2p' n = 0) allNodes)), n2p')
          else plan_assign free allNodes nodes nxt' n2p')"

definition Plan ::
  "'k kafka_admin \<Rightarrow> (string \<Rightarrow> err + info) \<Rightarrow> orders \<Rightarrow> (string, string) gomap \<Rightarrow> int list \<Rightarrow>
    rpc_state \<Rightarrow> 'k \<Rightarrow> (err + (string \<times> int) list) \<times> rpc_state \<times> 'k" where
  "Plan ka unmarshal ord members partitions st k =
     (case plan_members unmarshal (o_members ord members)
         ([], [], st\<lparr>recovery := Some [], service2nodes := [], session2NodeCache := [], newest := []\<rparr>) of
        (Some e, _, _, st1) \<Rightarrow> (Inl e, st1, k)
      | (None, node2member, liveNodes, st1) \<Rightarrow>
          let st2 = plan_attach liveNodes (o_partitions ord (node2partition st1)) st1
          in case plan_offsets ka k partitions True st2 of
               (Inl e, st3) \<Rightarrow> (Inl e, st3, k)
             | (Inr clean, st3) \<Rightarrow>
                 (case plan_assign (is_free st3) (keys node2member) (keys (o_nodes ord node2member))
                     (drop 1 partitions) (node2partition st3) of
                    (Inl missing, n2p) \<Rightarrow>
                      (let st4 = st3\<lparr>node2partition := n2p\<rparr>
                       in case CreatePartitions ka (int (length partitions) + int missing) k of
                            (Some e, k') \<Rightarrow> (Inl e, st4, k')
                          | (None, k') \<Rightarrow> (Inl ErrTooFewPartitions, st4, k'))
                  | (Inr _, n2p) \<Rightarrow>
                      (let st4 = st3\<lparr>node2partition := n2p\<rparr>
                       in if \<not> clean then
                            (Inr (map (\<lambda>p. (mget '''' node2member (i_Node (self st4)), p))
                               (filter (\<lambda>p. p = 0 \<or> mget 0 (newest st4) p > 0) partitions)), st4, k)
                          else
                            (Inr (map (\<lambda>(node, member). (member, mget 0 (node2partition st4) node))
                               (o_nodes ord node2member)),
                             st4\<lparr>recovery := None\<rparr>, k))))"

section \<open>updateRoutes\<close>

text \<open>
  A member of the group as \<^verbatim>\<open>DescribeConsumerGroups\<close> reports it: its metadata (\<^const>\<open>None\<close> for nil) and
  the partitions of the topic it was assigned.
\<close>

record group_member =
  gm_meta :: "err + string option"
  gm_assignment :: "err + int list"

fun update_members ::
  "(string \<Rightarrow> err + info) \<Rightarrow> group_member list \<Rightarrow> rpc_state \<Rightarrow> unit result \<times> rpc_state" where
  "update_members unmarshal [] st = (Ok (), st)"
| "update_members unmarshal (m # ms) st =
     (case gm_meta m of
        Inl e \<Rightarrow> (Error e, st)
      | Inr None \<Rightarrow> update_members unmarshal ms st
      | Inr (Some userData) \<Rightarrow>
          (case unmarshal userData of
             Inl e \<Rightarrow> (Error e, st)
           | Inr d \<Rightarrow>
               let st1 = st\<lparr>service2nodes :=
                     fold (\<lambda>s m. mput s (mget [] m s @ [i_Node d]) m) (i_Services d) (service2nodes st)\<rparr>
               in case gm_assignment m of
                    Inl e \<Rightarrow> (Error e, st1)
                  | Inr [] \<Rightarrow> (Panicked, st1)
                  | Inr (p # _) \<Rightarrow>
                      update_members unmarshal ms
                        (st1\<lparr>node2partition := mput (i_Node d) p (node2partition st1),
                           node2port := mput (i_Node d) (i_Port d) (node2port st1)\<rparr>)))"

definition updateRoutes ::
  "(string \<Rightarrow> err + info) \<Rightarrow> (err + group_member list) \<Rightarrow> rpc_state \<Rightarrow> unit result \<times> rpc_state" where
  "updateRoutes unmarshal groups st =
     (case groups of
        Inl e \<Rightarrow> (Error e, st)
      | Inr members \<Rightarrow>
          update_members unmarshal members
            (st\<lparr>service2nodes := [], node2partition := [], node2port := [], session2NodeCache := []\<rparr>))"

section \<open>The loops\<close>

lemma free_loop_cases:
  assumes "free_loop free node nxt n2p = (nxt', n2p')" and "0 \<notin> set nxt"
  obtains (same) used where "nxt = used @ nxt'" "n2p' = n2p"
  | (new) used p where "nxt = used @ nxt'" "p \<in> set used" "free p" "mget 0 n2p node = 0"
      "n2p' = mput node p n2p"
  using assms
proof (induction nxt arbitrary: n2p thesis)
  case (Cons q qs)
  show ?case
  proof (cases "mget 0 n2p node = 0 \<and> \<not> free q")
    case True
    with Cons.prems(3) have step: "free_loop free node qs n2p = (nxt', n2p')" by simp
    show ?thesis
    proof (rule Cons.IH [OF _ _ step])
      show "thesis" if "qs = used @ nxt'" "n2p' = n2p" for used
        using Cons.prems(1) [of "q # used"] that by simp
      show "thesis" if "qs = used @ nxt'" "p \<in> set used" "free p" "mget 0 n2p node = 0"
        "n2p' = mput node p n2p" for used p
        using Cons.prems(2) [of "q # used" p] that by simp
    qed (use Cons.prems(4) in simp)
  next
    case False
    show ?thesis
    proof (cases "mget 0 n2p node = 0")
      case True
      with False have "free q" by simp
      moreover have "free_loop free node qs (mput node q n2p) = (qs, mput node q n2p)"
        using Cons.prems(4) by (cases qs) simp_all
      ultimately show ?thesis
        using True Cons.prems(2) [of "[q]" q] Cons.prems(3) by simp
    next
      case nz: False
      then show ?thesis using Cons.prems(1) [of "[]"] Cons.prems(3) by simp
    qed
  qed
qed simp

text \<open>No two nodes share a partition; the partitions still to hand out belong to nobody.\<close>

definition exclusive :: "(string, int) gomap \<Rightarrow> bool" where
  "exclusive n2p \<longleftrightarrow> (\<forall>n m. mget 0 n2p n \<noteq> 0 \<and> mget 0 n2p n = mget 0 n2p m \<longrightarrow> n = m)"

definition unused :: "(int \<Rightarrow> bool) \<Rightarrow> int list \<Rightarrow> (string, int) gomap \<Rightarrow> bool" where
  "unused free ps n2p \<longleftrightarrow>
     distinct ps \<and> 0 \<notin> set ps \<and> (\<forall>p\<in>set ps. free p \<longrightarrow> (\<forall>n. mget 0 n2p n \<noteq> p))"

lemma unused_put:
  "unused free (used @ rest) n2p \<Longrightarrow> p \<in> set used \<Longrightarrow> free p \<Longrightarrow> unused free rest (mput node p n2p)"
  by (auto simp: unused_def disjoint_iff)

lemma exclusive_put: "exclusive n2p \<Longrightarrow> \<forall>n. mget 0 n2p n \<noteq> p \<Longrightarrow> exclusive (mput node p n2p)"
  by (auto simp: exclusive_def split: if_splits)

lemma unused_free_loop:
  assumes "free_loop free node nxt n2p = (nxt', n2p')" "unused free nxt n2p" "exclusive n2p"
  shows "unused free nxt' n2p' \<and> exclusive n2p' \<and> set nxt' \<subseteq> set nxt \<and>
    (\<forall>m. mget 0 n2p m \<noteq> 0 \<longrightarrow> mget 0 n2p' m = mget 0 n2p m) \<and>
    (\<forall>m. mget 0 n2p m = 0 \<and> mget 0 n2p' m \<noteq> 0 \<longrightarrow>
      m = node \<and> mget 0 n2p' m \<in> set nxt \<and> free (mget 0 n2p' m))"
proof -
  have "0 \<notin> set nxt" using assms(2) by (simp add: unused_def)
  from assms(1) this show ?thesis
  proof (cases rule: free_loop_cases)
    case (same used)
    then show ?thesis using assms(2,3) by (auto simp: unused_def)
  next
    case (new used p)
    then have "\<forall>n. mget 0 n2p n \<noteq> p" using assms(2) by (auto simp: unused_def)
    then show ?thesis
      using new unused_put [of free used nxt' n2p p node] exclusive_put [OF assms(3)] assms(2) by simp
  qed
qed

lemma plan_assign_ok:
  assumes "plan_assign free allNodes nodes nxt n2p = (Inr (), n2p')" "unused free nxt n2p" "exclusive n2p"
  shows "exclusive n2p' \<and> (\<forall>n\<in>set nodes. mget 0 n2p' n \<noteq> 0) \<and>
    (\<forall>n. mget 0 n2p n \<noteq> 0 \<longrightarrow> mget 0 n2p' n = mget 0 n2p n) \<and>
    (\<forall>n. mget 0 n2p n = 0 \<and> mget 0 n2p' n \<noteq> 0 \<longrightarrow>
       n \<in> set nodes \<and> mget 0 n2p' n \<in> set nxt \<and> free (mget 0 n2p' n))"
  using assms
proof (induction nodes arbitrary: nxt n2p)
  case (Cons node nodes)
  obtain nxt1 n2p1 where fl: "free_loop free node nxt n2p = (nxt1, n2p1)" by fastforce
  note step = unused_free_loop [OF fl Cons.prems(2,3)]
  from Cons.prems(1) fl have nz: "mget 0 n2p1 node \<noteq> 0"
    and rec: "plan_assign free allNodes nodes nxt1 n2p1 = (Inr (), n2p')"
    by (auto split: if_splits)
  have "unused free nxt1 n2p1" "exclusive n2p1" using step by simp_all
  note IH = Cons.IH [OF rec this]
  have "mget 0 n2p' node \<noteq> 0" using IH nz by simp
  moreover have "mget 0 n2p' n = mget 0 n2p n" if "mget 0 n2p n \<noteq> 0" for n
    using IH step that by simp
  moreover have "n \<in> set (node # nodes) \<and> mget 0 n2p' n \<in> set nxt \<and> free (mget 0 n2p' n)"
    if "mget 0 n2p n = 0" "mget 0 n2p' n \<noteq> 0" for n
  proof (cases "mget 0 n2p1 n = 0")
    case True
    then show ?thesis using IH step that by auto
  next
    case False
    then show ?thesis using IH step that by simp
  qed
  ultimately show ?case using IH by simp
qed simp

text \<open>The nodes that take part in the group, by the metadata of its members.\<close>

definition member_nodes :: "(string \<Rightarrow> err + info) \<Rightarrow> (string, string) gomap \<Rightarrow> string set" where
  "member_nodes unmarshal members = {i_Node v | m d v. (m, d) \<in> set members \<and> unmarshal d = Inr v}"

text \<open>What is known about partitions is consistent with an assignment \<open>f\<close>.\<close>

definition knows :: "(string \<Rightarrow> int) \<Rightarrow> (string, int) gomap \<Rightarrow> bool" where
  "knows f n2p \<longleftrightarrow> (\<forall>n. mget 0 n2p n \<noteq> 0 \<longrightarrow> mget 0 n2p n = f n)"

definition infos_know :: "(string \<Rightarrow> int) \<Rightarrow> (string \<Rightarrow> err + info) \<Rightarrow> (string, string) gomap \<Rightarrow> bool" where
  "infos_know f unmarshal members \<longleftrightarrow>
     (\<forall>m d v. (m, d) \<in> set members \<and> unmarshal d = Inr v \<and> i_Partition v > 0 \<longrightarrow> i_Partition v = f (i_Node v))"

lemma plan_members_ok:
  assumes "plan_members unmarshal ms (n2m, lv, st) = (None, n2m', lv', st')"
    and "knows f (node2partition st)" and "infos_know f unmarshal ms" and "set (keys n2m) = set lv"
    and "wf_map (node2partition st)" and "wf_map n2m"
  shows "set lv' = set lv \<union> member_nodes unmarshal ms \<and> set (keys n2m') = set lv' \<and> wf_map n2m' \<and>
    knows f (node2partition st') \<and> wf_map (node2partition st') \<and>
    (\<forall>n. partition_of st n \<noteq> 0 \<longrightarrow> partition_of st' n = partition_of st n) \<and>
    recovery st' = recovery st \<and> newest st' = newest st \<and> self st' = self st"
  using assms
proof (induction unmarshal ms "(n2m, lv, st)" arbitrary: n2m lv st rule: plan_members.induct)
  case (2 unmarshal member d ms)
  then obtain v where v: "unmarshal d = Inr v" by (cases "unmarshal d") auto
  obtain n2m1 lv1 st1 where pm: "plan_member v member (n2m, lv, st) = (n2m1, lv1, st1)"
    using prod_cases3 by blast
  have pos: "i_Partition v > 0 \<Longrightarrow> i_Partition v = f (i_Node v)"
    using "2.prems"(3) v unfolding infos_know_def by auto
  have tables: "n2m1 = mput (i_Node v) member n2m" "lv1 = List.insert (i_Node v) lv"
    using pm by (simp_all add: plan_member_def Let_def)
  then have dom: "set (keys n2m1) = set lv1" using "2.prems"(4) by simp
  have facts: "knows f (node2partition st1)" "wf_map (node2partition st1)"
    "wf_map n2m1" "set lv1 = insert (i_Node v) (set lv)"
    "\<forall>n. partition_of st n \<noteq> 0 \<longrightarrow> partition_of st1 n = partition_of st n"
    "recovery st1 = recovery st" "newest st1 = newest st" "self st1 = self st"
    using pm pos "2.prems"(2,5,6)
    by (auto simp: plan_member_def Let_def knows_def wf_map_mput split: if_splits)
  have "infos_know f unmarshal ms" using "2.prems"(3) by (auto simp: infos_know_def)
  note IH = "2.hyps" [OF v, of n2m1 lv1 st1]
  have "member_nodes unmarshal ((member, d) # ms) = insert (i_Node v) (member_nodes unmarshal ms)"
    using v by (auto simp: member_nodes_def)
  then show ?case
    using IH pm v "2.prems"(1) facts dom \<open>infos_know f unmarshal ms\<close> by auto
qed (simp add: member_nodes_def)

lemma plan_attach_n2p:
  "partition_of (plan_attach lv xs st) n =
     (if n \<in> set lv \<or> n \<notin> fst ` set xs then partition_of st n else 0)"
proof (induction xs arbitrary: st)
  case (Cons x xs)
  obtain m p where x: "x = (m, p)" by fastforce
  show ?case
    using Cons.IH [of st] Cons.IH [of "st\<lparr>node2partition := mdel m (node2partition st)\<rparr>"]
      Cons.IH [of "st\<lparr>recovery := map_option (mput p True) (recovery st)\<rparr>"]
    by (auto simp: plan_attach_def x mget_def)
qed (simp add: plan_attach_def)

lemma plan_attach_recovery:
  assumes "recovery st = Some r"
  shows "\<exists>r'. recovery (plan_attach lv xs st) = Some r' \<and>
    (\<forall>p. mget False r' p \<longleftrightarrow> mget False r p \<or> p > 0 \<and> (\<exists>n\<in>set lv. (n, p) \<in> set xs))"
  using assms
proof (induction xs arbitrary: st r)
  case (Cons x xs)
  obtain n p where x: "x = (n, p)" by fastforce
  show ?case
    using Cons.IH [of st r] Cons.IH [of "st\<lparr>node2partition := mdel n (node2partition st)\<rparr>" r]
      Cons.IH [of "st\<lparr>recovery := Some (mput p True r)\<rparr>" "mput p True r"] Cons.prems
    by (auto simp: plan_attach_def x split: if_splits)
qed (simp add: plan_attach_def)

lemma plan_attach_frame:
  "newest (plan_attach lv xs st) = newest st \<and> self (plan_attach lv xs st) = self st \<and>
   offset0 (plan_attach lv xs st) = offset0 st"
proof (induction xs arbitrary: st)
  case (Cons x xs)
  then show ?case by (cases x) (simp add: plan_attach_def)
qed (simp add: plan_attach_def)

text \<open>Every entry of the member table comes from the metadata of that member.\<close>

definition reports :: "(string \<Rightarrow> err + info) \<Rightarrow> (string, string) gomap \<Rightarrow> string \<Rightarrow> string \<Rightarrow> bool" where
  "reports unmarshal members m n \<longleftrightarrow> (\<exists>d v. (m, d) \<in> set members \<and> unmarshal d = Inr v \<and> i_Node v = n)"

lemma plan_members_reports:
  assumes "plan_members unmarshal ms (n2m, lv, st) = (None, n2m', lv', st')"
    and "\<forall>n m. map_of n2m n = Some m \<longrightarrow> reports unmarshal all m n" and "set ms \<subseteq> set all"
  shows "\<forall>n m. map_of n2m' n = Some m \<longrightarrow> reports unmarshal all m n"
  using assms
proof (induction unmarshal ms "(n2m, lv, st)" arbitrary: n2m lv st rule: plan_members.induct)
  case (2 unmarshal member d ms)
  then obtain v where v: "unmarshal d = Inr v" by (cases "unmarshal d") auto
  obtain lv1 st1 where pm: "plan_member v member (n2m, lv, st) = (mput (i_Node v) member n2m, lv1, st1)"
    by (simp add: plan_member_def Let_def)
  have "reports unmarshal all member (i_Node v)"
    using v "2.prems"(3) by (auto simp: reports_def)
  then have "\<forall>n m. map_of (mput (i_Node v) member n2m) n = Some m \<longrightarrow> reports unmarshal all m n"
    using "2.prems"(2) by simp
  then show ?case
    using "2.hyps" [OF v pm] "2.prems"(1,3) v pm by simp
qed simp

text \<open>The offsets of a partition as the client reports them.\<close>

definition nonempty :: "'k kafka_admin \<Rightarrow> 'k \<Rightarrow> int \<Rightarrow> bool" where
  "nonempty ka k p \<longleftrightarrow> (case (GetOffset ka p OffsetOldest k, GetOffset ka p OffsetNewest k) of
     (Inr mn, Inr mx) \<Rightarrow> mn < mx | _ \<Rightarrow> False)"

definition newest_offset :: "'k kafka_admin \<Rightarrow> 'k \<Rightarrow> int \<Rightarrow> int" where
  "newest_offset ka k p = (case GetOffset ka p OffsetNewest k of Inr m \<Rightarrow> m | Inl _ \<Rightarrow> 0)"

definition nonneg_offsets :: "'k kafka_admin \<Rightarrow> 'k \<Rightarrow> bool" where
  "nonneg_offsets ka k \<longleftrightarrow> (\<forall>p mn. GetOffset ka p OffsetOldest k = Inr mn \<longrightarrow> 0 \<le> mn)"

lemma newest_offset_pos: "nonneg_offsets ka k \<Longrightarrow> nonempty ka k p \<Longrightarrow> newest_offset ka k p > 0"
  by (auto simp: nonneg_offsets_def nonempty_def newest_offset_def split: sum.splits)
    (metis order.strict_trans1)

text \<open>
  A partition with messages that calls for no recovery: it belongs to a live node or, for
  partition 0, its messages have been looked at since the last node joined.
\<close>

definition settled :: "'k kafka_admin \<Rightarrow> 'k \<Rightarrow> rpc_state \<Rightarrow> int \<Rightarrow> bool" where
  "settled ka k st p \<longleftrightarrow> (if p = 0 then newest_offset ka k p \<le> offset0 st else attached st p)"

lemma settled_frame [simp]:
  "settled ka k (st\<lparr>newest := a\<rparr>) p = settled ka k st p"
  "settled ka k (st\<lparr>max0 := b\<rparr>) p = settled ka k st p"
  by (simp_all add: settled_def)

lemma plan_offsets_step:
  assumes "plan_offsets ka k (p # ps) clean st = (Inr c, st')"
  shows "\<exists>mx0. plan_offsets ka k ps (clean \<and> (nonempty ka k p \<longrightarrow> settled ka k st p))
      (st\<lparr>newest := if nonempty ka k p then mput p (newest_offset ka k p) (newest st) else newest st,
          max0 := mx0\<rparr>) = (Inr c, st')"
proof -
  obtain mn mx where off: "GetOffset ka p OffsetOldest k = Inr mn" "GetOffset ka p OffsetNewest k = Inr mx"
    using assms by (auto split: sum.splits)
  let ?mx0 = "if mn < mx \<and> p = 0 \<and> offset0 st < mx then mx else max0 st"
  have "plan_offsets ka k ps (clean \<and> (nonempty ka k p \<longrightarrow> settled ka k st p))
      (st\<lparr>newest := if nonempty ka k p then mput p (newest_offset ka k p) (newest st) else newest st,
          max0 := ?mx0\<rparr>) = (Inr c, st')"
    using assms off by (auto simp: Let_def nonempty_def newest_offset_def settled_def split: if_splits)
  then show ?thesis by blast
qed

lemma plan_offsets_ok:
  assumes "plan_offsets ka k ps clean st = (Inr c, st')"
  shows "node2partition st' = node2partition st \<and> recovery st' = recovery st \<and> self st' = self st \<and>
    (\<forall>p. mget 0 (newest st') p =
       (if p \<in> set ps \<and> nonempty ka k p then newest_offset ka k p else mget 0 (newest st) p)) \<and>
    (c \<longleftrightarrow> clean \<and> (\<forall>p\<in>set ps. nonempty ka k p \<longrightarrow> settled ka k st p))"
  using assms
proof (induction ps arbitrary: clean st)
  case (Cons p ps)
  from plan_offsets_step [OF Cons.prems] obtain mx0 where
    "plan_offsets ka k ps (clean \<and> (nonempty ka k p \<longrightarrow> settled ka k st p))
      (st\<lparr>newest := if nonempty ka k p then mput p (newest_offset ka k p) (newest st) else newest st,
          max0 := mx0\<rparr>) = (Inr c, st')" by blast
  from Cons.IH [OF this] show ?case by (cases "nonempty ka k p") simp_all
qed simp

text \<open>
  What a successful \<^verbatim>\<open>Plan\<close> went through: the member table, the state with partitions attached to
  live nodes, the state with the offsets, and the final assignment.
\<close>

lemma Plan_success:
  assumes "Plan ka unmarshal ord members partitions st k = (Inr adds, st', k')"
  obtains n2m lv st1 st2 st3 clean n2p where
    "plan_members unmarshal (o_members ord members)
       ([], [], st\<lparr>recovery := Some [], service2nodes := [], session2NodeCache := [], newest := []\<rparr>) =
       (None, n2m, lv, st1)"
    "st2 = plan_attach lv (o_partitions ord (node2partition st1)) st1"
    "plan_offsets ka k partitions True st2 = (Inr clean, st3)"
    "plan_assign (is_free st3) (keys n2m) (keys (o_nodes ord n2m)) (drop 1 partitions) (node2partition st3) =
       (Inr (), n2p)"
    "k' = k"
    "clean \<Longrightarrow> st' = st3\<lparr>node2partition := n2p, recovery := None\<rparr> \<and>
       adds = map (\<lambda>(node, member). (member, mget 0 n2p node)) (o_nodes ord n2m)"
    "\<not> clean \<Longrightarrow> st' = st3\<lparr>node2partition := n2p\<rparr> \<and>
       adds = map (\<lambda>p. (mget [] n2m (i_Node (self st3)), p))
         (filter (\<lambda>p. p = 0 \<or> mget 0 (newest st3) p > 0) partitions)"
  using assms unfolding Plan_def Let_def
  by (auto split: prod.splits option.splits sum.splits if_splits)

text \<open>What the leader knows before it plans, and what it may rely on.\<close>

definition plan_input ::
  "(string \<Rightarrow> int) \<Rightarrow> 'k kafka_admin \<Rightarrow> (string \<Rightarrow> err + info) \<Rightarrow> orders \<Rightarrow> (string, string) gomap \<Rightarrow>
    int list \<Rightarrow> rpc_state \<Rightarrow> 'k \<Rightarrow> bool" where
  "plan_input f ka unmarshal ord members partitions st k \<longleftrightarrow>
     range_order (o_members ord) \<and> range_order (o_partitions ord) \<and> range_order (o_nodes ord) \<and>
     wf_map (node2partition st) \<and> knows f (node2partition st) \<and> infos_know f unmarshal members \<and>
     (\<forall>n m. f n \<noteq> 0 \<and> f n = f m \<longrightarrow> n = m) \<and> (\<forall>n. 0 \<le> f n) \<and>
     distinct partitions \<and> partitions \<noteq> [] \<and> hd partitions = 0 \<and> nonneg_offsets ka k"

lemma member_nodes_order: "range_order rng \<Longrightarrow> member_nodes unmarshal (rng ms) = member_nodes unmarshal ms"
  by (simp add: member_nodes_def range_order_set)

lemma infos_know_order: "range_order rng \<Longrightarrow> infos_know f unmarshal (rng ms) = infos_know f unmarshal ms"
  by (simp add: infos_know_def range_order_set)

lemma mget_in_map: "wf_map m \<Longrightarrow> p \<noteq> 0 \<Longrightarrow> (n, p) \<in> set m \<longleftrightarrow> mget 0 m n = p"
  by (auto simp: wf_map_def mget_def split: option.splits dest: map_of_SomeD eq_key_imp_eq_value)

lemma mget_not_in_map: "n \<notin> fst ` set m \<Longrightarrow> mget z m n = z"
  by (metis map_of_eq_None_iff mget_def option.case(1))

lemma exclusive_known: "knows f n2p \<Longrightarrow> \<forall>n m. f n \<noteq> 0 \<and> f n = f m \<longrightarrow> n = m \<Longrightarrow> exclusive n2p"
  by (metis exclusive_def knows_def)

lemma attached_after:
  assumes "range_order ord" "wf_map (node2partition st)" "recovery st = Some []"
  shows "attached (plan_attach lv (ord (node2partition st)) st) p \<longleftrightarrow>
      p > 0 \<and> (\<exists>n\<in>set lv. partition_of st n = p)"
  using plan_attach_recovery [OF assms(3), of lv "ord (node2partition st)"] mget_in_map [OF assms(2), of p]
  by (auto simp: range_order_set [OF assms(1)] mget_def [of False "[]"])

lemma partition_after:
  assumes "range_order ord"
  shows "partition_of (plan_attach lv (ord (node2partition st)) st) n =
    (if n \<in> set lv then partition_of st n else 0)"
  by (simp add: plan_attach_n2p range_order_set [OF assms] mget_not_in_map)

lemma Plan_unused:
  assumes "distinct partitions" "partitions \<noteq> []" "hd partitions = 0"
    and "\<forall>n. partition_of st3 n = (if n \<in> N then partition_of st1 n else 0)"
    and "\<forall>p. attached st3 p \<longleftrightarrow> p > 0 \<and> (\<exists>n\<in>N. partition_of st1 n = p)"
    and "knows f (node2partition st1)" "\<forall>n. 0 \<le> f n"
  shows "unused (is_free st3) (drop 1 partitions) (node2partition st3)"
proof -
  obtain ps where ps: "partitions = 0 # ps" using assms(2,3) by (cases partitions) auto
  have "partition_of st3 n \<noteq> p" if "p \<in> set ps" "is_free st3 p" for n p
  proof
    assume p: "partition_of st3 n = p"
    have "p \<noteq> 0" using that(1) assms(1) ps by auto
    with p assms(4) have n: "n \<in> N" "partition_of st1 n = p" by (auto split: if_splits)
    then have "p > 0" using assms(6,7) \<open>p \<noteq> 0\<close> by (metis knows_def order_le_less)
    then show False using n assms(5) that(2) by (auto simp: is_free_def)
  qed
  then show ?thesis using assms(1) ps by (simp add: unused_def)
qed

text \<open>The state of the leader when it starts to hand out free partitions.\<close>

lemma Plan_before_assign:
  assumes "plan_input f ka unmarshal ord members partitions st k"
    and "plan_members unmarshal (o_members ord members)
       ([], [], st\<lparr>recovery := Some [], service2nodes := [], session2NodeCache := [], newest := []\<rparr>) =
       (None, n2m, lv, st1)"
    and "plan_offsets ka k partitions True (plan_attach lv (o_partitions ord (node2partition st1)) st1) =
       (Inr clean, st3)"
  defines "N \<equiv> member_nodes unmarshal members"
  shows "set (keys n2m) = N \<and> wf_map n2m \<and> self st3 = self st \<and> recovery st3 \<noteq> None \<and>
    (\<forall>n m. map_of n2m n = Some m \<longrightarrow> reports unmarshal members m n) \<and>
    (\<forall>n. partition_of st3 n \<noteq> 0 \<longrightarrow> n \<in> N \<and> partition_of st3 n = f n) \<and>
    (\<forall>n\<in>N. live st n \<longrightarrow> partition_of st3 n = partition_of st n) \<and>
    (\<forall>p. attached st3 p \<longleftrightarrow> p > 0 \<and> (\<exists>n\<in>N. partition_of st3 n = p)) \<and>
    (\<forall>p. mget 0 (newest st3) p =
       (if p \<in> set partitions \<and> nonempty ka k p then newest_offset ka k p else 0)) \<and>
    (clean \<longrightarrow> (\<forall>p\<in>set partitions. p \<noteq> 0 \<and> nonempty ka k p \<longrightarrow> attached st3 p))"
proof -
  let ?st2 = "plan_attach lv (o_partitions ord (node2partition st1)) st1"
  from assms(1) have inp: "range_order (o_members ord)" "range_order (o_partitions ord)"
    "wf_map (node2partition st)" "knows f (node2partition st)" "infos_know f unmarshal members"
    by (simp_all add: plan_input_def)
  have m: "set lv = N \<and> set (keys n2m) = N \<and> wf_map n2m \<and> knows f (node2partition st1) \<and>
      wf_map (node2partition st1) \<and> (\<forall>n. live st n \<longrightarrow> partition_of st1 n = partition_of st n) \<and>
      recovery st1 = Some [] \<and> newest st1 = [] \<and> self st1 = self st"
    using plan_members_ok [OF assms(2), of f] inp
    by (simp add: N_def member_nodes_order infos_know_order wf_map_def [of "[]"])
  have rep: "\<forall>n m. map_of n2m n = Some m \<longrightarrow> reports unmarshal members m n"
    using plan_members_reports [OF assms(2), of members] inp(1) by (simp add: range_order_set)
  note off = plan_offsets_ok [OF assms(3)]
  have part3: "partition_of st3 n = (if n \<in> N then partition_of st1 n else 0)" for n
    using off partition_after [OF inp(2), of lv st1] m by simp
  have att: "attached st3 p \<longleftrightarrow> p > 0 \<and> (\<exists>n\<in>N. partition_of st1 n = p)" for p
    using off attached_after [OF inp(2), of st1 lv p] m by simp
  have "\<forall>p\<in>set partitions. p \<noteq> 0 \<and> nonempty ka k p \<longrightarrow> attached st3 p" if clean
    using off that by (simp add: settled_def)
  moreover have "recovery st3 \<noteq> None"
    using off plan_attach_recovery [of st1 "[]" lv "o_partitions ord (node2partition st1)"] m by auto
  ultimately show ?thesis
    using m rep off plan_attach_frame [of lv "o_partitions ord (node2partition st1)" st1] part3 att
    by (simp add: mget_def [of 0 "[]"] knows_def)
qed

lemma Plan_facts:
  assumes "plan_input f ka unmarshal ord members partitions st k"
    and "Plan ka unmarshal ord members partitions st k = (Inr adds, st', k')"
  defines "N \<equiv> member_nodes unmarshal members"
  obtains n2m clean where
    "set (keys n2m) = N" "wf_map n2m" "\<forall>n m. map_of n2m n = Some m \<longrightarrow> reports unmarshal members m n"
    "exclusive (node2partition st')" "\<forall>n. live st' n \<longleftrightarrow> n \<in> N"
    "\<forall>n\<in>N. live st n \<longrightarrow> partition_of st' n = partition_of st n"
    "\<forall>n\<in>N. partition_of st' n = f n \<or>
       partition_of st' n \<in> set partitions \<and> \<not> nonempty ka k (partition_of st' n)"
    "k' = k" "recovery st' = None \<longleftrightarrow> clean"
    "clean \<Longrightarrow> \<forall>p\<in>set partitions. p \<noteq> 0 \<and> nonempty ka k p \<longrightarrow> (\<exists>n\<in>N. partition_of st' n = p)"
    "clean \<Longrightarrow> adds = map (\<lambda>(node, member). (member, partition_of st' node)) (o_nodes ord n2m)"
    "\<not> clean \<Longrightarrow> adds = map (\<lambda>p. (mget [] n2m (i_Node (self st)), p))
       (filter (\<lambda>p. p = 0 \<or> nonempty ka k p) partitions)"
proof -
  from assms(1) have inp: "range_order (o_nodes ord)" "\<forall>n m. f n \<noteq> 0 \<and> f n = f m \<longrightarrow> n = m"
    "\<forall>n. 0 \<le> f n" "distinct partitions" "partitions \<noteq> []" "hd partitions = 0" "nonneg_offsets ka k"
    by (simp_all add: plan_input_def)
  from assms(2) show thesis
  proof (cases rule: Plan_success)
    case (1 n2m lv st1 st2 st3 clean n2p)
    note before = Plan_before_assign [OF assms(1) 1(1) 1(3) [unfolded 1(2)], folded N_def]
    have known: "knows f (node2partition st3)" using before by (simp add: knows_def)
    have outside: "\<forall>n. partition_of st3 n = (if n \<in> N then partition_of st3 n else 0)"
      using before by metis
    have att: "\<forall>p. attached st3 p \<longleftrightarrow> p > 0 \<and> (\<exists>n\<in>N. partition_of st3 n = p)"
      using before by (elim conjE)
    note unused = Plan_unused [OF inp(4-6) outside att known inp(3)]
    note as = plan_assign_ok [OF 1(4) unused exclusive_known [OF known inp(2)]]
    have nodes: "set (keys (o_nodes ord n2m)) = N"
      using before by (simp add: range_order_set [OF inp(1)])
    have n2p: "node2partition st' = n2p" by (cases clean) (use 1(6,7) in auto)
    have empty: "\<not> nonempty ka k p" if "p \<in> set partitions" "is_free st3 p" for p
      using before that newest_offset_pos [OF inp(7), of p] by (auto simp: is_free_def)
    have pos: "p \<in> set partitions \<Longrightarrow> mget 0 (newest st3) p > 0 \<longleftrightarrow> nonempty ka k p" for p
      using before newest_offset_pos [OF inp(7), of p] by simp
    have fil: "filter (\<lambda>p. p = 0 \<or> mget 0 (newest st3) p > 0) partitions =
        filter (\<lambda>p. p = 0 \<or> nonempty ka k p) partitions"
      using pos by (simp cong: filter_cong)
    have self3: "self st3 = self st" using before by blast
    show thesis
    proof (rule that)
      show "\<forall>n. live st' n \<longleftrightarrow> n \<in> N" using as n2p nodes before by metis
      show "\<forall>n\<in>N. partition_of st' n = f n \<or>
          partition_of st' n \<in> set partitions \<and> \<not> nonempty ka k (partition_of st' n)"
        using as n2p nodes before empty by (metis in_set_dropD)
      show "recovery st' = None \<longleftrightarrow> clean" by (cases clean) (use 1(6,7) before in auto)
      show "\<forall>p\<in>set partitions. p \<noteq> 0 \<and> nonempty ka k p \<longrightarrow> (\<exists>n\<in>N. partition_of st' n = p)" if clean
        using before as n2p that by (metis order_less_irrefl)
      show "adds = map (\<lambda>p. (mget [] n2m (i_Node (self st)), p))
          (filter (\<lambda>p. p = 0 \<or> nonempty ka k p) partitions)" if "\<not> clean"
        using 1(7) [OF that] by (simp only: fil self3)
    qed (use before as n2p 1(5,6) in auto)
  qed
qed

text \<open>With as many free partitions left as nodes in need of one, the loop hands one to each.\<close>

lemma free_loop_known: "mget 0 n2p node \<noteq> 0 \<Longrightarrow> free_loop free node nxt n2p = (nxt, n2p)"
  by (cases nxt) simp_all

lemma free_loop_finds:
  assumes "filter free nxt \<noteq> []" "0 \<notin> set nxt" "mget 0 n2p node = 0"
  shows "\<exists>p nxt'. free_loop free node nxt n2p = (nxt', mput node p n2p) \<and> p \<noteq> 0 \<and>
    length (filter free nxt) = Suc (length (filter free nxt')) \<and> 0 \<notin> set nxt'"
  using assms
proof (induction nxt)
  case (Cons q qs)
  then show ?case
    by (cases "free q") (auto simp: free_loop_known)
qed simp

lemma plan_assign_enough:
  assumes "length (filter (\<lambda>n. mget 0 n2p n = 0) nodes) \<le> length (filter free nxt)"
    and "0 \<notin> set nxt" "distinct nodes"
  shows "\<exists>n2p'. plan_assign free allNodes nodes nxt n2p = (Inr (), n2p')"
  using assms
proof (induction nodes arbitrary: nxt n2p)
  case (Cons node nodes)
  show ?case
  proof (cases "mget 0 n2p node = 0")
    case True
    then have "filter free nxt \<noteq> []" using Cons.prems(1) by auto
    from free_loop_finds [OF this Cons.prems(2) True] obtain p nxt' where
      fl: "free_loop free node nxt n2p = (nxt', mput node p n2p)" "p \<noteq> 0"
        "length (filter free nxt) = Suc (length (filter free nxt'))" "0 \<notin> set nxt'" by blast
    have "filter (\<lambda>n. mget 0 (mput node p n2p) n = 0) nodes = filter (\<lambda>n. mget 0 n2p n = 0) nodes"
      using Cons.prems(3) by (auto intro!: filter_cong)
    then have "length (filter (\<lambda>n. mget 0 (mput node p n2p) n = 0) nodes) \<le> length (filter free nxt')"
      using Cons.prems(1) True fl(3) by simp
    from Cons.IH [OF this fl(4)] Cons.prems(3) show ?thesis using fl(1,2) by simp
  next
    case False
    then show ?thesis using Cons by (simp add: free_loop_known)
  qed
qed simp

section \<open>Properties of the plan\<close>

text \<open>C10 assignment of partitions.
  When \<^verbatim>\<open>Plan\<close> succeeds, exactly the nodes that take part in the group have a partition; it is never the
  reserved partition 0; no two nodes share one; a node that had one keeps it; and a partition newly
  given out holds no message, so that nobody inherits the queue of a dead node.\<close>
theorem Plan_assignment:
  assumes "plan_input f ka unmarshal ord members partitions st k"
    and "Plan ka unmarshal ord members partitions st k = (Inr adds, st', k')"
  shows "(\<forall>n. partition_of st' n \<noteq> 0 \<longleftrightarrow> n \<in> member_nodes unmarshal members) \<and>
    inj_on (partition_of st') (member_nodes unmarshal members) \<and>
    (\<forall>n\<in>member_nodes unmarshal members. partition_of st n \<noteq> 0 \<longrightarrow> partition_of st' n = partition_of st n) \<and>
    (\<forall>n\<in>member_nodes unmarshal members. partition_of st' n \<noteq> f n \<longrightarrow>
       partition_of st' n \<in> set partitions \<and> \<not> nonempty ka k (partition_of st' n))"
proof (rule Plan_facts [OF assms])
  fix n2m clean
  assume "exclusive (node2partition st')" "\<forall>n. live st' n \<longleftrightarrow> n \<in> member_nodes unmarshal members"
    "\<forall>n\<in>member_nodes unmarshal members. live st n \<longrightarrow> partition_of st' n = partition_of st n"
    "\<forall>n\<in>member_nodes unmarshal members. partition_of st' n = f n \<or>
       partition_of st' n \<in> set partitions \<and> \<not> nonempty ka k (partition_of st' n)"
  then show ?thesis by (auto simp: exclusive_def inj_on_def)
qed

lemma map_snd_adds: "map snd (map (\<lambda>(node, member). (member, g node)) xs) = map g (keys xs)"
  by (induction xs) auto

lemma adds_clean:
  assumes "range_order rng" "wf_map n2m" "set (keys n2m) = N" "inj_on g N"
    and "adds = map (\<lambda>(node, member). (member, g node)) (rng n2m)"
  shows "distinct (map snd adds) \<and> snd ` set adds = g ` N"
proof -
  have "mset (keys (rng n2m)) = mset (keys n2m)"
    using assms(1) by (simp add: range_order_def)
  then have ks: "distinct (keys (rng n2m))" "set (keys (rng n2m)) = N"
    using assms(2,3) mset_eq_imp_distinct_iff mset_eq_setD unfolding wf_map_def by blast+
  have "map snd adds = map g (keys (rng n2m))" unfolding assms(5) by (rule map_snd_adds)
  moreover from this have "set (map snd adds) = g ` N" using ks(2) by (simp only: set_map)
  moreover have "distinct (map g (keys (rng n2m)))" using ks assms(4) by (simp only: distinct_map)
  ultimately show ?thesis by (metis list.set_map)
qed

text \<open>C11 recovery.
  A successful plan either declares that no recovery is needed, and then every partition other than 0
  that still holds messages belongs to a node of the group, the partitions given out are those of the
  nodes, each once, and every member is given the partition of its own node; or it starts a recovery,
  and then the member that runs on this node, and no other, is given partition 0 and every partition
  that holds messages.\<close>
theorem Plan_recovery:
  assumes "plan_input f ka unmarshal ord members partitions st k"
    and "Plan ka unmarshal ord members partitions st k = (Inr adds, st', k')"
  shows "(recovery st' = None \<longrightarrow>
      (\<forall>p\<in>set partitions. p \<noteq> 0 \<and> nonempty ka k p \<longrightarrow>
         (\<exists>n\<in>member_nodes unmarshal members. partition_of st' n = p)) \<and>
      distinct (map snd adds) \<and> snd ` set adds = partition_of st' ` member_nodes unmarshal members \<and>
      (\<forall>(m, p)\<in>set adds. \<exists>n. reports unmarshal members m n \<and> p = partition_of st' n)) \<and>
    (recovery st' \<noteq> None \<and> i_Node (self st) \<in> member_nodes unmarshal members \<longrightarrow>
      map snd adds = filter (\<lambda>p. p = 0 \<or> nonempty ka k p) partitions \<and>
      (\<exists>m. reports unmarshal members m (i_Node (self st)) \<and> (\<forall>x\<in>set adds. fst x = m)))"
proof (rule Plan_facts [OF assms])
  fix n2m clean
  assume t: "set (keys n2m) = member_nodes unmarshal members" "wf_map n2m"
    "\<forall>n m. map_of n2m n = Some m \<longrightarrow> reports unmarshal members m n"
    and ex: "exclusive (node2partition st')" "\<forall>n. live st' n \<longleftrightarrow> n \<in> member_nodes unmarshal members"
    and c: "recovery st' = None \<longleftrightarrow> clean"
      "clean \<Longrightarrow> \<forall>p\<in>set partitions. p \<noteq> 0 \<and> nonempty ka k p \<longrightarrow>
         (\<exists>n\<in>member_nodes unmarshal members. partition_of st' n = p)"
      "clean \<Longrightarrow> adds = map (\<lambda>(node, member). (member, partition_of st' node)) (o_nodes ord n2m)"
      "\<not> clean \<Longrightarrow> adds = map (\<lambda>p. (mget [] n2m (i_Node (self st)), p))
         (filter (\<lambda>p. p = 0 \<or> nonempty ka k p) partitions)"
  have rng: "range_order (o_nodes ord)" using assms(1) by (simp add: plan_input_def)
  have inj: "inj_on (partition_of st') (member_nodes unmarshal members)"
    using ex by (auto simp: exclusive_def inj_on_def)
  have own: "reports unmarshal members m n" if "(n, m) \<in> set (o_nodes ord n2m)" for n m
    using that t(2,3) by (simp add: range_order_set [OF rng] wf_map_def)
  show ?thesis
  proof (cases clean)
    case True
    have "\<forall>(m, p)\<in>set adds. \<exists>n. reports unmarshal members m n \<and> p = partition_of st' n"
      unfolding c(3) [OF True] using own by auto
    then show ?thesis
      using c(1) True c(2) [OF True] adds_clean [OF rng t(2,1) inj c(3) [OF True]]
      by (intro conjI impI) (simp_all only: simp_thms conj_absorb)
  next
    case False
    have "map snd adds = filter (\<lambda>p. p = 0 \<or> nonempty ka k p) partitions"
      "\<forall>x\<in>set adds. fst x = mget [] n2m (i_Node (self st))"
      unfolding c(4) [OF False] by (simp_all add: comp_def)
    moreover have "reports unmarshal members (mget [] n2m (i_Node (self st))) (i_Node (self st))"
      if in_N: "i_Node (self st) \<in> member_nodes unmarshal members"
    proof -
      have "map_of n2m (i_Node (self st)) \<noteq> None"
        using in_N t(1) by (simp add: map_of_eq_None_iff)
      then show ?thesis using t(3) by (auto simp: mget_def)
    qed
    ultimately show ?thesis using False c(1) by blast
  qed
qed

lemma plan_members_total:
  assumes "\<forall>(m, d)\<in>set ms. \<exists>v. unmarshal d = Inr v"
  shows "\<exists>n2m lv st'. plan_members unmarshal ms s = (None, n2m, lv, st')"
  using assms
proof (induction unmarshal ms s rule: plan_members.induct)
  case (1 unmarshal s)
  then show ?case by (cases s) simp
next
  case (2 unmarshal member d ms s)
  then show ?case by auto
qed

lemma plan_offsets_total:
  assumes "\<forall>p\<in>set ps. \<forall>t. \<exists>i. GetOffset ka p t k = Inr i"
  shows "\<exists>c st'. plan_offsets ka k ps clean st = (Inr c, st')"
  using assms
proof (induction ps arbitrary: clean st)
  case (Cons p ps)
  then obtain mn mx where "GetOffset ka p OffsetOldest k = Inr mn" "GetOffset ka p OffsetNewest k = Inr mx"
    by (meson list.set_intros(1))
  then show ?case using Cons by (auto simp: Let_def)
qed simp

lemma filter_length_mono:
  "(\<And>x. x \<in> set xs \<Longrightarrow> P x \<Longrightarrow> Q x) \<Longrightarrow> length (filter P xs) \<le> length (filter Q xs)"
  by (induction xs) (auto simp: le_Suc_eq)

text \<open>C12 enough partitions.
  When the metadata decodes, the offsets can be read, and there are as many empty partitions nobody
  holds as there are nodes, \<^verbatim>\<open>Plan\<close> succeeds: it reports too few partitions only when they are.\<close>
theorem Plan_succeeds:
  assumes "plan_input f ka unmarshal ord members partitions st k"
    and "\<forall>(m, d)\<in>set members. \<exists>v. unmarshal d = Inr v"
    and "\<forall>p\<in>set partitions. \<forall>t. \<exists>i. GetOffset ka p t k = Inr i"
    and "card (member_nodes unmarshal members) \<le>
      length (filter (\<lambda>p. \<not> nonempty ka k p \<and> (\<forall>n. f n \<noteq> p)) (tl partitions))"
  shows "\<exists>adds st'. Plan ka unmarshal ord members partitions st k = (Inr adds, st', k)"
proof -
  from assms(1) have inp: "range_order (o_members ord)" "range_order (o_nodes ord)"
    "distinct partitions" "partitions \<noteq> []" "hd partitions = 0"
    by (simp_all add: plan_input_def)
  let ?st0 = "st\<lparr>recovery := Some [], service2nodes := [], session2NodeCache := [], newest := []\<rparr>"
  obtain n2m lv st1 where m: "plan_members unmarshal (o_members ord members) ([], [], ?st0) = (None, n2m, lv, st1)"
    using plan_members_total [of "o_members ord members" unmarshal] assms(2)
    by (fastforce simp: range_order_set [OF inp(1)])
  let ?st2 = "plan_attach lv (o_partitions ord (node2partition st1)) st1"
  obtain clean st3 where o: "plan_offsets ka k partitions True ?st2 = (Inr clean, st3)"
    using plan_offsets_total [OF assms(3)] by blast
  note before = Plan_before_assign [OF assms(1) m o]
  have dn: "distinct (keys (o_nodes ord n2m))" "length (keys (o_nodes ord n2m)) = card (member_nodes unmarshal members)"
  proof -
    have "mset (keys (o_nodes ord n2m)) = mset (keys n2m)" using inp(2) by (simp add: range_order_def)
    then show "distinct (keys (o_nodes ord n2m))"
      using before mset_eq_imp_distinct_iff unfolding wf_map_def by blast
    have "card (set (keys n2m)) = length (keys n2m)" using before distinct_card wf_map_def by blast
    then show "length (keys (o_nodes ord n2m)) = card (member_nodes unmarshal members)"
      using before range_order_length [OF inp(2), of n2m] by simp
  qed
  have "is_free st3 p" if "p \<in> set (tl partitions)" "\<not> nonempty ka k p" "\<forall>n. f n \<noteq> p" for p
    using before that unfolding is_free_def by (metis less_irrefl)
  then have "length (filter (\<lambda>p. \<not> nonempty ka k p \<and> (\<forall>n. f n \<noteq> p)) (tl partitions)) \<le>
      length (filter (is_free st3) (tl partitions))"
    by (intro filter_length_mono) auto
  then have "length (filter (\<lambda>n. mget 0 (node2partition st3) n = 0) (keys (o_nodes ord n2m))) \<le>
      length (filter (is_free st3) (drop 1 partitions))"
    using assms(4) dn(2) length_filter_le [of "\<lambda>n. mget 0 (node2partition st3) n = 0" "keys (o_nodes ord n2m)"]
    by (simp add: drop_Suc)
  moreover have "0 \<notin> set (drop 1 partitions)" using inp(3-5) by (cases partitions) auto
  ultimately obtain n2p where "plan_assign (is_free st3) (keys n2m) (keys (o_nodes ord n2m)) (drop 1 partitions)
      (node2partition st3) = (Inr (), n2p)"
    using plan_assign_enough dn(1) by blast
  then show ?thesis using m o by (simp add: Plan_def Let_def)
qed

section \<open>Routing tables from an assignment\<close>

text \<open>The info and the partition that a group description gives for a member.\<close>

definition described :: "(string \<Rightarrow> err + info) \<Rightarrow> group_member list \<Rightarrow> info \<Rightarrow> int \<Rightarrow> bool" where
  "described unmarshal ms d p \<longleftrightarrow>
     (\<exists>m\<in>set ms. \<exists>u ps. gm_meta m = Inr (Some u) \<and> unmarshal u = Inr d \<and> gm_assignment m = Inr (p # ps))"

lemma update_members_ok:
  assumes "update_members unmarshal ms st = (Ok (), st')"
  shows "(\<forall>s n. n \<in> set (nodes_of st' s) \<longleftrightarrow> n \<in> set (nodes_of st s) \<or>
       (\<exists>d p. described unmarshal ms d p \<and> i_Node d = n \<and> s \<in> set (i_Services d))) \<and>
    (\<forall>n. partition_of st' n = partition_of st n \<and> (\<forall>d p. described unmarshal ms d p \<longrightarrow> i_Node d \<noteq> n) \<or>
       (\<exists>d. described unmarshal ms d (partition_of st' n) \<and> i_Node d = n)) \<and>
    session2NodeCache st' = session2NodeCache st \<and> self st' = self st"
  using assms
proof (induction ms arbitrary: st)
  case (Cons m ms)
  show ?case
  proof (cases "gm_meta m = Inr None")
    case True
    moreover from this have "described unmarshal (m # ms) = described unmarshal ms"
      by (auto simp: described_def fun_eq_iff)
    ultimately show ?thesis using Cons by simp
  next
    case False
    then obtain u d p ps where m: "gm_meta m = Inr (Some u)" "unmarshal u = Inr d" "gm_assignment m = Inr (p # ps)"
      using Cons.prems by (auto simp: Let_def split: sum.splits option.splits list.splits)
    have desc: "described unmarshal (m # ms) e q \<longleftrightarrow> e = d \<and> q = p \<or> described unmarshal ms e q" for e q
      using m by (auto simp: described_def)
    let ?st1 = "st\<lparr>service2nodes := fold (\<lambda>s m. mput s (mget [] m s @ [i_Node d]) m) (i_Services d) (service2nodes st),
        node2partition := mput (i_Node d) p (node2partition st),
        node2port := mput (i_Node d) (i_Port d) (node2port st)\<rparr>"
    have "update_members unmarshal ms ?st1 = (Ok (), st')"
      using Cons.prems m by (simp add: Let_def)
    note IH = Cons.IH [OF this]
    have services: "n \<in> set (nodes_of st' s) \<longleftrightarrow> n \<in> set (nodes_of st s) \<or>
        (\<exists>e q. described unmarshal (m # ms) e q \<and> i_Node e = n \<and> s \<in> set (i_Services e))" for s n
      using IH by (auto simp: topology_nodes desc split: if_splits)
    have ihp: "partition_of st' n = (if n = i_Node d then p else partition_of st n) \<and>
        (\<forall>d p. described unmarshal ms d p \<longrightarrow> i_Node d \<noteq> n) \<or>
        (\<exists>e. described unmarshal ms e (partition_of st' n) \<and> i_Node e = n)" for n
      using IH by simp
    have "partition_of st' n = partition_of st n \<and>
        (\<forall>e q. described unmarshal (m # ms) e q \<longrightarrow> i_Node e \<noteq> n) \<or>
        (\<exists>e. described unmarshal (m # ms) e (partition_of st' n) \<and> i_Node e = n)" for n
      using ihp [of n] by (auto simp: desc split: if_splits)
    with services show ?thesis using IH by simp
  qed
qed (simp add: described_def)

text \<open>C18 routing tables.
  After \<^verbatim>\<open>updateRoutes\<close> a node is listed under a service exactly when a member of the group reported the
  service for it; its partition is one assigned to a member that reported it, and nodes nobody reported
  have none.  If members are assigned partitions other than 0 and report non-empty node names, the
  tables are in order for sending.\<close>
theorem updateRoutes_spec:
  assumes "updateRoutes unmarshal groups st = (Ok (), st')"
  shows "\<exists>ms. groups = Inr ms \<and>
    (\<forall>s n. n \<in> set (nodes_of st' s) \<longleftrightarrow>
       (\<exists>d p. described unmarshal ms d p \<and> i_Node d = n \<and> s \<in> set (i_Services d))) \<and>
    (\<forall>n. (\<exists>d. described unmarshal ms d (partition_of st' n) \<and> i_Node d = n) \<or>
       partition_of st' n = 0 \<and> (\<forall>d p. described unmarshal ms d p \<longrightarrow> i_Node d \<noteq> n)) \<and>
    ((\<forall>d p. described unmarshal ms d p \<longrightarrow> p \<noteq> 0 \<and> i_Node d \<noteq> '''') \<longrightarrow> wf_routes sc v st')"
proof -
  obtain ms where ms: "groups = Inr ms" and
    "update_members unmarshal ms (st\<lparr>service2nodes := [], node2partition := [], node2port := [],
       session2NodeCache := []\<rparr>) = (Ok (), st')"
    using assms by (auto simp: updateRoutes_def split: sum.splits)
  note upd = update_members_ok [OF this(2)]
  have tables: "n \<in> set (nodes_of st' s) \<longleftrightarrow>
      (\<exists>d p. described unmarshal ms d p \<and> i_Node d = n \<and> s \<in> set (i_Services d))" for s n
    using upd by (simp add: mget_def [of _ "[]"])
  have parts: "(\<exists>d. described unmarshal ms d (partition_of st' n) \<and> i_Node d = n) \<or>
      partition_of st' n = 0 \<and> (\<forall>d p. described unmarshal ms d p \<longrightarrow> i_Node d \<noteq> n)" for n
    using upd [THEN conjunct2, THEN conjunct1, rule_format, of n] by (auto simp: mget_def [of _ "[]"])
  have "wf_routes sc v st'" if ok: "\<forall>d p. described unmarshal ms d p \<longrightarrow> p \<noteq> 0 \<and> i_Node d \<noteq> ''''"
  proof -
    have "live st' n" if "n \<in> set (nodes_of st' s)" for s n
      using that tables parts ok by metis
    moreover have "\<not> live st' ''''" using parts ok by metis
    moreover have "session2NodeCache st' = []" using upd by simp
    ultimately show ?thesis by (simp add: wf_routes_def cache_coherent_def)
  qed
  then show ?thesis using ms tables parts by blast
qed

section \<open>A sample group\<close>

definition sample_unmarshal :: "string \<Rightarrow> err + info" where
  "sample_unmarshal u =
     (if u = ''a'' then Inr \<lparr>i_Node = ''n1'', i_Port = 80, i_Services = [''Fork''], i_Partition = 1\<rparr>
      else if u = ''b'' then Inr \<lparr>i_Node = ''n2'', i_Port = 80, i_Services = [''Fork''], i_Partition = 0\<rparr>
      else Inl (ErrMsg u))"

text \<open>Partition 1, of \<^verbatim>\<open>n1\<close>, holds messages; the others are empty.\<close>

definition sample_ka :: "unit kafka_admin" where
  "sample_ka = \<lparr>GetOffset = (\<lambda>p t k. Inr (if p = 1 \<and> t = OffsetNewest then 5 else 0)),
     CreatePartitions = (\<lambda>n k. (None, k))\<rparr>"

definition sample_ord :: orders where
  "sample_ord = \<lparr>o_members = (\<lambda>x. x), o_partitions = (\<lambda>x. x), o_nodes = (\<lambda>x. x)\<rparr>"

definition sample_members :: "(string, string) gomap" where
  "sample_members = [(''m1'', ''a''), (''m2'', ''b'')]"

definition sample_f :: "string \<Rightarrow> int" where
  "sample_f n = (if n = ''n1'' then 1 else 0)"

definition sample_leader :: rpc_state where
  "sample_leader = sample_st\<lparr>node2partition := [(''n1'', 1)]\<rparr>"

lemma sample_input: "plan_input sample_f sample_ka sample_unmarshal sample_ord sample_members [0, 1, 2, 3, 4] sample_leader ()"
  by (auto simp: plan_input_def sample_ord_def sample_leader_def sample_st_def wf_map_def knows_def mget_def
      sample_f_def infos_know_def sample_members_def sample_unmarshal_def nonneg_offsets_def sample_ka_def
      split: if_splits)

lemma sample_Plan:
  "fst (Plan sample_ka sample_unmarshal sample_ord sample_members [0, 1, 2, 3, 4] sample_leader ()) =
    Inr [(''m1'', 1), (''m2'', 2)]"
  by code_simp

theorem Plan_assignment_witness:
  "plan_input sample_f sample_ka sample_unmarshal sample_ord sample_members [0, 1, 2, 3, 4] sample_leader () \<and>
   (\<exists>st' k'. Plan sample_ka sample_unmarshal sample_ord sample_members [0, 1, 2, 3, 4] sample_leader () =
      (Inr [(''m1'', 1), (''m2'', 2)], st', k') \<and>
      inj_on (partition_of st') (member_nodes sample_unmarshal sample_members))"
proof -
  obtain st' k' where run: "Plan sample_ka sample_unmarshal sample_ord sample_members [0, 1, 2, 3, 4]
      sample_leader () = (Inr [(''m1'', 1), (''m2'', 2)], st', k')"
    using sample_Plan by (cases "Plan sample_ka sample_unmarshal sample_ord sample_members [0, 1, 2, 3, 4]
      sample_leader ()") auto
  show ?thesis using Plan_assignment [OF sample_input run] sample_input run by blast
qed

theorem Plan_recovery_witness:
  "\<exists>st' k'. Plan sample_ka sample_unmarshal sample_ord sample_members [0, 1, 2, 3, 4] sample_leader () =
      (Inr [(''m1'', 1), (''m2'', 2)], st', k') \<and> recovery st' = None \<and>
      snd ` set [(''m1'', 1), (''m2'', 2)] = partition_of st' ` member_nodes sample_unmarshal sample_members"
proof -
  have "recovery (fst (snd (Plan sample_ka sample_unmarshal sample_ord sample_members [0, 1, 2, 3, 4]
      sample_leader ()))) = None" by code_simp
  then obtain st' k' where run: "Plan sample_ka sample_unmarshal sample_ord sample_members [0, 1, 2, 3, 4]
      sample_leader () = (Inr [(''m1'', 1), (''m2'', 2)], st', k')" and rec: "recovery st' = None"
    using sample_Plan by (cases "Plan sample_ka sample_unmarshal sample_ord sample_members [0, 1, 2, 3, 4]
      sample_leader ()") auto
  have "snd ` set [(''m1'', 1), (''m2'', 2)] = partition_of st' ` member_nodes sample_unmarshal sample_members"
    using mp [OF Plan_recovery [OF sample_input run, THEN conjunct1] rec] by (elim conjE)
  then show ?thesis using run rec by (intro exI conjI)
qed

lemma member_nodes_UN [code]:
  "member_nodes unmarshal ms = (\<Union>(m, d)\<in>set ms. case unmarshal d of Inr v \<Rightarrow> {i_Node v} | Inl _ \<Rightarrow> {})"
proof (rule set_eqI, rule iffI)
  fix n
  assume "n \<in> member_nodes unmarshal ms"
  then obtain m d v where "(m, d) \<in> set ms" "unmarshal d = Inr v" "n = i_Node v"
    unfolding member_nodes_def by blast
  then show "n \<in> (\<Union>(m, d)\<in>set ms. case unmarshal d of Inr v \<Rightarrow> {i_Node v} | Inl _ \<Rightarrow> {})"
    by (intro UN_I [of "(m, d)"]) simp_all
next
  fix n
  assume "n \<in> (\<Union>(m, d)\<in>set ms. case unmarshal d of Inr v \<Rightarrow> {i_Node v} | Inl _ \<Rightarrow> {})"
  then obtain m d where md: "(m, d) \<in> set ms" "n \<in> (case unmarshal d of Inr v \<Rightarrow> {i_Node v} | Inl _ \<Rightarrow> {})"
    by (elim UN_E) (simp split: prod.splits)
  then show "n \<in> member_nodes unmarshal ms"
    by (cases "unmarshal d") (auto simp: member_nodes_def)
qed

lemma sample_nodes: "card (member_nodes sample_unmarshal sample_members) = 2"
  by code_simp

theorem Plan_succeeds_witness:
  "\<exists>adds st'. Plan sample_ka sample_unmarshal sample_ord sample_members [0, 1, 2, 3, 4] sample_leader () =
     (Inr adds, st', ())"
proof (rule Plan_succeeds [OF sample_input])
  show "\<forall>(m, d)\<in>set sample_members. \<exists>v. sample_unmarshal d = Inr v"
    by (simp add: sample_members_def sample_unmarshal_def)
  show "\<forall>p\<in>set [0, 1, 2, 3, 4]. \<forall>t. \<exists>i. GetOffset sample_ka p t () = Inr i"
    by (simp add: sample_ka_def)
  show "card (member_nodes sample_unmarshal sample_members) \<le>
      length (filter (\<lambda>p. \<not> nonempty sample_ka () p \<and> (\<forall>n. sample_f n \<noteq> p)) (tl [0, 1, 2, 3, 4]))"
    by (simp add: sample_nodes nonempty_def sample_ka_def sample_f_def)
qed

definition sample_groups :: "err + group_member list" where
  "sample_groups = Inr [\<lparr>gm_meta = Inr (Some ''a''), gm_assignment = Inr [1]\<rparr>,
     \<lparr>gm_meta = Inr (Some ''b''), gm_assignment = Inr [2]\<rparr>]"

theorem updateRoutes_spec_witness:
  "\<exists>st'. updateRoutes sample_unmarshal sample_groups sample_leader = (Ok (), st') \<and>
     wf_routes sample_sc Map.empty st' \<and> ''n2'' \<in> set (nodes_of st' ''Fork'')"
proof -
  have "fst (updateRoutes sample_unmarshal sample_groups sample_leader) = Ok ()" by code_simp
  then obtain st' where run: "updateRoutes sample_unmarshal sample_groups sample_leader = (Ok (), st')"
    by (cases "updateRoutes sample_unmarshal sample_groups sample_leader") auto
  from updateRoutes_spec [OF run, of sample_sc Map.empty] obtain ms where ms: "sample_groups = Inr ms"
    "\<And>s n. n \<in> set (nodes_of st' s) \<longleftrightarrow>
       (\<exists>d p. described sample_unmarshal ms d p \<and> i_Node d = n \<and> s \<in> set (i_Services d))"
    "(\<forall>d p. described sample_unmarshal ms d p \<longrightarrow> p \<noteq> 0 \<and> i_Node d \<noteq> []) \<Longrightarrow>
       wf_routes sample_sc Map.empty st'" by blast
  from ms(1) have ms': "ms = [\<lparr>gm_meta = Inr (Some ''a''), gm_assignment = Inr [1]\<rparr>,
     \<lparr>gm_meta = Inr (Some ''b''), gm_assignment = Inr [2]\<rparr>]" by (simp add: sample_groups_def)
  have "wf_routes sample_sc Map.empty st'"
  proof (rule ms(3), intro allI impI)
    fix d p
    assume "described sample_unmarshal ms d p"
    then have "Inr d = sample_unmarshal ''a'' \<and> p = 1 \<or> Inr d = sample_unmarshal ''b'' \<and> p = 2"
      by (auto simp: described_def ms')
    then show "p \<noteq> 0 \<and> i_Node d \<noteq> []" by (auto simp: sample_unmarshal_def)
  qed
  moreover have "described sample_unmarshal ms
      \<lparr>i_Node = ''n2'', i_Port = 80, i_Services = [''Fork''], i_Partition = 0\<rparr> 2"
    by (simp add: described_def ms' sample_unmarshal_def)
  then have "''n2'' \<in> set (nodes_of st' ''Fork'')"
    unfolding ms(2) by (intro exI conjI) (assumption, simp_all only: info.simps list.set insert_iff simp_thms)
  ultimately show ?thesis using run by blast
qed

end
