(* ===== verification/Rpc_Recovery.thy ===== *)
theory Rpc_Recovery
  imports Rpc_Strategy
begin

text \<open>
  \<^verbatim>\<open>src/core/pkg/rpc/transport.go\<close>: the consumer group handler.  A generation either consumes the
  partition of this node (\<^verbatim>\<open>ConsumeClaim\<close>), or this node leads a recovery (\<^verbatim>\<open>recover\<close>): it reads all
  partitions that hold messages, and sends the requests of dead nodes again unless they have been
  answered or a live node has them.

  A claim is the list of the records the broker delivers before the claim is closed.  The recovery is
  split as the code is: reading (\<open>read_message\<close>), the lowest sequence numbers (\<open>low_sequences\<close>), and
  the replay, which calls \<^const>\<open>resend\<close> and \<^const>\<open>respond\<close>.  \<open>actions\<close> is the list of those calls as
  a function of what was read, and the replay is shown to execute it.
\<close>

section \<open>Reading\<close>

record rec =
  orphans :: "Message list"
  orphans0 :: "Request list"
  calls :: "(string, string list) gomap"
  responses :: "string set"
  requests :: "string set"
  responses0 :: "string set"
  requests0 :: "(string, int) gomap"
  handled :: "(string, int) gomap"
  offsetsForDeletion :: "(int, offset_time) gomap"
  maxs :: "(string, int) gomap"
  latest :: "(string, Request) gomap"
  chains :: "(string, int set) gomap"

definition rec0 :: rec where
  "rec0 = \<lparr>orphans = [], orphans0 = [], calls = [], responses = {}, requests = {}, responses0 = {},
     requests0 = [], handled = [], offsetsForDeletion = [], maxs = [], latest = [], chains = []\<rparr>"

text \<open>A request read from partition \<open>p\<close>: sequence numbers, chains of tail calls and nested calls.\<close>

definition read_links :: "Request \<Rightarrow> rec \<Rightarrow> rec" where
  "read_links v d =
     (let k = reqID v;
          d = (if mget 0 (maxs d) k \<le> sequence v
               then d\<lparr>maxs := mput k (sequence v) (maxs d), latest := mput k v (latest d)\<rparr> else d);
          d = (case target v of
                 Session s \<Rightarrow>
                   if s_DeferredLockID s \<noteq> '''' then
                     d\<lparr>chains := mput k (insert (sequence v) (mget {} (chains d) k)) (chains d)\<rparr>
                   else d
               | _ \<Rightarrow> d)
      in case v of
           CallReq c \<Rightarrow>
             d\<lparr>calls := mput (cr_ParentID c) (mget [] (calls d) (cr_ParentID c) @ [cr_RequestID c]) (calls d)\<rparr>
         | TellReq _ \<Rightarrow> d)"

text \<open>\<open>lp\<close> tells whether a partition is connected to a live node (\<^verbatim>\<open>recovery[p]\<close>).\<close>

definition read_message :: "(int \<Rightarrow> bool) \<Rightarrow> int \<Rightarrow> Message \<Rightarrow> rec \<Rightarrow> rec" where
  "read_message lp p m d =
     (case m of
        Req v \<Rightarrow>
          (let k = reqID v; d = read_links v d
           in if \<not> lp p then
                (if p = 0 then
                   d\<lparr>orphans0 := orphans0 d @ [v], requests := insert k (requests d),
                     requests0 := if sequence v \<ge> mget 0 (requests0 d) k
                       then mput k (sequence v) (requests0 d) else requests0 d\<rparr>
                 else d\<lparr>orphans := orphans d @ [m]\<rparr>)
              else
                d\<lparr>handled := if sequence v \<ge> mget 0 (handled d) k
                    then mput k (sequence v) (handled d) else handled d,
                  requests := insert k (requests d)\<rparr>)
      | _ \<Rightarrow>
          (let k = requestID m
           in d\<lparr>responses := insert k (responses d), handled := mput k (2 ^ 30) (handled d),
                orphans := if \<not> lp p \<and> p \<noteq> 0 then orphans d @ [m] else orphans d,
                responses0 := if p = 0 then insert k (responses0 d) else responses0 d\<rparr>))"

text \<open>
  The loop over one claim: it ends when the offset \<open>stop\<close> is reached; a claim that is closed before
  is an interrupted session.
\<close>

fun read_claim :: "(int \<Rightarrow> bool) \<Rightarrow> int \<Rightarrow> int \<Rightarrow> int \<Rightarrow> ConsumerMessage list \<Rightarrow> rec \<Rightarrow> rec option" where
  "read_claim lp p stop next [] d = (if next < stop then None else Some d)"
| "read_claim lp p stop next (msg # msgs) d =
     (if next < stop
      then read_claim lp p stop (cm_Offset msg + 1) msgs (read_message lp p (decode msg) d)
      else Some d)"

text \<open>
  The loop over the claims.  \<open>claim\<close> gives the records of a partition, \<^const>\<open>None\<close> when the session
  ends before the claim shows up.
\<close>

fun read_claims ::
  "(int \<Rightarrow> bool) \<Rightarrow> (int, int) gomap \<Rightarrow> (int \<Rightarrow> ConsumerMessage list option) \<Rightarrow> int list \<Rightarrow> rec \<Rightarrow> rec option" where
  "read_claims lp nw claim [] d = Some d"
| "read_claims lp nw claim (p # ps) d =
     (case claim p of
        None \<Rightarrow> None
      | Some msgs \<Rightarrow>
          (case read_claim lp p (mget 0 nw p) 0 msgs d of
             None \<Rightarrow> None
           | Some d' \<Rightarrow>
               read_claims lp nw claim ps
                 (if \<not> lp p \<and> p \<noteq> 0
                  then d'\<lparr>offsetsForDeletion := mput p OffsetNewest (offsetsForDeletion d')\<rparr> else d')))"

section \<open>The lowest sequence numbers\<close>

text \<open>The loop \<^verbatim>\<open>for i := max[k]; i >= 0; i--\<close>: the first number that is not in the chain.\<close>

fun chain_start :: "int set \<Rightarrow> nat \<Rightarrow> int option" where
  "chain_start v i =
     (if int i \<notin> v then Some (int i) else case i of 0 \<Rightarrow> None | Suc j \<Rightarrow> chain_start v j)"

declare chain_start.simps [simp del]

definition low_sequences ::
  "((string, int) gomap \<Rightarrow> (string, int) gomap) \<Rightarrow> ((string, int set) gomap \<Rightarrow> (string, int set) gomap) \<Rightarrow>
    rec \<Rightarrow> (string, int) gomap" where
  "low_sequences rng_max rng_chains d =
     fold (\<lambda>(k, v) mn.
         let mx = mget 0 (maxs d) k
         in if mx < 0 then mn
            else case chain_start v (nat mx) of None \<Rightarrow> mn | Some i \<Rightarrow> mput k i mn)
       (rng_chains (chains d)) (fold (\<lambda>(k, v) mn. mput k v mn) (rng_max (maxs d)) [])"

section \<open>Replay\<close>

definition child_of :: "rec \<Rightarrow> string \<Rightarrow> string" where
  "child_of d k = fold (\<lambda>r childID. if r \<notin> responses d then r else childID) (mget [] (calls d) k) ''''"

fun release_lock :: "Target \<Rightarrow> Target" where
  "release_lock (Session t) = Session (t\<lparr>s_DeferredLockID := ''''\<rparr>)"
| "release_lock t = t"

fun restart :: "string \<Rightarrow> int \<Rightarrow> Request \<Rightarrow> Request" where
  "restart childID' mn (CallReq w) =
     CallReq (w\<lparr>cr_ChildID := childID', cr_Sequence := mn, cr_Target := release_lock (cr_Target w)\<rparr>)"
| "restart childID' mn (TellReq w) =
     TellReq (w\<lparr>tr_ChildID := childID', tr_Sequence := mn, tr_Target := release_lock (tr_Target w)\<rparr>)"

text \<open>Whether the request is to be sent again: neither handled nor done for in this recovery.\<close>

definition due :: "rec \<Rightarrow> (string, int) gomap \<Rightarrow> Request \<Rightarrow> bool" where
  "due d mn v \<longleftrightarrow>
     (let k = reqID v
      in (case map_of (handled d) k of None \<Rightarrow> True | Some s \<Rightarrow> s < mget 0 (maxs d) k) \<and>
         sequence v = mget 0 mn k)"

definition replay_request :: "rec \<Rightarrow> (string, int) gomap \<Rightarrow> Request \<Rightarrow> Request \<times> bool" where
  "replay_request d mn v =
     (let k = reqID v;
          v' = (case map_of (latest d) k of
                  None \<Rightarrow> v
                | Some w \<Rightarrow> restart (child_of d k) (mget 0 mn k) w);
          drp = (case map_of (requests0 d) k of None \<Rightarrow> False | Some s0 \<Rightarrow> s0 \<ge> mget 0 (maxs d) k)
      in (v', drp))"

fun replay ::
  "('r, 'p, 'k) env \<Rightarrow> nat \<Rightarrow> (nat \<Rightarrow> nat) \<Rightarrow> rec \<Rightarrow> (string, int) gomap \<Rightarrow> nat \<Rightarrow> Message list \<Rightarrow> string set \<Rightarrow>
    ('r, 'k) world \<Rightarrow> (unit result \<times> ('r, 'k) world) option" where
  "replay env fuel rnd d mn i [] seen w = Some (Ok (), w)"
| "replay env fuel rnd d mn i (msg # msgs) seen w =
     (let k = requestID msg
      in case msg of
           Req v \<Rightarrow>
             (if due d mn v then
                (if k \<in> seen then replay env fuel rnd d mn (Suc i) msgs seen w
                 else let (v', drp) = replay_request d mn v
                      in case resend env fuel (rnd i) v' drp w of
                           None \<Rightarrow> None
                         | Some (Ok _, w') \<Rightarrow> replay env fuel rnd d mn (Suc i) msgs (insert k seen) w'
                         | Some x \<Rightarrow> Some x)
              else replay env fuel rnd d mn (Suc i) msgs seen w)
         | _ \<Rightarrow>
             (if k \<in> requests d \<and> k \<notin> responses0 d then
                (case respond env \<lparr>dn_RequestID = k, dn_Deadline = deadline msg\<rparr> w of
                   (Ok _, w') \<Rightarrow> replay env fuel rnd d mn (Suc i) msgs seen w'
                 | x \<Rightarrow> Some x)
              else replay env fuel rnd d mn (Suc i) msgs seen w))"

text \<open>
  \<^verbatim>\<open>recover\<close> for the claim of partition 0 (the others only hand over their messages and wait).
  \<open>refresh\<close> is the outcome of \<^verbatim>\<open>RefreshMetadata\<close> and \<open>delete\<close> is \<^verbatim>\<open>DeleteRecords\<close>, whose error is ignored.
\<close>

definition recover ::
  "('r, 'p, 'k) env \<Rightarrow> nat \<Rightarrow> (nat \<Rightarrow> nat) \<Rightarrow>
    ((string, int) gomap \<Rightarrow> (string, int) gomap) \<Rightarrow> ((string, int set) gomap \<Rightarrow> (string, int set) gomap) \<Rightarrow>
    ((int, offset_time) gomap \<Rightarrow> 'k \<Rightarrow> 'k) \<Rightarrow> err option \<Rightarrow> int list \<Rightarrow> (int \<Rightarrow> ConsumerMessage list option) \<Rightarrow>
    ('r, 'k) world \<Rightarrow> (unit result \<times> ('r, 'k) world) option" where
  "recover env fuel rnd rng_max rng_chains delete refresh claims claim w =
     (let st = w_rpc w
      in case read_claims (attached st) (newest st) claim claims rec0 of
           None \<Rightarrow> Some (Error ErrCtx, w)
         | Some d \<Rightarrow>
             (case refresh of
                Some e \<Rightarrow> Some (Error e, w)
              | None \<Rightarrow>
                  (case replay env fuel rnd d (low_sequences rng_max rng_chains d) 0
                      (orphans d @ map Req (orphans0 d)) {} w of
                     Some (Ok _, w') \<Rightarrow>
                       Some (Ok (), w'\<lparr>w_kafka := delete (offsetsForDeletion d) (w_kafka w'),
                         w_rpc := (w_rpc w')\<lparr>offset0 := max0 (w_rpc w')\<rparr>\<rparr>)
                   | x \<Rightarrow> x)))"

section \<open>Consuming\<close>

text \<open>
  \<^verbatim>\<open>ConsumeClaim\<close> outside recovery: the messages handed to the processor, and the next offset to read.
\<close>

fun consume :: "ConsumerMessage list \<Rightarrow> int \<Rightarrow> Message list \<times> int" where
  "consume [] hd' = ([], hd')"
| "consume (msg # msgs) hd' =
     (if cm_Offset msg < hd' then consume msgs hd'
      else let (out, hd2) = consume msgs (cm_Offset msg + 1)
           in (case decode msg of DoneMsg _ \<Rightarrow> (out, hd2) | m \<Rightarrow> (m # out, hd2)))"

definition ConsumeClaim :: "ConsumerMessage list \<Rightarrow> rpc_state \<Rightarrow> Message list \<times> rpc_state" where
  "ConsumeClaim msgs st = (let (out, h) = consume msgs (head st) in (out, st\<lparr>head := h\<rparr>))"

section \<open>Generations\<close>

text \<open>
  \<^verbatim>\<open>Setup\<close> and \<^verbatim>\<open>Cleanup\<close> with the state of the writer lock (held or not).  \<^const>\<open>None\<close> is a call that
  blocks or faults on the lock: acquiring it when held, or releasing it when not.
\<close>

definition Setup ::
  "(string \<Rightarrow> err + info) \<Rightarrow> (err + group_member list) \<Rightarrow> err option \<Rightarrow> int list \<Rightarrow> rpc_state \<times> bool \<Rightarrow>
    (unit result \<times> rpc_state \<times> bool) option" where
  "Setup unmarshal groups refresh claims s =
     (case s of (st, locked) \<Rightarrow>
        if claims = [] then Some (Ok (), st, locked)
        else if recovery st \<noteq> None then Some (Ok (), st, locked)
        else let st = st\<lparr>self := (self st)\<lparr>i_Partition := claims ! 0\<rparr>\<rparr>
             in case updateRoutes unmarshal groups st of
                  (Ok _, st1) \<Rightarrow>
                    (case refresh of
                       Some e \<Rightarrow> Some (Error e, st1, locked)
                     | None \<Rightarrow>
                         if locked then Some (Ok (), st1\<lparr>tick := tick st1 + 1\<rparr>, False) else None)
                | (x, st1) \<Rightarrow> Some (x, st1, locked))"

definition Cleanup :: "int list \<Rightarrow> rpc_state \<times> bool \<Rightarrow> (rpc_state \<times> bool) option" where
  "Cleanup claims s =
     (case s of (st, locked) \<Rightarrow>
        if recovery st = None \<and> length claims > 0 then (if locked then None else Some (st, True))
        else Some (st, locked))"

section \<open>What was read\<close>

text \<open>The messages the loop over a claim reads, and the log of all claims, in order.\<close>

fun fetched :: "int \<Rightarrow> int \<Rightarrow> ConsumerMessage list \<Rightarrow> Message list" where
  "fetched stop next [] = []"
| "fetched stop next (msg # msgs) =
     (if next < stop then decode msg # fetched stop (cm_Offset msg + 1) msgs else [])"

definition claims_log ::
  "(int, int) gomap \<Rightarrow> (int \<Rightarrow> ConsumerMessage list option) \<Rightarrow> int list \<Rightarrow> (int \<times> Message) list" where
  "claims_log nw claim ps =
     concat (map (\<lambda>p. map (Pair p) (fetched (mget 0 nw p) 0 (case claim p of None \<Rightarrow> [] | Some ms \<Rightarrow> ms))) ps)"

definition read_log :: "(int \<Rightarrow> bool) \<Rightarrow> (int \<times> Message) list \<Rightarrow> rec \<Rightarrow> rec" where
  "read_log lp log d = fold (\<lambda>(p, m). read_message lp p m) log d"

lemma read_log_simps [simp]:
  "read_log lp [] d = d"
  "read_log lp ((p, m) # log) d = read_log lp log (read_message lp p m d)"
  "read_log lp (log @ log') d = read_log lp log' (read_log lp log d)"
  by (simp_all add: read_log_def)

lemma read_claim_log:
  "read_claim lp p stop next msgs d = Some d' \<Longrightarrow> d' = read_log lp (map (Pair p) (fetched stop next msgs)) d"
  by (induction lp p stop "next" msgs d rule: read_claim.induct) (auto split: if_splits)

lemma read_links_deletion:
  "read_links v (d\<lparr>offsetsForDeletion := x\<rparr>) = (read_links v d)\<lparr>offsetsForDeletion := x\<rparr>"
  by (cases v; cases "target v"; cases "mget 0 (maxs d) (reqID v) \<le> sequence v")
    (simp_all add: read_links_def Let_def)

lemma read_message_deletion:
  "read_message lp p m (d\<lparr>offsetsForDeletion := x\<rparr>) = (read_message lp p m d)\<lparr>offsetsForDeletion := x\<rparr>"
  by (cases m; cases "lp p"; cases "p = 0") (simp_all add: read_message_def read_links_deletion Let_def)

lemma read_log_deletion:
  "read_log lp log (d\<lparr>offsetsForDeletion := x\<rparr>) = (read_log lp log d)\<lparr>offsetsForDeletion := x\<rparr>"
  by (induction log arbitrary: d) (auto simp: read_message_deletion)

lemma read_claims_log:
  assumes "read_claims lp nw claim ps d = Some d'"
  shows "\<exists>x. d' = (read_log lp (claims_log nw claim ps) d)\<lparr>offsetsForDeletion := x\<rparr>"
  using assms
proof (induction ps arbitrary: d)
  case Nil
  then show ?case by (auto simp: claims_log_def intro!: exI [of _ "offsetsForDeletion d"])
next
  case (Cons p ps)
  then obtain msgs d1 where m: "claim p = Some msgs" "read_claim lp p (mget 0 nw p) 0 msgs d = Some d1"
    by (auto split: option.splits)
  then have d1: "d1 = read_log lp (map (Pair p) (fetched (mget 0 nw p) 0 msgs)) d"
    by (intro read_claim_log)
  have log: "claims_log nw claim (p # ps) =
      map (Pair p) (fetched (mget 0 nw p) 0 msgs) @ claims_log nw claim ps"
    using m by (simp add: claims_log_def)
  let ?d2 = "if \<not> lp p \<and> p \<noteq> 0
    then d1\<lparr>offsetsForDeletion := mput p OffsetNewest (offsetsForDeletion d1)\<rparr> else d1"
  have "read_claims lp nw claim ps ?d2 = Some d'" using Cons.prems m by simp
  from Cons.IH [OF this] obtain x where
    "d' = (read_log lp (claims_log nw claim ps) ?d2)\<lparr>offsetsForDeletion := x\<rparr>" by blast
  then show ?case unfolding log using d1 by (auto simp: read_log_deletion)
qed

section \<open>The replay as a list of actions\<close>

datatype action = Resend Request bool | Complete Done

fun actions ::
  "rec \<Rightarrow> (string, int) gomap \<Rightarrow> nat \<Rightarrow> Message list \<Rightarrow> string set \<Rightarrow> (nat \<times> action) list" where
  "actions d mn i [] seen = []"
| "actions d mn i (Req v # msgs) seen =
     (if due d mn v \<and> reqID v \<notin> seen then
        (i, case replay_request d mn v of (v', drp) \<Rightarrow> Resend v' drp) #
          actions d mn (Suc i) msgs (insert (reqID v) seen)
      else actions d mn (Suc i) msgs seen)"
| "actions d mn i (m # msgs) seen =
     (if requestID m \<in> requests d \<and> requestID m \<notin> responses0 d then
        (i, Complete \<lparr>dn_RequestID = requestID m, dn_Deadline = deadline m\<rparr>) #
          actions d mn (Suc i) msgs seen
      else actions d mn (Suc i) msgs seen)"

text \<open>Execution of the actions, up to the first that fails.\<close>

fun perform ::
  "('r, 'p, 'k) env \<Rightarrow> nat \<Rightarrow> (nat \<Rightarrow> nat) \<Rightarrow> nat \<times> action \<Rightarrow> ('r, 'k) world \<Rightarrow>
    (unit result \<times> ('r, 'k) world) option" where
  "perform env fuel rnd (i, Resend v drp) w = resend env fuel (rnd i) v drp w"
| "perform env fuel rnd (i, Complete m) w = Some (respond env m w)"

fun perform_all ::
  "('r, 'p, 'k) env \<Rightarrow> nat \<Rightarrow> (nat \<Rightarrow> nat) \<Rightarrow> (nat \<times> action) list \<Rightarrow> ('r, 'k) world \<Rightarrow>
    (unit result \<times> ('r, 'k) world) option" where
  "perform_all env fuel rnd [] w = Some (Ok (), w)"
| "perform_all env fuel rnd (a # as) w =
     (case perform env fuel rnd a w of
        Some (Ok _, w') \<Rightarrow> perform_all env fuel rnd as w'
      | x \<Rightarrow> x)"

lemma replay_performs:
  "replay env fuel rnd d mn i msgs seen w = perform_all env fuel rnd (actions d mn i msgs seen) w"
  by (induction d mn i msgs seen arbitrary: w rule: actions.induct)
    (auto simp: Let_def split: prod.splits option.splits result.splits)

section \<open>The tables as functions of the log\<close>

lemma read_links_fields:
  "maxs (read_links v d) =
     (if mget 0 (maxs d) (reqID v) \<le> sequence v then mput (reqID v) (sequence v) (maxs d) else maxs d)"
  "latest (read_links v d) =
     (if mget 0 (maxs d) (reqID v) \<le> sequence v then mput (reqID v) v (latest d) else latest d)"
  "calls (read_links v d) = (case v of TellReq _ \<Rightarrow> calls d | CallReq c \<Rightarrow>
     mput (cr_ParentID c) (mget [] (calls d) (cr_ParentID c) @ [cr_RequestID c]) (calls d))"
  "orphans (read_links v d) = orphans d" "orphans0 (read_links v d) = orphans0 d"
  "responses (read_links v d) = responses d" "requests (read_links v d) = requests d"
  "responses0 (read_links v d) = responses0 d" "requests0 (read_links v d) = requests0 d"
  "handled (read_links v d) = handled d"
  by (cases v; cases "target v"; simp add: read_links_def Let_def)+

lemma read_request_fields:
  "maxs (read_message lp p (Req v) d) = maxs (read_links v d)"
  "latest (read_message lp p (Req v) d) = latest (read_links v d)"
  "calls (read_message lp p (Req v) d) = calls (read_links v d)"
  "orphans (read_message lp p (Req v) d) = (if \<not> lp p \<and> p \<noteq> 0 then orphans d @ [Req v] else orphans d)"
  "orphans0 (read_message lp p (Req v) d) = (if \<not> lp p \<and> p = 0 then orphans0 d @ [v] else orphans0 d)"
  "responses (read_message lp p (Req v) d) = responses d"
  "responses0 (read_message lp p (Req v) d) = responses0 d"
  "requests (read_message lp p (Req v) d) =
     (if lp p \<or> p = 0 then insert (reqID v) (requests d) else requests d)"
  "handled (read_message lp p (Req v) d) =
     (if lp p \<and> mget 0 (handled d) (reqID v) \<le> sequence v then mput (reqID v) (sequence v) (handled d)
      else handled d)"
  by (cases "lp p"; cases "p = 0"; simp add: read_message_def Let_def read_links_fields)+

text \<open>Responses and completions.\<close>

definition is_answer :: "Message \<Rightarrow> bool" where
  "is_answer m \<longleftrightarrow> (case m of Req _ \<Rightarrow> False | _ \<Rightarrow> True)"

lemma read_answer_fields:
  assumes "is_answer m"
  shows "maxs (read_message lp p m d) = maxs d" "latest (read_message lp p m d) = latest d"
    "calls (read_message lp p m d) = calls d"
    "orphans (read_message lp p m d) = (if \<not> lp p \<and> p \<noteq> 0 then orphans d @ [m] else orphans d)"
    "orphans0 (read_message lp p m d) = orphans0 d"
    "responses (read_message lp p m d) = insert (requestID m) (responses d)"
    "responses0 (read_message lp p m d) =
       (if p = 0 then insert (requestID m) (responses0 d) else responses0 d)"
    "requests (read_message lp p m d) = requests d"
    "handled (read_message lp p m d) = mput (requestID m) (2 ^ 30) (handled d)"
  using assms by (cases m; simp add: is_answer_def read_message_def Let_def)+

lemma message_cases: obtains v where "m = Req v" | "is_answer m"
  by (cases m) (auto simp: is_answer_def)

lemmas read_fields = read_links_fields read_request_fields read_answer_fields

text \<open>The log seen as requests by id, answers, and what is queued where.\<close>

definition log_requests :: "(int \<times> Message) list \<Rightarrow> (int \<times> Request) list" where
  "log_requests log = concat (map (\<lambda>(p, m). case m of Req v \<Rightarrow> [(p, v)] | _ \<Rightarrow> []) log)"

definition answered :: "(int \<times> Message) list \<Rightarrow> string \<Rightarrow> bool" where
  "answered log k \<longleftrightarrow> (\<exists>(p, m)\<in>set log. is_answer m \<and> requestID m = k)"

definition top_sequence :: "(int \<times> Request) list \<Rightarrow> string \<Rightarrow> int" where
  "top_sequence rs k = fold max (map (\<lambda>(p, v). sequence v) (filter (\<lambda>(p, v). reqID v = k) rs)) 0"

definition small_sequences :: "(int \<times> Message) list \<Rightarrow> bool" where
  "small_sequences log \<longleftrightarrow> (\<forall>(p, v)\<in>set (log_requests log). 0 \<le> sequence v \<and> sequence v < 2 ^ 30)"

lemma log_requests_simps [simp]:
  "log_requests [] = []"
  "log_requests (log @ log') = log_requests log @ log_requests log'"
  "log_requests [(p, Req v)] = [(p, v)]"
  "is_answer m \<Longrightarrow> log_requests [(p, m)] = []"
  by (auto simp: log_requests_def is_answer_def split: Message.splits)

lemma answered_simps [simp]:
  "\<not> answered [] k"
  "answered (log @ log') k \<longleftrightarrow> answered log k \<or> answered log' k"
  "\<not> answered [(p, Req v)] k"
  "is_answer m \<Longrightarrow> answered [(p, m)] k \<longleftrightarrow> requestID m = k"
  by (auto simp: answered_def is_answer_def)

lemma top_sequence_simps [simp]:
  "top_sequence [] k = 0"
  "top_sequence (rs @ [(p, v)]) k =
     (if reqID v = k then max (sequence v) (top_sequence rs k) else top_sequence rs k)"
  by (simp_all add: top_sequence_def)

lemma small_sequences_simps [simp]:
  "small_sequences (log @ [(p, Req v)]) \<longleftrightarrow> small_sequences log \<and> 0 \<le> sequence v \<and> sequence v < 2 ^ 30"
  "is_answer m \<Longrightarrow> small_sequences (log @ [(p, m)]) = small_sequences log"
  by (auto simp: small_sequences_def)

lemma top_sequence_upper: "(p, v) \<in> set rs \<Longrightarrow> reqID v = k \<Longrightarrow> sequence v \<le> top_sequence rs k"
  by (induction rs rule: rev_induct) auto

lemma top_sequence_nonneg: "0 \<le> top_sequence rs k"
  by (induction rs rule: rev_induct) auto

lemma top_sequence_absent: "\<forall>p v. (p, v) \<in> set rs \<longrightarrow> reqID v \<noteq> k \<Longrightarrow> top_sequence rs k = 0"
  by (induction rs rule: rev_induct) auto

lemma tables_responses: "responses (read_log lp log rec0) = {k. answered log k}"
proof (induction log rule: rev_induct)
  case (snoc x log)
  obtain p m where x: "x = (p, m)" by fastforce
  show ?case
  proof (cases m rule: message_cases)
    case (1 v)
    then show ?thesis using snoc x by (auto simp: read_fields)
  next
    case 2
    then show ?thesis using snoc x by (auto simp: read_fields)
  qed
qed (simp add: rec0_def)

lemma tables_maxs:
  "small_sequences log \<Longrightarrow> mget 0 (maxs (read_log lp log rec0)) k = top_sequence (log_requests log) k"
proof (induction log rule: rev_induct)
  case (snoc x log)
  obtain p m where x: "x = (p, m)" by fastforce
  show ?case
  proof (cases m rule: message_cases)
    case (1 v)
    then show ?thesis using snoc x by (auto simp: read_fields)
  next
    case 2
    then show ?thesis using snoc x by (simp add: read_fields)
  qed
qed (simp add: rec0_def mget_def)

lemma tables_latest:
  "small_sequences log \<Longrightarrow>
    (case map_of (latest (read_log lp log rec0)) k of
       None \<Rightarrow> \<forall>p v. (p, v) \<in> set (log_requests log) \<longrightarrow> reqID v \<noteq> k
     | Some w \<Rightarrow> (\<exists>p. (p, w) \<in> set (log_requests log)) \<and> reqID w = k \<and>
         sequence w = top_sequence (log_requests log) k)"
proof (induction log rule: rev_induct)
  case (snoc x log)
  obtain p m where x: "x = (p, m)" by fastforce
  show ?case
  proof (cases m rule: message_cases)
    case (1 v)
    then show ?thesis
      using snoc x tables_maxs [of log lp "reqID v"] top_sequence_absent [of "log_requests log" k]
      by (cases "top_sequence (log_requests log) (reqID v) \<le> sequence v"; cases "reqID v = k")
        (auto simp: read_fields split: option.splits)
  next
    case 2
    then show ?thesis using snoc x by (auto simp: read_fields split: option.splits)
  qed
qed (simp add: rec0_def)

abbreviation live_requests :: "(int \<Rightarrow> bool) \<Rightarrow> (int \<times> Message) list \<Rightarrow> (int \<times> Request) list" where
  "live_requests lp log \<equiv> filter (\<lambda>(p, v). lp p) (log_requests log)"

lemma tables_handled:
  "small_sequences log \<Longrightarrow>
    map_of (handled (read_log lp log rec0)) k =
      (if answered log k then Some (2 ^ 30)
       else if \<exists>(p, v)\<in>set (live_requests lp log). reqID v = k
       then Some (top_sequence (live_requests lp log) k) else None)"
proof (induction log rule: rev_induct)
  case (snoc x log)
  obtain p m where x: "x = (p, m)" by fastforce
  show ?case
  proof (cases m rule: message_cases)
    case (1 v)
    have small: "small_sequences log" "0 \<le> sequence v" "sequence v < 2 ^ 30" using snoc.prems x 1 by simp_all
    note IH = snoc.IH [OF small(1)]
    have step: "handled (read_log lp (log @ [x]) rec0) =
        (if lp p \<and> mget 0 (handled (read_log lp log rec0)) (reqID v) \<le> sequence v
         then mput (reqID v) (sequence v) (handled (read_log lp log rec0)) else handled (read_log lp log rec0))"
      using x 1 by (simp add: read_fields)
    show ?thesis
    proof (cases "lp p \<and> reqID v = k")
      case True
      let ?L = "\<exists>(p, v)\<in>set (live_requests lp log). reqID v = k"
      have absent: "\<not> ?L \<Longrightarrow> top_sequence (live_requests lp log) k = 0"
        by (intro top_sequence_absent) auto
      have now: "\<exists>(p, v)\<in>set (live_requests lp (log @ [x])). reqID v = k"
        "answered (log @ [x]) k = answered log k"
        "top_sequence (live_requests lp (log @ [x])) k = max (sequence v) (top_sequence (live_requests lp log) k)"
        using True x 1 by auto
      have "mget 0 (handled (read_log lp log rec0)) k =
          (if answered log k then 2 ^ 30 else top_sequence (live_requests lp log) k)"
        unfolding mget_def IH using absent by simp
      then show ?thesis
        unfolding step using IH now True small absent by (cases "answered log k"; cases ?L) simp_all
    next
      case False
      then show ?thesis unfolding step using IH x 1 by auto
    qed
  next
    case 2
    then show ?thesis using snoc x by (auto simp: read_fields)
  qed
qed (simp add: rec0_def)

text \<open>The queues of dead nodes and of partition 0, and the nested calls of a request.\<close>

lemma tables_orphans:
  "orphans (read_log lp log rec0) = map snd (filter (\<lambda>(p, m). \<not> lp p \<and> p \<noteq> 0) log)"
  "map Req (orphans0 (read_log lp log rec0)) = map snd (filter (\<lambda>(p, m). \<not> lp p \<and> p = 0 \<and> \<not> is_answer m) log)"
proof (induction log rule: rev_induct)
  case (snoc x log)
  obtain p m where x: "x = (p, m)" by fastforce
  have "\<not> is_answer (Req v)" for v by (simp add: is_answer_def)
  then show "orphans (read_log lp (log @ [x]) rec0) = map snd (filter (\<lambda>(p, m). \<not> lp p \<and> p \<noteq> 0) (log @ [x]))"
    "map Req (orphans0 (read_log lp (log @ [x]) rec0)) =
      map snd (filter (\<lambda>(p, m). \<not> lp p \<and> p = 0 \<and> \<not> is_answer m) (log @ [x]))"
    using snoc x by (cases m rule: message_cases; auto simp: read_fields)+
qed (simp_all add: rec0_def)

lemma tables_calls:
  "r \<in> set (mget [] (calls (read_log lp log rec0)) k) \<longleftrightarrow>
     (\<exists>p c. (p, CallReq c) \<in> set (log_requests log) \<and> cr_ParentID c = k \<and> cr_RequestID c = r)"
proof (induction log rule: rev_induct)
  case (snoc x log)
  obtain p m where x: "x = (p, m)" by fastforce
  show ?case
  proof (cases m rule: message_cases)
    case (1 v)
    then show ?thesis using snoc x by (cases v) (auto simp: read_fields)
  next
    case 2
    then show ?thesis using snoc x by (simp add: read_fields)
  qed
qed (simp add: rec0_def mget_def)

lemma child_of_cases:
  "child_of d k = '''' \<and> set (mget [] (calls d) k) \<subseteq> responses d \<or>
   child_of d k \<in> set (mget [] (calls d) k) - responses d"
proof -
  have "fold (\<lambda>r c. if r \<notin> R then r else c) rs c0 = c0 \<and> set rs \<subseteq> R \<or>
      fold (\<lambda>r c. if r \<notin> R then r else c) rs c0 \<in> set rs - R" for rs and R :: "string set" and c0
  proof (induction rs arbitrary: c0)
    case (Cons a rs)
    show ?case using Cons.IH [of c0] Cons.IH [of a] by auto
  qed simp
  from this [of "responses d" "mget [] (calls d) k" "''''"] show ?thesis
    by (simp add: child_of_def)
qed

section \<open>Facts about the actions\<close>

lemma reqID_restart [simp]: "reqID (restart c mn w) = reqID w"
  by (cases w) simp_all

lemma Resend_due:
  "(j, Resend v drp) \<in> set (actions d mn i msgs seen) \<Longrightarrow>
    \<exists>u. Req u \<in> set msgs \<and> due d mn u \<and> reqID u \<notin> seen \<and> replay_request d mn u = (v, drp)"
  by (induction d mn i msgs seen rule: actions.induct) (auto split: if_splits prod.splits)

lemma due_Resend:
  "Req u \<in> set msgs \<Longrightarrow> due d mn u \<Longrightarrow> reqID u \<notin> seen \<Longrightarrow>
    \<exists>j v drp u'. (j, Resend v drp) \<in> set (actions d mn i msgs seen) \<and> reqID u' = reqID u \<and>
      Req u' \<in> set msgs \<and> replay_request d mn u' = (v, drp)"
proof (induction d mn i msgs seen rule: actions.induct)
  case (2 d mn i x msgs seen)
  show ?case
  proof (cases "due d mn x \<and> reqID x \<notin> seen \<and> reqID x = reqID u")
    case True
    obtain v drp where "replay_request d mn x = (v, drp)" by fastforce
    then have "(i, Resend v drp) \<in> set (actions d mn i (Req x # msgs) seen)" using True by auto
    then show ?thesis using True \<open>replay_request d mn x = (v, drp)\<close> by (meson list.set_intros(1))
  next
    case False
    then have "Req u \<in> set msgs" using "2.prems" by auto
    then show ?thesis
      using "2.IH" "2.prems"(2,3) False
      by (cases "due d mn x \<and> reqID x \<notin> seen") (fastforce, fastforce)
  qed
qed auto

fun resent :: "(nat \<times> action) list \<Rightarrow> string list" where
  "resent [] = []"
| "resent ((i, Resend v drp) # as) = reqID v # resent as"
| "resent ((i, Complete m) # as) = resent as"

lemma resent_iff: "k \<in> set (resent as) \<longleftrightarrow> (\<exists>i v drp. (i, Resend v drp) \<in> set as \<and> reqID v = k)"
  by (induction as rule: resent.induct) auto

lemma resent_distinct:
  assumes "\<And>u. Req u \<in> set msgs \<Longrightarrow> reqID (fst (replay_request d mn u)) = reqID u"
  shows "distinct (resent (actions d mn i msgs seen)) \<and> set (resent (actions d mn i msgs seen)) \<inter> seen = {}"
  using assms
proof (induction d mn i msgs seen rule: actions.induct)
  case (2 d mn i x msgs seen)
  obtain v drp where rr: "replay_request d mn x = (v, drp)" by fastforce
  then have "reqID v = reqID x" using "2.prems" [of x] by simp
  then show ?case using 2 rr by (cases "due d mn x \<and> reqID x \<notin> seen") auto
qed simp_all

lemma Complete_iff:
  "(\<exists>j. (j, Complete m) \<in> set (actions d mn i msgs seen)) \<longleftrightarrow>
    (\<exists>x\<in>set msgs. is_answer x \<and> requestID x \<in> requests d \<and> requestID x \<notin> responses0 d \<and>
       m = \<lparr>dn_RequestID = requestID x, dn_Deadline = deadline x\<rparr>)"
proof (induction d mn i msgs seen rule: actions.induct)
  case (2 d mn i x msgs seen)
  have "\<not> is_answer (Req x)" by (simp add: is_answer_def)
  then show ?case using 2 by (cases "due d mn x \<and> reqID x \<notin> seen") (auto split: prod.splits)
qed (auto simp: is_answer_def)

text \<open>
  A request is unhandled when nothing in the log answers it and no live node has it queued at its
  newest sequence number.
\<close>

definition unhandled :: "(int \<Rightarrow> bool) \<Rightarrow> (int \<times> Message) list \<Rightarrow> string \<Rightarrow> bool" where
  "unhandled lp log k \<longleftrightarrow> \<not> answered log k \<and>
     (\<forall>(p, v)\<in>set (live_requests lp log). reqID v = k \<longrightarrow> sequence v < top_sequence (log_requests log) k)"

lemma top_sequence_less:
  "0 < n \<Longrightarrow> \<forall>(p, v)\<in>set rs. reqID v = k \<longrightarrow> sequence v < n \<Longrightarrow> top_sequence rs k < n"
  by (induction rs rule: rev_induct) auto

lemma due_iff:
  assumes "small_sequences log"
  shows "due (read_log lp log rec0) mn u \<longleftrightarrow>
    unhandled lp log (reqID u) \<and> sequence u = mget 0 mn (reqID u)"
proof -
  let ?k = "reqID u" and ?top = "top_sequence (log_requests log) (reqID u)"
  let ?live = "\<exists>(p, v)\<in>set (live_requests lp log). reqID v = ?k"
  have "?top < 2 ^ 30"
    using assms by (intro top_sequence_less) (auto simp: small_sequences_def)
  moreover have "top_sequence (live_requests lp log) ?k < ?top \<longleftrightarrow>
      (\<forall>(p, v)\<in>set (live_requests lp log). reqID v = ?k \<longrightarrow> sequence v < ?top)" if ?live
  proof
    assume "top_sequence (live_requests lp log) ?k < ?top"
    then show "\<forall>(p, v)\<in>set (live_requests lp log). reqID v = ?k \<longrightarrow> sequence v < ?top"
      using top_sequence_upper [of _ _ "live_requests lp log" ?k] by fastforce
  next
    assume less: "\<forall>(p, v)\<in>set (live_requests lp log). reqID v = ?k \<longrightarrow> sequence v < ?top"
    with that assms have "0 < ?top" by (auto simp: small_sequences_def) fastforce
    then show "top_sequence (live_requests lp log) ?k < ?top" using less by (intro top_sequence_less)
  qed
  ultimately show ?thesis
    unfolding due_def Let_def tables_maxs [OF assms] tables_handled [OF assms] unhandled_def by auto
qed

text \<open>What is sent again for a request: its newest version in the log.\<close>

lemma replay_request_log:
  assumes "small_sequences log" and "(p, u) \<in> set (log_requests log)" and d_def: "d = read_log lp log rec0"
  shows "\<exists>w q. (q, w) \<in> set (log_requests log) \<and> reqID w = reqID u \<and>
    sequence w = top_sequence (log_requests log) (reqID u) \<and>
    fst (replay_request d mn u) = restart (child_of d (reqID u)) (mget 0 mn (reqID u)) w"
proof -
  obtain w where w: "map_of (latest d) (reqID u) = Some w"
    using tables_latest [OF assms(1), where lp = lp and k = "reqID u"] assms(2)
    unfolding d_def by (cases "map_of (latest (read_log lp log rec0)) (reqID u)") auto
  then have "\<exists>q. (q, w) \<in> set (log_requests log)" "reqID w = reqID u"
    "sequence w = top_sequence (log_requests log) (reqID u)"
    using tables_latest [OF assms(1), where lp = lp and k = "reqID u"] unfolding d_def by simp_all
  then show ?thesis using w by (auto simp: replay_request_def Let_def)
qed

text \<open>The messages the replay goes through: those of dead nodes, and the requests in partition 0.\<close>

definition replayed :: "(int \<Rightarrow> bool) \<Rightarrow> (int \<times> Message) list \<Rightarrow> Message list" where
  "replayed lp log = (let d = read_log lp log rec0 in orphans d @ map Req (orphans0 d))"

lemma log_requests_iff: "(p, v) \<in> set (log_requests log) \<longleftrightarrow> (p, Req v) \<in> set log"
  by (induction log rule: rev_induct) (auto simp: log_requests_def split: Message.splits)

lemma replayed_requests:
  "Req v \<in> set (replayed lp log) \<longleftrightarrow> (\<exists>p. (p, v) \<in> set (log_requests log) \<and> \<not> lp p)"
  unfolding replayed_def Let_def set_append Un_iff tables_orphans log_requests_iff
  by (fastforce simp: is_answer_def image_iff)

lemma replayed_answers:
  "is_answer m \<Longrightarrow> m \<in> set (replayed lp log) \<longleftrightarrow> (\<exists>p. (p, m) \<in> set log \<and> \<not> lp p \<and> p \<noteq> 0)"
  unfolding replayed_def Let_def set_append Un_iff tables_orphans by (fastforce simp: image_iff)

definition recovery_actions ::
  "((string, int) gomap \<Rightarrow> (string, int) gomap) \<Rightarrow> ((string, int set) gomap \<Rightarrow> (string, int set) gomap) \<Rightarrow>
    (int \<Rightarrow> bool) \<Rightarrow> (int \<times> Message) list \<Rightarrow> (nat \<times> action) list" where
  "recovery_actions rng_max rng_chains lp log =
     (let d = read_log lp log rec0 in actions d (low_sequences rng_max rng_chains d) 0 (replayed lp log) {})"

lemma actions_deletion [simp]:
  "actions (d\<lparr>offsetsForDeletion := x\<rparr>) mn i msgs seen = actions d mn i msgs seen"
proof -
  have "due (d\<lparr>offsetsForDeletion := x\<rparr>) mn v = due d mn v"
    "replay_request (d\<lparr>offsetsForDeletion := x\<rparr>) mn v = replay_request d mn v" for v
    by (simp_all add: due_def replay_request_def child_of_def Let_def split: option.splits)
  then show ?thesis by (induction d mn i msgs seen rule: actions.induct) simp_all
qed

lemma recovery_Resend:
  assumes "small_sequences log"
    and "(i, Resend v drp) \<in> set (recovery_actions rng_max rng_chains lp log)"
  defines "d \<equiv> read_log lp log rec0"
  shows "\<exists>p u q w. (p, u) \<in> set (log_requests log) \<and> \<not> lp p \<and> unhandled lp log (reqID u) \<and>
    sequence u = mget 0 (low_sequences rng_max rng_chains d) (reqID u) \<and>
    (q, w) \<in> set (log_requests log) \<and> reqID w = reqID u \<and>
    sequence w = top_sequence (log_requests log) (reqID u) \<and>
    v = restart (child_of d (reqID u)) (sequence u) w"
proof -
  let ?mn = "low_sequences rng_max rng_chains d"
  from Resend_due [OF assms(2) [unfolded recovery_actions_def Let_def, folded d_def]]
  obtain u where u: "Req u \<in> set (replayed lp log)" "due d ?mn u" "replay_request d ?mn u = (v, drp)"
    by blast
  then obtain p where p: "(p, u) \<in> set (log_requests log)" "\<not> lp p" by (auto simp: replayed_requests)
  have "unhandled lp log (reqID u)" "sequence u = mget 0 ?mn (reqID u)"
    using u(2) due_iff [OF assms(1)] by (simp_all add: d_def)
  moreover obtain w q where "(q, w) \<in> set (log_requests log)" "reqID w = reqID u"
    "sequence w = top_sequence (log_requests log) (reqID u)"
    "fst (replay_request d ?mn u) = restart (child_of d (reqID u)) (mget 0 ?mn (reqID u)) w"
    using replay_request_log [OF assms(1) p(1) d_def [THEN meta_eq_to_obj_eq], of ?mn] by blast
  ultimately show ?thesis
    using p u(3) by (intro exI [of _ p] exI [of _ u] exI [of _ q] exI [of _ w]) simp
qed

lemma child_of_log:
  "(\<exists>(r, v)\<in>set (log_requests log). \<exists>x. v = CallReq x \<and> cr_ParentID x = k \<and>
      cr_RequestID x = child_of (read_log lp log rec0) k \<and> \<not> answered log (child_of (read_log lp log rec0) k)) \<or>
   child_of (read_log lp log rec0) k = '''' \<and>
     (\<forall>r x. (r, CallReq x) \<in> set (log_requests log) \<and> cr_ParentID x = k \<longrightarrow> answered log (cr_RequestID x))"
  using child_of_cases [of "read_log lp log rec0" k]
  by (auto simp: tables_calls tables_responses subset_iff)

lemma distinct_count_list: "distinct xs \<Longrightarrow> x \<in> set xs \<Longrightarrow> count_list xs x = 1"
  by (induction xs) (auto simp: count_list_0_iff)

lemma resent_distinct_recovery:
  assumes "small_sequences log"
  shows "distinct (resent (recovery_actions rng_max rng_chains lp log))"
proof -
  have "reqID (fst (replay_request (read_log lp log rec0) mn u)) = reqID u"
    if req: "Req u \<in> set (replayed lp log)" for u mn
  proof -
    obtain p where "(p, u) \<in> set (log_requests log)" using req by (auto simp: replayed_requests)
    from replay_request_log [OF assms this refl, of lp mn] show ?thesis by auto
  qed
  then show ?thesis
    unfolding recovery_actions_def Let_def using resent_distinct by blast
qed

section \<open>Properties of recovery\<close>

text \<open>C4 no duplicates.
  The replay of a recovery sends a request at most once; and only a request that was queued on a dead
  node or in partition 0, that no response or completion anywhere in the log answers, and that no live
  node has at its newest sequence number.\<close>
theorem recovery_at_most_once:
  assumes "small_sequences log"
  shows "distinct (resent (recovery_actions rng_max rng_chains lp log)) \<and>
    (\<forall>k\<in>set (resent (recovery_actions rng_max rng_chains lp log)).
       \<not> answered log k \<and>
       (\<forall>(p, v)\<in>set (log_requests log). lp p \<and> reqID v = k \<longrightarrow>
          sequence v < top_sequence (log_requests log) k) \<and>
       (\<exists>(p, v)\<in>set (log_requests log). \<not> lp p \<and> reqID v = k))"
proof -
  let ?as = "recovery_actions rng_max rng_chains lp log"
  have "distinct (resent ?as)" by (rule resent_distinct_recovery [OF assms])
  moreover have "unhandled lp log k \<and> (\<exists>(p, v)\<in>set (log_requests log). \<not> lp p \<and> reqID v = k)"
    if "k \<in> set (resent ?as)" for k
  proof -
    obtain i v drp where "(i, Resend v drp) \<in> set ?as" "reqID v = k" using \<open>k \<in> set (resent ?as)\<close>
      by (auto simp: resent_iff)
    from recovery_Resend [OF assms this(1)] this(2) show ?thesis by auto
  qed
  ultimately show ?thesis by (fastforce simp: unhandled_def)
qed


lemma read_links_keeps_deletion: "offsetsForDeletion (read_links v d) = offsetsForDeletion d"
  by (cases v; cases "target v"; simp add: read_links_def Let_def)

lemma read_message_keeps_deletion:
  "offsetsForDeletion (read_message lp p m d) = offsetsForDeletion d"
  by (cases m; simp add: read_message_def Let_def read_links_keeps_deletion)

lemma read_log_keeps_deletion: "offsetsForDeletion (read_log lp log d) = offsetsForDeletion d"
  by (induction log arbitrary: d) (auto simp: read_message_keeps_deletion)

lemma read_claims_deletion:
  "read_claims lp nw claim ps d = Some d' \<Longrightarrow>
    set (keys (offsetsForDeletion d')) = set (keys (offsetsForDeletion d)) \<union> {p\<in>set ps. \<not> lp p \<and> p \<noteq> 0}"
  by (induction ps arbitrary: d)
    (auto split: option.splits if_splits dest!: read_claim_log simp: read_log_keeps_deletion)

text \<open>C6 recovery performs its actions.
  A recovery that could read its claims is the execution, in order and up to the first failure, of the
  actions computed from the log; only when all of them succeeded are the queues of dead nodes, and no
  others, handed over for deletion and the mark in partition 0 moved.\<close>
theorem recover_performs:
  assumes "read_claims (attached (w_rpc w)) (newest (w_rpc w)) claim claims rec0 = Some d"
  shows "recover env fuel rnd rng_max rng_chains delete None claims claim w =
      (case perform_all env fuel rnd (recovery_actions rng_max rng_chains (attached (w_rpc w))
           (claims_log (newest (w_rpc w)) claim claims)) w of
         Some (Ok _, w') \<Rightarrow> Some (Ok (), w'\<lparr>w_kafka := delete (offsetsForDeletion d) (w_kafka w'),
            w_rpc := (w_rpc w')\<lparr>offset0 := max0 (w_rpc w')\<rparr>\<rparr>)
       | x \<Rightarrow> x) \<and>
    set (keys (offsetsForDeletion d)) = {p\<in>set claims. \<not> attached (w_rpc w) p \<and> p \<noteq> 0}"
proof -
  from read_claims_log [OF assms] obtain x where
    d: "d = (read_log (attached (w_rpc w)) (claims_log (newest (w_rpc w)) claim claims) rec0)\<lparr>offsetsForDeletion := x\<rparr>"
    by blast
  have low: "low_sequences rng_max rng_chains (r\<lparr>offsetsForDeletion := x\<rparr>) = low_sequences rng_max rng_chains r" for r
    by (simp add: low_sequences_def)
  have "set (keys (offsetsForDeletion d)) = {p\<in>set claims. \<not> attached (w_rpc w) p \<and> p \<noteq> 0}"
    using read_claims_deletion [OF assms] by (simp add: rec0_def)
  then show ?thesis
    using assms unfolding recover_def Let_def replay_performs
    by (simp add: recovery_actions_def Let_def replayed_def low d split: option.splits prod.splits result.splits)
qed

section \<open>Consuming\<close>

definition handed_over :: "ConsumerMessage list \<Rightarrow> Message list" where
  "handed_over msgs = filter (\<lambda>m. case m of DoneMsg _ \<Rightarrow> False | _ \<Rightarrow> True) (map decode msgs)"

lemma consume_new:
  assumes "sorted_wrt (<) (map cm_Offset msgs)"
  shows "fst (consume msgs h) = handed_over (filter (\<lambda>m. h \<le> cm_Offset m) msgs) \<and>
    snd (consume msgs h) = (if filter (\<lambda>m. h \<le> cm_Offset m) msgs = [] then h else cm_Offset (List.last msgs) + 1)"
  using assms
proof (induction msgs arbitrary: h)
  case (Cons m msgs)
  show ?case
  proof (cases "cm_Offset m < h")
    case True
    then show ?thesis using Cons by auto
  next
    case False
    have "filter (\<lambda>x. cm_Offset m + 1 \<le> cm_Offset x) msgs = msgs" "filter (\<lambda>x. h \<le> cm_Offset x) msgs = msgs"
      using Cons.prems False by (auto intro!: filter_True)
    then show ?thesis
      using Cons.IH [of "cm_Offset m + 1"] Cons.prems False
      by (auto simp: handed_over_def split: Message.splits prod.splits)
  qed
qed (simp add: handed_over_def)

lemma resume_filter:
  assumes "sorted_wrt (<) (map cm_Offset (xs @ ys))" and "set xs' \<subseteq> set xs"
    and "h1 = (if filter (\<lambda>m. h \<le> cm_Offset m) xs = [] then h else cm_Offset (List.last xs) + 1)"
  shows "filter (\<lambda>m. h1 \<le> cm_Offset m) (xs' @ ys) = filter (\<lambda>m. h \<le> cm_Offset m) ys"
proof (cases "filter (\<lambda>m. h \<le> cm_Offset m) xs = []")
  case True
  then have "filter (\<lambda>m. h \<le> cm_Offset m) xs' = []" using assms(2) by (auto simp: filter_empty_conv)
  then show ?thesis using True assms(3) by simp
next
  case False
  then have xs: "xs \<noteq> []" by auto
  then have split: "xs = butlast xs @ [List.last xs]" by simp
  then have "sorted_wrt (<) (map cm_Offset (butlast xs @ [List.last xs]))"
    using assms(1) by (metis map_append sorted_wrt_append)
  then have le: "cm_Offset x \<le> cm_Offset (List.last xs)" if "x \<in> set xs" for x
    using that by (subst (asm) (3) split) (auto simp: sorted_wrt_append less_imp_le)
  have gt: "cm_Offset (List.last xs) < cm_Offset y" if "y \<in> set ys" for y
    using assms(1) that xs by (auto simp: sorted_wrt_append)
  obtain x where "x \<in> set xs" "h \<le> cm_Offset x" using False by (auto simp: filter_empty_conv)
  then have "h \<le> cm_Offset y" if "y \<in> set ys" for y using gt [OF that] le by fastforce
  then have "filter (\<lambda>m. h \<le> cm_Offset m) ys = ys" by (auto intro: filter_True)
  moreover have "filter (\<lambda>m. h1 \<le> cm_Offset m) ys = ys"
    using gt False assms(3) by (intro filter_True) (simp add: zless_imp_add1_zle)
  moreover have "filter (\<lambda>m. h1 \<le> cm_Offset m) xs' = []"
    using le False assms(2,3) by (fastforce simp: filter_empty_conv)
  ultimately show ?thesis by simp
qed

lemma handed_over_append: "handed_over (xs @ ys) = handed_over xs @ handed_over ys"
  by (simp add: handed_over_def)

text \<open>C8 consuming resumes.
  When the consumption of a partition is interrupted and taken up again from any record already seen,
  the processor gets every message once and in order: the two rounds together hand over what one
  uninterrupted round would.\<close>
theorem consume_resumes:
  assumes "sorted_wrt (<) (map cm_Offset log)" and "m \<le> n"
    and "ConsumeClaim (take n log) st = (out1, st1)" and "ConsumeClaim (drop m log) st1 = (out2, st2)"
  shows "out1 @ out2 = fst (ConsumeClaim log st) \<and>
    fst (ConsumeClaim log st) = handed_over (filter (\<lambda>m. head st \<le> cm_Offset m) log)"
proof -
  have sorted: "sorted_wrt (<) (map cm_Offset (take n log))" "sorted_wrt (<) (map cm_Offset (drop m log))"
    using assms(1) by (metis append_take_drop_id map_append sorted_wrt_append)+
  have out1: "out1 = handed_over (filter (\<lambda>m. head st \<le> cm_Offset m) (take n log))"
    and h1: "head st1 = (if filter (\<lambda>m. head st \<le> cm_Offset m) (take n log) = [] then head st
      else cm_Offset (List.last (take n log)) + 1)"
    using assms(3) consume_new [OF sorted(1), of "head st"]
    by (auto simp: ConsumeClaim_def split: prod.splits)
  have out2: "out2 = handed_over (filter (\<lambda>m. head st1 \<le> cm_Offset m) (drop m log))"
    using assms(4) consume_new [OF sorted(2), of "head st1"] by (auto simp: ConsumeClaim_def split: prod.splits)
  have "drop m log = drop m (take n log) @ drop n log"
    using assms(2) by (metis append_take_drop_id drop_take le_add_diff_inverse drop_drop add.commute)
  moreover have "filter (\<lambda>m. head st1 \<le> cm_Offset m) (drop m (take n log) @ drop n log) =
      filter (\<lambda>m. head st \<le> cm_Offset m) (drop n log)"
    using assms(1) h1 by (intro resume_filter [of "take n log"]) (auto dest: in_set_dropD)
  ultimately have "out2 = handed_over (filter (\<lambda>m. head st \<le> cm_Offset m) (drop n log))"
    using out2 by simp
  then have "out1 @ out2 = handed_over (filter (\<lambda>m. head st \<le> cm_Offset m) log)"
    using out1 by (metis append_take_drop_id filter_append handed_over_append)
  then show ?thesis
    using consume_new [OF assms(1), of "head st"] by (auto simp: ConsumeClaim_def split: prod.splits)
qed

section \<open>Generations\<close>

lemma update_members_frame:
  "update_members unmarshal ms st = (x, st') \<Longrightarrow>
    recovery st' = recovery st \<and> tick st' = tick st \<and> self st' = self st"
  by (induction unmarshal ms st rule: update_members.induct)
    (auto simp: Let_def split: sum.splits option.splits list.splits)

lemma updateRoutes_frame:
  "updateRoutes unmarshal groups st = (x, st') \<Longrightarrow>
    recovery st' = recovery st \<and> tick st' = tick st \<and> self st' = self st"
  by (auto simp: updateRoutes_def split: sum.splits dest!: update_members_frame)

text \<open>C9 the writer lock.
  Entered with the lock held, \<^verbatim>\<open>Setup\<close> never faults on it; when it succeeds, the lock is free exactly when
  this node consumes messages (it has claims and leads no recovery), and then its partition is the one it
  was given and waiting queries are woken; and the \<^verbatim>\<open>Cleanup\<close> of the generation neither blocks nor
  faults, and leaves the lock held for the next \<^verbatim>\<open>Setup\<close>, whatever was consumed in between.\<close>
theorem generation_lock:
  "\<exists>x st' locked. Setup unmarshal groups refresh claims (st, True) = Some (x, st', locked) \<and>
    (x = Ok () \<longrightarrow>
       (\<not> locked \<longleftrightarrow> claims \<noteq> [] \<and> recovery st = None) \<and>
       (\<not> locked \<longrightarrow> tick st' = tick st + 1 \<and> i_Partition (self st') = claims ! 0) \<and>
       (\<exists>st2. Cleanup claims (snd (ConsumeClaim msgs st'), locked) = Some (st2, True)))"
proof (cases "claims = [] \<or> recovery st \<noteq> None")
  case True
  then show ?thesis
    by (auto simp: Setup_def Cleanup_def ConsumeClaim_def split: prod.splits)
next
  case False
  obtain x st1 where upd: "updateRoutes unmarshal groups (st\<lparr>self := (self st)\<lparr>i_Partition := claims ! 0\<rparr>\<rparr>) = (x, st1)"
    by fastforce
  then show ?thesis
    using False updateRoutes_frame [OF upd]
    by (cases x; cases refresh) (auto simp: Setup_def Cleanup_def ConsumeClaim_def split: prod.splits)
qed

section \<open>Chains of tail calls\<close>

text \<open>A step that takes over the lock of the step before.\<close>

definition keeps_lock :: "Request \<Rightarrow> bool" where
  "keeps_lock v \<longleftrightarrow> (case target v of Session s \<Rightarrow> s_DeferredLockID s \<noteq> '''' | _ \<Rightarrow> False)"

lemma read_links_chains:
  "chains (read_links v d) = (if keeps_lock v
     then mput (reqID v) (insert (sequence v) (mget {} (chains d) (reqID v))) (chains d) else chains d)"
  by (cases v; cases "target v"; simp add: read_links_def Let_def keeps_lock_def)

lemma read_message_chains:
  "chains (read_message lp p (Req v) d) = chains (read_links v d)"
  "is_answer m \<Longrightarrow> chains (read_message lp p m d) = chains d"
  by (simp add: read_message_def Let_def) (cases m; simp add: read_message_def Let_def is_answer_def)

lemma tables_chains:
  "i \<in> mget {} (chains (read_log lp log rec0)) k \<longleftrightarrow>
    (\<exists>p v. (p, v) \<in> set (log_requests log) \<and> reqID v = k \<and> keeps_lock v \<and> sequence v = i)"
proof (induction log rule: rev_induct)
  case (snoc x log)
  obtain p m where x: "x = (p, m)" by fastforce
  show ?case
  proof (cases m rule: message_cases)
    case (1 v)
    then show ?thesis using snoc x by (auto simp: read_message_chains read_links_chains)
  next
    case 2
    then show ?thesis using snoc x by (simp add: read_message_chains)
  qed
qed (simp add: rec0_def mget_def)

lemma tables_wf: "wf_map (maxs (read_log lp log rec0)) \<and> wf_map (chains (read_log lp log rec0))"
proof (induction log rule: rev_induct)
  case (snoc x log)
  obtain p m where x: "x = (p, m)" by fastforce
  show ?case
    using snoc x by (cases m rule: message_cases)
      (simp_all add: read_message_chains read_links_chains read_fields wf_map_mput)
qed (simp add: rec0_def wf_map_def)

lemma chain_start_Some:
  "chain_start v n = Some i \<Longrightarrow> 0 \<le> i \<and> i \<le> int n \<and> i \<notin> v \<and> (\<forall>j. i < j \<and> j \<le> int n \<longrightarrow> j \<in> v)"
proof (induction n)
  case 0
  then show ?case by (auto simp: chain_start.simps [of v 0] split: if_splits)
next
  case (Suc n)
  then show ?case
    by (cases "int (Suc n) \<in> v") (auto simp: chain_start.simps [of v "Suc n"] le_less)
qed

lemma chain_start_None: "chain_start v n = None \<Longrightarrow> 0 \<le> j \<Longrightarrow> j \<le> int n \<Longrightarrow> j \<in> v"
proof (induction n)
  case 0
  then show ?case by (auto simp: chain_start.simps [of v 0] split: if_splits)
next
  case (Suc n)
  then have "int (Suc n) \<in> v" "chain_start v n = None"
    by (auto simp: chain_start.simps [of v "Suc n"] split: if_splits)
  then show ?case using Suc by (cases "j = int (Suc n)") auto
qed

text \<open>The two loops of the code, key by key.\<close>

definition low_of :: "int \<Rightarrow> int set option \<Rightarrow> int" where
  "low_of mx v = (case v of None \<Rightarrow> mx | Some v \<Rightarrow>
     if mx < 0 then mx else case chain_start v (nat mx) of None \<Rightarrow> mx | Some i \<Rightarrow> i)"

definition low_step :: "(string, int) gomap \<Rightarrow> string \<times> int set \<Rightarrow> (string, int) gomap \<Rightarrow> (string, int) gomap" where
  "low_step mx = (\<lambda>(k, v) mn. let m = mget 0 mx k in if m < 0 then mn
      else case chain_start v (nat m) of None \<Rightarrow> mn | Some i \<Rightarrow> mput k i mn)"

lemma mget_low_step:
  "mget 0 mn k = mget 0 mx k \<Longrightarrow> mget 0 (low_step mx (k, v) mn) k = low_of (mget 0 mx k) (Some v)"
  "r \<noteq> k \<Longrightarrow> mget 0 (low_step mx (k, v) mn) r = mget 0 mn r"
  by (auto simp: low_step_def low_of_def Let_def split: option.splits)

lemma low_fold:
  assumes "distinct (keys xs)" "\<And>k. k \<in> fst ` set xs \<Longrightarrow> mget 0 mn k = mget 0 mx k"
  shows "mget 0 (fold (low_step mx) xs mn) k =
    (case map_of xs k of None \<Rightarrow> mget 0 mn k | Some v \<Rightarrow> low_of (mget 0 mx k) (Some v))"
  using assms
proof (induction xs arbitrary: mn)
  case (Cons x xs)
  obtain q v where x: "x = (q, v)" by fastforce
  have nq: "q \<notin> fst ` set xs" using Cons.prems(1) x by auto
  then have none: "map_of xs q = None" by (simp add: map_of_eq_None_iff)
  have "mget 0 (low_step mx (q, v) mn) r = mget 0 mx r" if "r \<in> fst ` set xs" for r
  proof -
    have "r \<noteq> q" using that nq by blast
    then show ?thesis using that Cons.prems(2) [of r] by (simp add: mget_low_step(2))
  qed
  then have IH: "mget 0 (fold (low_step mx) xs (low_step mx (q, v) mn)) k =
      (case map_of xs k of None \<Rightarrow> mget 0 (low_step mx (q, v) mn) k | Some v \<Rightarrow> low_of (mget 0 mx k) (Some v))"
    using Cons.IH Cons.prems(1) by simp
  have "mget 0 mn q = mget 0 mx q" using Cons.prems(2) [of q] x by simp
  then show ?case
    using none unfolding x fold_simps(2) IH by (cases "k = q") (simp_all add: mget_low_step split: option.splits)
qed simp

text \<open>C7 restart points.
  For each request the sequence number the replay restarts from lies between 0 and the newest one in the
  log; every later step up to the newest took over the lock of the step before it; and the restart point
  itself did not, unless the log holds no step that acquired the lock, in which case it is the newest.\<close>
theorem low_sequences_spec:
  fixes lp :: "int \<Rightarrow> bool"
  assumes "range_order rng_max" "range_order rng_chains" "small_sequences log"
  defines "mn \<equiv> \<lambda>k. mget 0 (low_sequences rng_max rng_chains (read_log lp log rec0)) k"
    and "kept \<equiv> \<lambda>k i. \<exists>p v. (p, v) \<in> set (log_requests log) \<and> reqID v = k \<and> keeps_lock v \<and> sequence v = i"
  shows "0 \<le> mn k \<and> mn k \<le> top_sequence (log_requests log) k \<and>
    (\<forall>j. mn k < j \<and> j \<le> top_sequence (log_requests log) k \<longrightarrow> kept k j) \<and>
    (kept k (mn k) \<longrightarrow> mn k = top_sequence (log_requests log) k \<and>
       (\<forall>j. 0 \<le> j \<and> j \<le> top_sequence (log_requests log) k \<longrightarrow> kept k j))"
proof -
  let ?d = "read_log lp log rec0" and ?top = "top_sequence (log_requests log) k"
  note wf = tables_wf [of lp log]
  have maxs_eq: "mget 0 (fold (\<lambda>(k, v) mn. mput k v mn) (rng_max (maxs ?d)) []) q = mget 0 (maxs ?d) q" for q
    using range_order_map_of [OF assms(1)] range_order_wf [OF assms(1)] wf
    by (simp add: mget_def map_of_fold_mput)
  have ch: "map_of (rng_chains (chains ?d)) = map_of (chains ?d)" "distinct (keys (rng_chains (chains ?d)))"
    using range_order_map_of [OF assms(2)] range_order_wf [OF assms(2), of "chains ?d"] wf
    by (simp_all add: wf_map_def)
  have mn: "mn k = low_of ?top (map_of (chains ?d) k)"
    unfolding mn_def low_sequences_def low_step_def [symmetric]
    by (simp add: low_fold [OF ch(2)] maxs_eq ch(1) tables_maxs [OF assms(3)] low_of_def split: option.splits)
  have top: "0 \<le> ?top" by (rule top_sequence_nonneg)
  have kept: "kept k i \<longleftrightarrow> i \<in> mget {} (chains ?d) k" for i
    unfolding kept_def tables_chains by simp
  show ?thesis
  proof (cases "map_of (chains ?d) k")
    case None
    then have "\<not> kept k i" for i by (simp add: kept mget_def)
    then show ?thesis using mn top None by (simp add: low_of_def)
  next
    case (Some v)
    then have v: "kept k i \<longleftrightarrow> i \<in> v" for i by (simp add: kept mget_def)
    show ?thesis
    proof (cases "chain_start v (nat ?top)")
      case None
      then show ?thesis using mn top Some v chain_start_None [OF None] by (simp add: low_of_def)
    next
      case (Some i)
      then show ?thesis
        using mn top \<open>map_of (chains ?d) k = Some v\<close> v chain_start_Some [OF Some] by (simp add: low_of_def)
    qed
  qed
qed

section \<open>A sample log\<close>

definition sample_request :: "string \<Rightarrow> int \<Rightarrow> string \<Rightarrow> Request" where
  "sample_request k i lock = TellReq \<lparr>tr_RequestID = k, tr_Value = None, tr_Deadline = 0,
     tr_Target = Session \<lparr>s_Name = ''Fork'', s_ID = ''7'', s_Flow = ''f'', s_DeferredLockID = lock\<rparr>,
     tr_Method = ''m'', tr_Sequence = i, tr_ChildID = '''', tr_ParentID = '''', tr_IsEdited = False\<rparr>"

text \<open>
  Partition 1 belongs to a live node, partition 2 to a dead one: \<^verbatim>\<open>a\<close> is unanswered and went through two
  steps of a chain, \<^verbatim>\<open>b\<close> has been answered.
\<close>

definition sample_log :: "(int \<times> Message) list" where
  "sample_log = [(2, Req (sample_request ''a'' 0 '''')), (2, Req (sample_request ''a'' 1 ''l'')),
     (2, Req (sample_request ''b'' 0 '''')), (1, DoneMsg \<lparr>dn_RequestID = ''b'', dn_Deadline = 0\<rparr>)]"

definition sample_live :: "int \<Rightarrow> bool" where
  "sample_live p \<longleftrightarrow> p = 1"

lemma sample_small: "small_sequences sample_log"
  by (simp add: small_sequences_def sample_log_def log_requests_def sample_request_def)

theorem recovery_at_most_once_witness:
  "resent (recovery_actions (\<lambda>x. x) (\<lambda>x. x) sample_live sample_log) = [''a''] \<and>
   distinct (resent (recovery_actions (\<lambda>x. x) (\<lambda>x. x) sample_live sample_log))"
proof -
  have "resent (recovery_actions (\<lambda>x. x) (\<lambda>x. x) sample_live sample_log) = [''a'']"
    by code_simp
  then show ?thesis using recovery_at_most_once [OF sample_small, THEN conjunct1] by blast
qed


theorem low_sequences_spec_witness:
  "mget 0 (low_sequences (\<lambda>x. x) (\<lambda>x. x) (read_log sample_live sample_log rec0)) ''a''
     \<le> top_sequence (log_requests sample_log) ''a'' \<and>
   top_sequence (log_requests sample_log) ''a'' = 1"
proof -
  have "top_sequence (log_requests sample_log) ''a'' = 1" by code_simp
  then show ?thesis
    using low_sequences_spec [OF range_order_id range_order_id sample_small, of sample_live "''a''"] by blast
qed

definition sample_record :: "int \<Rightarrow> ConsumerMessage" where
  "sample_record i = \<lparr>cm_Headers = [(''Type'', ''Tell''), (''RequestID'', ''a''), (''Method'', ''m'')],
     cm_Value = None, cm_Offset = i\<rparr>"

definition sample_recovering :: "(mem, ProducerMessage list) world" where
  "sample_recovering = sample_w\<lparr>w_rpc := sample_st\<lparr>recovery := Some [(1, True)], newest := [(2, 1)]\<rparr>\<rparr>"

definition sample_claim :: "int \<Rightarrow> ConsumerMessage list option" where
  "sample_claim p = (if p = 2 then Some [sample_record 0] else Some [])"

theorem recover_performs_witness:
  "\<exists>d. read_claims (attached (w_rpc sample_recovering)) (newest (w_rpc sample_recovering)) sample_claim [0, 2] rec0 = Some d \<and>
     set (keys (offsetsForDeletion d)) = {2}"
proof -
  have "read_claims (attached (w_rpc sample_recovering)) (newest (w_rpc sample_recovering)) sample_claim [0, 2] rec0 \<noteq> None"
    by code_simp
  then obtain d where d: "read_claims (attached (w_rpc sample_recovering)) (newest (w_rpc sample_recovering))
      sample_claim [0, 2] rec0 = Some d" by blast
  have "{p\<in>set [0, 2]. \<not> attached (w_rpc sample_recovering) p \<and> p \<noteq> 0} = {2}" by code_simp
  then show ?thesis
    using recover_performs [OF d, THEN conjunct2] d by metis
qed

theorem consume_resumes_witness:
  "\<exists>out1 st1 out2 st2. ConsumeClaim (take 2 [sample_record 0, sample_record 1, sample_record 2]) sample_st = (out1, st1) \<and>
     ConsumeClaim (drop 1 [sample_record 0, sample_record 1, sample_record 2]) st1 = (out2, st2) \<and>
     out1 @ out2 = fst (ConsumeClaim [sample_record 0, sample_record 1, sample_record 2] sample_st)"
proof -
  obtain out1 st1 where 1: "ConsumeClaim (take 2 [sample_record 0, sample_record 1, sample_record 2]) sample_st = (out1, st1)"
    by fastforce
  obtain out2 st2 where 2: "ConsumeClaim (drop 1 [sample_record 0, sample_record 1, sample_record 2]) st1 = (out2, st2)"
    by fastforce
  have "sorted_wrt (<) (map cm_Offset [sample_record 0, sample_record 1, sample_record 2])"
    by (simp add: sample_record_def)
  from consume_resumes [OF this _ 1 2] show ?thesis using 1 2 by auto
qed

theorem generation_lock_witness:
  "\<exists>st'. Setup sample_unmarshal sample_groups None [1] (sample_st, True) = Some (Ok (), st', False) \<and>
     tick st' = 1 \<and> (\<exists>st2. Cleanup [1] (snd (ConsumeClaim [] st'), False) = Some (st2, True))"
proof -
  have "map_option fst (Setup sample_unmarshal sample_groups None [1] (sample_st, True)) = Some (Ok ())"
    by code_simp
  then obtain st' locked where run: "Setup sample_unmarshal sample_groups None [1] (sample_st, True) = Some (Ok (), st', locked)"
    by auto
  have "recovery sample_st = None" "tick sample_st = 0" by (simp_all add: sample_st_def)
  then show ?thesis
    using generation_lock [of sample_unmarshal sample_groups None "[1]" sample_st "[]"] run by auto
qed

end
