(* ===== verification/Rpc_Sessions.thy ===== *)
theory Rpc_Sessions
  imports Rpc_Routing
begin

text \<open>
  \<^verbatim>\<open>src/core/pkg/rpc/requests.go\<close>: the execution of requests.  A session instance runs one exclusive
  task at a time: every queued task waits for a token on the channel \<^verbatim>\<open>before\<close> and hands it on through
  \<^verbatim>\<open>after\<close>; nested requests of the same flow bypass the queue, and a tail call may take the token over.

  The goroutines are tasks with a program counter; a step of a task is the code between two points where
  it can be preempted or blocked.  The entry lock of an instance is only held within a step, so it is
  free between steps and has no place in the state.  Channels of capacity one are cells, named by the
  instance that made them and a number never used before.  What the
  handlers of the runtime return is an argument of the step that ends them, and messages given to
  \<^verbatim>\<open>sendOrDie\<close> are appended to \<open>outbox\<close> (their routing is the theory of \<^const>\<open>Send\<close>).
\<close>

section \<open>State\<close>

definition releasedFlow :: string where
  "releasedFlow = ''released''"

datatype cell = Empty | Full | Closed

type_synonym chan = "nat \<times> nat"

text \<open>A channel operation goes through, blocks, or panics.\<close>

datatype 'a chan_op = Goes 'a | Blocks | Panics

fun chan_send :: "cell \<Rightarrow> cell chan_op" where
  "chan_send Empty = Goes Full"
| "chan_send Full = Blocks"
| "chan_send Closed = Panics"

fun chan_recv :: "cell \<Rightarrow> cell chan_op" where
  "chan_recv Empty = Blocks"
| "chan_recv Full = Goes Empty"
| "chan_recv Closed = Goes Closed"

fun chan_close :: "cell \<Rightarrow> cell chan_op" where
  "chan_close Closed = Panics"
| "chan_close _ = Goes Closed"

record SessionInstance =
  in_Name :: string
  in_ID :: string
  ActiveFlow :: string
  Activated :: bool
  lastAccess :: time
  in_next :: chan
  valid :: bool

datatype pc =
    PBefore        \<comment> \<open>waits for its turn\<close>
  | PTimedOut      \<comment> \<open>gave up on the request, still has to hand the token on\<close>
  | PChild         \<comment> \<open>waits for the nested call of an earlier execution\<close>
  | PStart
  | PRunning       \<comment> \<open>in the handler\<close>
  | PRelease       \<comment> \<open>about to hand the token on\<close>
  | PDBefore       \<comment> \<open>deactivation: waits for its turn\<close>
  | PDCheck
  | PDCallback
  | PDFinish
  | PSend Message  \<comment> \<open>a goroutine that only sends a message\<close>

datatype site = AtService | AtNode | AtSession nat session | Detached

record task =
  t_at :: site
  t_msg :: "Request option"                     \<comment> \<open>\<^const>\<open>None\<close> for a deactivation\<close>
  t_before :: "chan option"
  t_wait :: "nat option"
  t_after :: "chan option"
  t_clear :: bool
  t_pc :: pc

record sess =
  sessionTable :: "(string \<times> string, nat) gomap"
  insts :: "nat \<Rightarrow> SessionInstance"
  ninst :: nat
  cells :: "chan \<Rightarrow> cell"
  ncell :: nat
  deferredLocks :: "(string, chan) gomap"
  pending :: "(string, nat) gomap"              \<comment> \<open>\<^verbatim>\<open>requests\<close>: request id to result channel\<close>
  results :: "nat \<Rightarrow> Result option"
  nresult :: nat
  tasks :: "nat \<Rightarrow> task option"
  ntask :: nat
  outbox :: "Message list"
  handlersService :: "string set"
  handlersSession :: "string set"
  handlersNode :: "string set"
  cancellation :: bool
  sessionBusyTimeout :: int
  ctx_done :: bool

abbreviation upd_inst :: "nat \<Rightarrow> (SessionInstance \<Rightarrow> SessionInstance) \<Rightarrow> sess \<Rightarrow> sess" where
  "upd_inst i f s \<equiv> s\<lparr>insts := (insts s)(i := f (insts s i))\<rparr>"

definition set_flow :: "nat \<Rightarrow> string \<Rightarrow> sess \<Rightarrow> sess" where
  "set_flow i fl s = upd_inst i (\<lambda>x. x\<lparr>ActiveFlow := fl\<rparr>) s"

definition spawn :: "task \<Rightarrow> sess \<Rightarrow> sess" where
  "spawn t s = s\<lparr>tasks := (tasks s)(ntask s \<mapsto> t), ntask := Suc (ntask s)\<rparr>"

definition send_out :: "Message \<Rightarrow> sess \<Rightarrow> sess" where
  "send_out m s = s\<lparr>outbox := outbox s @ [m]\<rparr>"

definition put_task :: "nat \<Rightarrow> task \<Rightarrow> sess \<Rightarrow> sess" where
  "put_task j t s = s\<lparr>tasks := (tasks s)(j \<mapsto> t)\<rparr>"

definition end_task :: "nat \<Rightarrow> sess \<Rightarrow> sess" where
  "end_task j s = s\<lparr>tasks := (tasks s)(j := None)\<rparr>"

text \<open>The record sent when a request is over: a response to a call, a completion of a tell.\<close>

definition completion :: "Request \<Rightarrow> string \<Rightarrow> bytes \<Rightarrow> Message" where
  "completion m errMsg value' =
     (case m of
        CallReq c \<Rightarrow> Resp \<lparr>rs_RequestID = cr_RequestID c, rs_Value = value', rs_Deadline = cr_Deadline c,
           rs_ErrMsg = errMsg, rs_Node = cr_Caller c\<rparr>
      | TellReq t \<Rightarrow> DoneMsg \<lparr>dn_RequestID = tr_RequestID t, dn_Deadline = tr_Deadline t\<rparr>)"

section \<open>Accepting messages\<close>

definition fresh_inst :: "session \<Rightarrow> chan \<Rightarrow> bool \<Rightarrow> SessionInstance" where
  "fresh_inst tg c waits = \<lparr>in_Name = s_Name tg, in_ID = s_ID tg,
     ActiveFlow = (if waits then s_Flow tg else releasedFlow), Activated = False, lastAccess = 0,
     in_next = c, valid = True\<rparr>"

text \<open>Step 1 of \<^verbatim>\<open>acceptSession\<close>: the valid instance of the table, or a new one; and whether it is new.\<close>

definition get_instance :: "session \<Rightarrow> bool \<Rightarrow> sess \<Rightarrow> nat \<times> bool \<times> sess" where
  "get_instance tg waits s =
     (let key = (s_Name tg, s_ID tg);
          found = (case map_of (sessionTable s) key of
                     Some i \<Rightarrow> if valid (insts s i) then Some i else None
                   | None \<Rightarrow> None)
      in case found of
           Some i \<Rightarrow> (i, False, s)
         | None \<Rightarrow>
             (ninst s, True,
              s\<lparr>insts := (insts s)(ninst s := fresh_inst tg (ninst s, ncell s) waits), ninst := Suc (ninst s),
                cells := (cells s)((ninst s, ncell s) := Full), ncell := Suc (ncell s),
                sessionTable := mput key (ninst s) (sessionTable s)\<rparr>))"

text \<open>Queue a task: the instance gets a new channel \<^verbatim>\<open>next\<close>, to be filled by the task.\<close>

definition enqueue :: "nat \<Rightarrow> task \<Rightarrow> sess \<Rightarrow> sess" where
  "enqueue i t s = spawn t (upd_inst i (\<lambda>x. x\<lparr>in_next := (i, ncell s)\<rparr>)
     (s\<lparr>cells := (cells s)((i, ncell s) := Empty), ncell := Suc (ncell s)\<rparr>))"

text \<open>Where a task goes after it has got the token, or when it needs none.\<close>

definition after_turn :: "nat option \<Rightarrow> pc" where
  "after_turn wait = (if wait = None then PStart else PChild)"

definition acceptSession :: "session \<Rightarrow> Request \<Rightarrow> nat option \<Rightarrow> sess \<Rightarrow> sess" where
  "acceptSession tg msg wait s0 =
     (case get_instance tg (wait \<noteq> None) s0 of
        (i, freshInstance, s) \<Rightarrow>
          let t = \<lparr>t_at = AtSession i tg, t_msg = Some msg, t_before = None, t_wait = wait, t_after = None,
                   t_clear = False, t_pc = after_turn wait\<rparr>
          in if \<not> freshInstance \<and> ActiveFlow (insts s i) = s_Flow tg then
               (let dl = (if s_DeferredLockID tg \<noteq> '''' then map_of (deferredLocks s) (s_DeferredLockID tg)
                          else None);
                    s = (if s_DeferredLockID tg \<noteq> ''''
                         then s\<lparr>deferredLocks := mdel (s_DeferredLockID tg) (deferredLocks s)\<rparr> else s)
                in spawn (t\<lparr>t_after := dl, t_clear := dl \<noteq> None\<rparr>) s)
             else if s_Flow tg = ''nonexclusive'' then spawn t s
             else
               enqueue i (t\<lparr>t_before := Some (in_next (insts s i)), t_after := Some (i, ncell s),
                 t_clear := True, t_pc := PBefore\<rparr>) s)"

text \<open>The channel on which a request sent again waits for the nested call of its earlier execution.\<close>

definition wait_channel :: "Request \<Rightarrow> sess \<Rightarrow> nat option \<times> sess" where
  "wait_channel m s =
     (if childID m \<noteq> '''' then
        (Some (nresult s), s\<lparr>pending := mput (childID m) (nresult s) (pending s),
           results := (results s)(nresult s := None), nresult := Suc (nresult s)\<rparr>)
      else (None, s))"

definition plain_task :: "site \<Rightarrow> Request \<Rightarrow> nat option \<Rightarrow> task" where
  "plain_task pl m wait = \<lparr>t_at = pl, t_msg = Some m, t_before = None, t_wait = wait, t_after = None,
     t_clear = False, t_pc = after_turn wait\<rparr>"

text \<open>
  \<^verbatim>\<open>accept\<close> at time \<open>now\<close>; \<open>txt\<close> is the text of the message about an expired deadline.
\<close>

definition accept_request :: "time \<Rightarrow> string \<Rightarrow> Request \<Rightarrow> sess \<Rightarrow> sess" where
  "accept_request now txt m s =
     (if deadline (Req m) \<noteq> 0 \<and> deadline (Req m) < now then
        spawn \<lparr>t_at = Detached, t_msg = None, t_before = None, t_wait = None, t_after = None, t_clear = False,
          t_pc = PSend (completion m txt None)\<rparr> s
      else case wait_channel m s of
        (wait, s1) \<Rightarrow>
          (case target m of
             Service _ \<Rightarrow> spawn (plain_task AtService m wait) s1
           | Session tg \<Rightarrow> acceptSession tg m wait s1
           | Node _ \<Rightarrow> spawn (plain_task AtNode m None) s1))"

definition accept_response :: "Response \<Rightarrow> sess \<Rightarrow> sess" where
  "accept_response m s =
     (case map_of (pending s) (rs_RequestID m) of
        None \<Rightarrow> s
      | Some ch \<Rightarrow>
          s\<lparr>pending := mdel (rs_RequestID m) (pending s),
            results := (results s)(ch \<mapsto> \<lparr>r_Value = rs_Value m,
              r_Err = if rs_ErrMsg m \<noteq> '''' then Some (ErrMsg (rs_ErrMsg m)) else None\<rparr>)\<rparr>)"

definition accept :: "time \<Rightarrow> string \<Rightarrow> Message \<Rightarrow> sess \<Rightarrow> sess" where
  "accept now txt msg s =
     (case msg of
        Resp m \<Rightarrow> accept_response m s
      | Req m \<Rightarrow> accept_request now txt m s
      | DoneMsg _ \<Rightarrow> s)"

section \<open>The steps of a task\<close>

text \<open>
  Each function is one step of task \<open>j\<close>, to be taken when the task is at that program counter.
\<close>

text \<open>The token arrives: \<^verbatim>\<open><-before\<close>.  \<open>uid\<close> is the uuid of the flow of a deactivation.\<close>

definition take_turn :: "string \<Rightarrow> nat \<Rightarrow> sess \<Rightarrow> sess chan_op" where
  "take_turn uid j s =
     (case tasks s j of
        Some t \<Rightarrow>
          (case (t_before t, t_at t) of
             (Some b, AtSession i tg) \<Rightarrow>
               (case chan_recv (cells s b) of
                  Goes x \<Rightarrow>
                    (let s1 = s\<lparr>cells := (cells s)(b := x)\<rparr>
                     in case t_pc t of
                          PBefore \<Rightarrow> Goes (put_task j (t\<lparr>t_pc := after_turn (t_wait t)\<rparr>) s1)
                        | PTimedOut \<Rightarrow> Goes (put_task j (t\<lparr>t_pc := PRelease\<rparr>) s1)
                        | PDBefore \<Rightarrow>
                            Goes (put_task j (t\<lparr>t_pc := PDCheck\<rparr>) (set_flow i (''flow-deactivate-'' @ uid) s1))
                        | _ \<Rightarrow> Blocks)
                | Blocks \<Rightarrow> Blocks
                | Panics \<Rightarrow> Panics)
           | _ \<Rightarrow> Blocks)
      | None \<Rightarrow> Blocks)"

text \<open>\<^verbatim>\<open>time.After(sessionBusyTimeout)\<close> fires first; \<open>txt\<close> is the text of the error.\<close>

definition time_out :: "string \<Rightarrow> nat \<Rightarrow> task \<Rightarrow> Request \<Rightarrow> sess \<Rightarrow> sess" where
  "time_out txt j t m s =
     put_task j (t\<lparr>t_pc := (if t_after t \<noteq> None then PTimedOut else after_turn (t_wait t))\<rparr>)
       (send_out (completion m txt None) s)"

text \<open>The response to the nested call of the earlier execution arrives on \<open>w\<close>.\<close>

definition child_done :: "nat \<Rightarrow> task \<Rightarrow> Request \<Rightarrow> nat \<Rightarrow> sess \<Rightarrow> sess" where
  "child_done j t m w s =
     (let s1 = s\<lparr>results := (results s)(w := None)\<rparr>;
          s2 = (case t_at t of
                  AtSession i _ \<Rightarrow> set_flow i releasedFlow s1
                | _ \<Rightarrow> s1\<lparr>pending := mdel (childID m) (pending s1)\<rparr>)
      in put_task j (t\<lparr>t_pc := PStart\<rparr>) s2)"

text \<open>What a handler returns: a value and possibly a tail call, or an error: its text, what
  \<^verbatim>\<open>json.Marshal\<close> makes of it, and whether it is the error of the context.\<close>

datatype outcome = Returned "Destination option" bytes | Failed string bytes bool

definition clear_flow :: "nat \<Rightarrow> task \<Rightarrow> sess \<Rightarrow> sess" where
  "clear_flow i t s = (if t_clear t then set_flow i releasedFlow s else s)"

text \<open>The end of \<^verbatim>\<open>handleSessionRequest\<close>: the task is over unless it has to release the next one.\<close>

definition to_release :: "nat \<Rightarrow> task \<Rightarrow> sess \<Rightarrow> sess" where
  "to_release j t s = (if t_after t \<noteq> None then put_task j (t\<lparr>t_pc := PRelease\<rparr>) s else end_task j s)"

definition tail_request :: "Request \<Rightarrow> Destination \<Rightarrow> time \<Rightarrow> bytes \<Rightarrow> Request" where
  "tail_request m d dl value' =
     (case m of
        CallReq c \<Rightarrow> CallReq \<lparr>cr_RequestID = cr_RequestID c, cr_Value = value', cr_Deadline = dl,
          cr_Target = d_Target d, cr_Method = d_Method d, cr_Caller = cr_Caller c,
          cr_Sequence = cr_Sequence c + 1, cr_ChildID = '''', cr_ParentID = '''', cr_IsEdited = False\<rparr>
      | TellReq t \<Rightarrow> TellReq \<lparr>tr_RequestID = tr_RequestID t, tr_Value = value', tr_Deadline = dl,
          tr_Target = d_Target d, tr_Method = d_Method d, tr_Sequence = tr_Sequence t + 1,
          tr_ChildID = '''', tr_ParentID = '''', tr_IsEdited = False\<rparr>)"

text \<open>The lock a tail call retains, if it does.\<close>

definition deferral :: "Destination \<Rightarrow> task \<Rightarrow> (string \<times> chan) option" where
  "deferral d t =
     (case (d_Target d, t_after t) of
        (Session nxt, Some c) \<Rightarrow> if s_DeferredLockID nxt \<noteq> '''' then Some (s_DeferredLockID nxt, c) else None
      | _ \<Rightarrow> None)"

definition finish_session :: "nat \<Rightarrow> task \<Rightarrow> nat \<Rightarrow> Request \<Rightarrow> outcome \<Rightarrow> sess \<Rightarrow> sess" where
  "finish_session j t i m r s =
     (case r of
        Failed txt json isCtx \<Rightarrow>
          (let s1 = clear_flow i t s
           in to_release j t (if isCtx then s1 else send_out (completion m txt json) s1))
      | Returned None v \<Rightarrow> to_release j t (send_out (completion m '''' v) (clear_flow i t s))
      | Returned (Some d) v \<Rightarrow>
          (case deferral d t of
             Some (l, c) \<Rightarrow>
               to_release j (t\<lparr>t_after := None, t_clear := False\<rparr>)
                 (send_out (Req (tail_request m d 0 v)) (s\<lparr>deferredLocks := mput l c (deferredLocks s)\<rparr>))
           | None \<Rightarrow>
               to_release j t
                 (send_out (Req (tail_request m d (deadline (Req m)) v)) (clear_flow i t s))))"

definition touch :: "time \<Rightarrow> session \<Rightarrow> nat \<Rightarrow> sess \<Rightarrow> sess" where
  "touch now tg i s =
     (if Activated (insts s i) \<and> s_Flow tg \<noteq> ''nonexclusive''
      then upd_inst i (\<lambda>x. x\<lparr>lastAccess := now\<rparr>) s else s)"

text \<open>The reply of a handler for a service or a node: a tell to a node is answered by nothing.\<close>

definition finish_plain :: "nat \<Rightarrow> task \<Rightarrow> Request \<Rightarrow> string \<Rightarrow> bytes \<Rightarrow> sess \<Rightarrow> sess" where
  "finish_plain j t m txt v s =
     end_task j
       (case (t_at t, m) of
          (AtNode, TellReq _) \<Rightarrow> s
        | _ \<Rightarrow> send_out (completion m txt v) s)"

definition undefined_method :: "Request \<Rightarrow> string" where
  "undefined_method m = ''undefined method '' @ method_of m"

text \<open>From the start of the execution to the call of the handler; \<open>n2p\<close> is \<^verbatim>\<open>node2partition\<close>.\<close>

definition start :: "(string, int) gomap \<Rightarrow> time \<Rightarrow> nat \<Rightarrow> task \<Rightarrow> Request \<Rightarrow> sess \<Rightarrow> sess" where
  "start n2p now j t m s =
     (case t_at t of
        AtSession i tg \<Rightarrow>
          (let s1 = (if t_before t \<noteq> None then set_flow i (s_Flow tg) s else s)
           in if method_of m \<notin> handlersSession s then
                to_release j t (send_out (completion m (undefined_method m) None) (clear_flow i t s1))
              else if (case m of CallReq c \<Rightarrow> cancellation s \<and> mget 0 n2p (cr_Caller c) = 0 | TellReq _ \<Rightarrow> False)
                then finish_session j t i m (Returned None None) (touch now tg i s1)
              else put_task j (t\<lparr>t_pc := PRunning\<rparr>) s1)
      | AtService \<Rightarrow>
          if method_of m \<in> handlersService s then put_task j (t\<lparr>t_pc := PRunning\<rparr>) s
          else finish_plain j t m (undefined_method m) None s
      | AtNode \<Rightarrow>
          if method_of m \<in> handlersNode s then put_task j (t\<lparr>t_pc := PRunning\<rparr>) s
          else finish_plain j t m (undefined_method m) None s
      | Detached \<Rightarrow> s)"

text \<open>The handler returns \<open>r\<close>, having set \<^verbatim>\<open>Activated\<close> to \<open>act\<close>.  Handlers of services and nodes have no tail calls.\<close>

definition returns :: "time \<Rightarrow> bool \<Rightarrow> outcome \<Rightarrow> nat \<Rightarrow> task \<Rightarrow> Request \<Rightarrow> sess \<Rightarrow> sess" where
  "returns now act r j t m s =
     (case t_at t of
        AtSession i tg \<Rightarrow>
          finish_session j t i m r (touch now tg i (upd_inst i (\<lambda>x. x\<lparr>Activated := act\<rparr>) s))
      | _ \<Rightarrow>
          (case r of
             Returned _ v \<Rightarrow> finish_plain j t m '''' v s
           | Failed txt json _ \<Rightarrow> finish_plain j t m txt json s))"

text \<open>\<^verbatim>\<open>after <- struct{}{}\<close>\<close>

definition release :: "nat \<Rightarrow> chan \<Rightarrow> sess \<Rightarrow> sess chan_op" where
  "release j c s =
     (case chan_send (cells s c) of
        Goes x \<Rightarrow> Goes (end_task j (s\<lparr>cells := (cells s)(c := x)\<rparr>))
      | Blocks \<Rightarrow> Blocks
      | Panics \<Rightarrow> Panics)"

section \<open>Collection of inactive sessions\<close>

text \<open>\<^verbatim>\<open>collectInactiveSessions\<close> at one entry of the table: schedule a deactivation.\<close>

definition collect_one :: "time \<Rightarrow> string \<times> string \<Rightarrow> sess \<Rightarrow> sess" where
  "collect_one bound key s =
     (case map_of (sessionTable s) key of
        None \<Rightarrow> s
      | Some i \<Rightarrow>
          if valid (insts s i) \<and> lastAccess (insts s i) < bound then
            enqueue i \<lparr>t_at = AtSession i \<lparr>s_Name = fst key, s_ID = snd key, s_Flow = '''', s_DeferredLockID = ''''\<rparr>,
              t_msg = None, t_before = Some (in_next (insts s i)), t_wait = None, t_after = Some (i, ncell s),
              t_clear = True, t_pc = PDBefore\<rparr> s
          else s)"

text \<open>The check whether any task was scheduled behind the deactivation.\<close>

definition can_deactivate :: "nat \<Rightarrow> chan \<Rightarrow> sess \<Rightarrow> bool" where
  "can_deactivate i saved s = (valid (insts s i) \<and> in_next (insts s i) = saved)"

definition deactivate_check :: "nat \<Rightarrow> task \<Rightarrow> nat \<Rightarrow> chan \<Rightarrow> sess \<Rightarrow> sess" where
  "deactivate_check j t i saved s =
     put_task j (t\<lparr>t_pc := (if can_deactivate i saved s \<and> Activated (insts s i) then PDCallback else PDFinish)\<rparr>) s"

text \<open>The callback returns, having set \<^verbatim>\<open>Activated\<close> to \<open>act\<close>.\<close>

definition deactivate_callback :: "bool \<Rightarrow> nat \<Rightarrow> task \<Rightarrow> nat \<Rightarrow> sess \<Rightarrow> sess" where
  "deactivate_callback act j t i s =
     put_task j (t\<lparr>t_pc := PDFinish\<rparr>) (upd_inst i (\<lambda>x. x\<lparr>Activated := act\<rparr>) s)"

definition deactivate_finish :: "nat \<Rightarrow> task \<Rightarrow> nat \<Rightarrow> session \<Rightarrow> chan \<Rightarrow> sess \<Rightarrow> sess chan_op" where
  "deactivate_finish j t i tg saved s =
     (let s1 = set_flow i releasedFlow s
      in if can_deactivate i saved s1 then
           (case chan_close (cells s1 saved) of
              Goes x \<Rightarrow>
                Goes (end_task j (upd_inst i (\<lambda>y. y\<lparr>valid := False\<rparr>)
                  (s1\<lparr>sessionTable := mdel (s_Name tg, s_ID tg) (sessionTable s1),
                      cells := (cells s1)(saved := x)\<rparr>)))
            | Blocks \<Rightarrow> Blocks
            | Panics \<Rightarrow> Panics)
         else Goes (put_task j (t\<lparr>t_pc := PRelease\<rparr>) s1))"

text \<open>The pass over the placement cache: an entry stays if it was used since the last pass.\<close>

definition sweep_entry :: "string \<times> placementCacheEntry \<Rightarrow> (string \<times> placementCacheEntry) option" where
  "sweep_entry p = (if pc_used (snd p) then Some (fst p, (snd p)\<lparr>pc_used := False\<rparr>) else None)"

definition sweep_cache :: "(string, placementCacheEntry) gomap \<Rightarrow> (string, placementCacheEntry) gomap" where
  "sweep_cache m = List.map_filter sweep_entry m"

text \<open>\<^verbatim>\<open>getLocalActivatedSessions\<close>, the context not cancelled.\<close>

fun group_active ::
  "string \<Rightarrow> (nat \<Rightarrow> SessionInstance) \<Rightarrow> ((string \<times> string) \<times> nat) list \<Rightarrow> (string, string list) gomap \<Rightarrow>
    (string, string list) gomap" where
  "group_active name ins [] m = m"
| "group_active name ins ((k, i) # es) m =
     group_active name ins es
       (let x = ins i
        in if valid x \<and> Activated x \<and> (name = '''' \<or> in_Name x = name)
           then mput (in_Name x) (mget [] m (in_Name x) @ [in_ID x]) m else m)"

definition getLocalActivatedSessions ::
  "(((string \<times> string) \<times> nat) list \<Rightarrow> ((string \<times> string) \<times> nat) list) \<Rightarrow> string \<Rightarrow> sess \<Rightarrow>
    (string, string list) gomap" where
  "getLocalActivatedSessions rng name s = group_active name (insts s) (rng (sessionTable s)) []"

section \<open>Issuing requests\<close>

text \<open>\<^verbatim>\<open>requests.Store(requestID, ch)\<close> with a new channel.\<close>

definition store_request :: "string \<Rightarrow> sess \<Rightarrow> sess" where
  "store_request rid s = s\<lparr>pending := mput rid (nresult s) (pending s),
     results := (results s)(nresult s := None), nresult := Suc (nresult s)\<rparr>"

definition reclaim :: "string \<Rightarrow> sess \<Rightarrow> sess" where
  "reclaim rid s = s\<lparr>pending := mdel rid (pending s)\<rparr>"

definition newRequestId :: "string \<Rightarrow> string" where
  "newRequestId uuid = ''req-'' @ uuid"

definition call_request :: "bool \<Rightarrow> string \<Rightarrow> Destination \<Rightarrow> time \<Rightarrow> string \<Rightarrow> bytes \<Rightarrow> Message" where
  "call_request edited rid d dl parent v = Req (CallReq \<lparr>cr_RequestID = rid, cr_Value = v, cr_Deadline = dl,
     cr_Target = d_Target d, cr_Method = d_Method d, cr_Caller = '''', cr_Sequence = 0, cr_ChildID = '''',
     cr_ParentID = parent, cr_IsEdited = edited\<rparr>)"

definition tell_request :: "bool \<Rightarrow> string \<Rightarrow> Destination \<Rightarrow> time \<Rightarrow> string \<Rightarrow> bytes \<Rightarrow> Message" where
  "tell_request edited rid d dl parent v = Req (TellReq \<lparr>tr_RequestID = rid, tr_Value = v, tr_Deadline = dl,
     tr_Target = d_Target d, tr_Method = d_Method d, tr_Sequence = 0, tr_ChildID = '''',
     tr_ParentID = parent, tr_IsEdited = edited\<rparr>)"

text \<open>
  \<^verbatim>\<open>async\<close>, \<^verbatim>\<open>asyncEdited\<close>, given the uuid of the request.  \<^const>\<open>None\<close>: out of fuel for the placement loop
  of \<^const>\<open>Send\<close>.
\<close>

definition issue ::
  "('r, 'p, 'k) env \<Rightarrow> nat \<Rightarrow> nat \<Rightarrow> string \<Rightarrow> Message \<Rightarrow>
    sess \<times> ('r, 'k) world \<Rightarrow> ((string \<times> nat) result \<times> sess \<times> ('r, 'k) world) option" where
  "issue env fuel rnd rid msg sw =
     (case sw of (s, w) \<Rightarrow>
        let s1 = store_request rid s
        in case Send env fuel rnd msg w of
             None \<Rightarrow> None
           | Some (Ok _, w') \<Rightarrow> Some (Ok (rid, nresult s), s1, w')
           | Some (Error e, w') \<Rightarrow> Some (Error e, reclaim rid s1, w')
           | Some (Panicked, w') \<Rightarrow> Some (Panicked, s1, w'))"

definition async ::
  "('r, 'p, 'k) env \<Rightarrow> nat \<Rightarrow> nat \<Rightarrow> string \<Rightarrow> Destination \<Rightarrow> time \<Rightarrow> string \<Rightarrow> bytes \<Rightarrow>
    sess \<times> ('r, 'k) world \<Rightarrow> ((string \<times> nat) result \<times> sess \<times> ('r, 'k) world) option" where
  "async env fuel rnd uuid d dl parent v =
     issue env fuel rnd (newRequestId uuid) (call_request False (newRequestId uuid) d dl parent v)"

definition asyncEdited ::
  "('r, 'p, 'k) env \<Rightarrow> nat \<Rightarrow> nat \<Rightarrow> string \<Rightarrow> Destination \<Rightarrow> time \<Rightarrow> string \<Rightarrow> bytes \<Rightarrow>
    sess \<times> ('r, 'k) world \<Rightarrow> ((string \<times> nat) result \<times> sess \<times> ('r, 'k) world) option" where
  "asyncEdited env fuel rnd uuid d dl parent v =
     issue env fuel rnd (newRequestId uuid) (call_request True (newRequestId uuid) d dl parent v)"

text \<open>The \<^verbatim>\<open>select\<close> of a call: \<^const>\<open>None\<close> while there is neither a result nor a cancellation.\<close>

definition call_wait :: "string \<Rightarrow> nat \<Rightarrow> sess \<Rightarrow> ((bytes \<times> err option) \<times> sess) option" where
  "call_wait rid ch s =
     (case results s ch of
        Some r \<Rightarrow> Some ((r_Value r, r_Err r), reclaim rid (s\<lparr>results := (results s)(ch := None)\<rparr>))
      | None \<Rightarrow> if ctx_done s then Some ((None, Some ErrCtx), reclaim rid s) else None)"

text \<open>
  \<^verbatim>\<open>call\<close>, \<^verbatim>\<open>callEdited\<close>: send the request with \<open>send\<close>, then wait.  \<open>meanwhile\<close> is what the rest of the process does
  until the \<^verbatim>\<open>select\<close> is looked at.
\<close>

definition await ::
  "((string \<times> nat) result \<times> sess \<times> 'w) option \<Rightarrow> (sess \<times> 'w \<Rightarrow> sess \<times> 'w) \<Rightarrow>
    ((bytes \<times> err option) result \<times> sess \<times> 'w) option" where
  "await sent meanwhile =
     (case sent of
        None \<Rightarrow> None
      | Some (Error e, s, w) \<Rightarrow> Some (Ok (None, Some e), s, w)
      | Some (Panicked, s, w) \<Rightarrow> Some (Panicked, s, w)
      | Some (Ok (rid, ch), s, w) \<Rightarrow>
          (case meanwhile (s, w) of
             (s', w') \<Rightarrow> map_option (\<lambda>(r, s2). (Ok r, s2, w')) (call_wait rid ch s')))"

definition call ::
  "('r, 'p, 'k) env \<Rightarrow> nat \<Rightarrow> nat \<Rightarrow> string \<Rightarrow> Destination \<Rightarrow> time \<Rightarrow> string \<Rightarrow> bytes \<Rightarrow>
    (sess \<times> ('r, 'k) world \<Rightarrow> sess \<times> ('r, 'k) world) \<Rightarrow> sess \<times> ('r, 'k) world \<Rightarrow>
    ((bytes \<times> err option) result \<times> sess \<times> ('r, 'k) world) option" where
  "call env fuel rnd uuid d dl parent v meanwhile sw =
     await (async env fuel rnd uuid d dl parent v sw) meanwhile"

definition callEdited ::
  "('r, 'p, 'k) env \<Rightarrow> nat \<Rightarrow> nat \<Rightarrow> string \<Rightarrow> Destination \<Rightarrow> time \<Rightarrow> string \<Rightarrow> bytes \<Rightarrow>
    (sess \<times> ('r, 'k) world \<Rightarrow> sess \<times> ('r, 'k) world) \<Rightarrow> sess \<times> ('r, 'k) world \<Rightarrow>
    ((bytes \<times> err option) result \<times> sess \<times> ('r, 'k) world) option" where
  "callEdited env fuel rnd uuid d dl parent v meanwhile sw =
     await (asyncEdited env fuel rnd uuid d dl parent v sw) meanwhile"

definition tell ::
  "('r, 'p, 'k) env \<Rightarrow> nat \<Rightarrow> nat \<Rightarrow> string \<Rightarrow> Destination \<Rightarrow> time \<Rightarrow> string \<Rightarrow> bytes \<Rightarrow>
    ('r, 'k) world \<Rightarrow> (unit result \<times> ('r, 'k) world) option" where
  "tell env fuel rnd uuid d dl parent v = Send env fuel rnd (tell_request False (newRequestId uuid) d dl parent v)"

definition tellEdited ::
  "('r, 'p, 'k) env \<Rightarrow> nat \<Rightarrow> nat \<Rightarrow> string \<Rightarrow> Destination \<Rightarrow> time \<Rightarrow> string \<Rightarrow> bytes \<Rightarrow>
    ('r, 'k) world \<Rightarrow> (unit result \<times> ('r, 'k) world) option" where
  "tellEdited env fuel rnd uuid d dl parent v = Send env fuel rnd (tell_request True (newRequestId uuid) d dl parent v)"

definition registerService :: "string \<Rightarrow> sess \<Rightarrow> sess" where
  "registerService m s = s\<lparr>handlersService := insert m (handlersService s)\<rparr>"

definition registerSession :: "string \<Rightarrow> sess \<Rightarrow> sess" where
  "registerSession m s = s\<lparr>handlersSession := insert m (handlersSession s)\<rparr>"

definition registerNode :: "string \<Rightarrow> sess \<Rightarrow> sess" where
  "registerNode m s = s\<lparr>handlersNode := insert m (handlersNode s)\<rparr>"

text \<open>The state at \<^verbatim>\<open>connect\<close>: the two settings come from the configuration.\<close>

definition connect :: "int \<Rightarrow> bool \<Rightarrow> sess" where
  "connect busy cancel = \<lparr>sessionTable = [],
     insts = (\<lambda>_. \<lparr>in_Name = '''', in_ID = '''', ActiveFlow = '''', Activated = False, lastAccess = 0,
       in_next = (0, 0), valid = False\<rparr>), ninst = 0, cells = (\<lambda>_. Empty), ncell = 0, deferredLocks = [],
     pending = [], results = (\<lambda>_. None), nresult = 0, tasks = (\<lambda>_. None), ntask = 0, outbox = [],
     handlersService = {}, handlersSession = {}, handlersNode = {}, cancellation = cancel,
     sessionBusyTimeout = busy, ctx_done = False\<rparr>"

section \<open>Interleaving\<close>

text \<open>The ids of deferred locks are new uuids (\<^verbatim>\<open>newLockId\<close>): no lock is stored over another.\<close>

definition fresh_lock :: "outcome \<Rightarrow> task \<Rightarrow> sess \<Rightarrow> bool" where
  "fresh_lock r t s =
     (case r of
        Returned (Some d) _ \<Rightarrow>
          (case deferral d t of Some (l, _) \<Rightarrow> map_of (deferredLocks s) l = None | None \<Rightarrow> True)
      | _ \<Rightarrow> True)"

inductive step :: "sess \<Rightarrow> sess \<Rightarrow> bool" where
  step_accept: "step s (accept now txt msg s)"
| step_turn: "take_turn uid j s = Goes s' \<Longrightarrow> step s s'"
| step_timeout: "tasks s j = Some t \<Longrightarrow> t_pc t = PBefore \<Longrightarrow> t_msg t = Some m \<Longrightarrow> 0 < sessionBusyTimeout s \<Longrightarrow>
    step s (time_out txt j t m s)"
| step_child: "tasks s j = Some t \<Longrightarrow> t_pc t = PChild \<Longrightarrow> t_msg t = Some m \<Longrightarrow> t_wait t = Some w \<Longrightarrow>
    results s w \<noteq> None \<Longrightarrow> step s (child_done j t m w s)"
| step_start: "tasks s j = Some t \<Longrightarrow> t_pc t = PStart \<Longrightarrow> t_msg t = Some m \<Longrightarrow>
    step s (start n2p now j t m s)"
| step_returns: "tasks s j = Some t \<Longrightarrow> t_pc t = PRunning \<Longrightarrow> t_msg t = Some m \<Longrightarrow> fresh_lock r t s \<Longrightarrow>
    step s (returns now act r j t m s)"
| step_release: "tasks s j = Some t \<Longrightarrow> t_pc t = PRelease \<Longrightarrow> t_after t = Some c \<Longrightarrow>
    release j c s = Goes s' \<Longrightarrow> step s s'"
| step_send: "tasks s j = Some t \<Longrightarrow> t_at t = Detached \<Longrightarrow> t_pc t = PSend msg \<Longrightarrow> step s (end_task j (send_out msg s))"
| step_collect: "step s (collect_one bound key s)"
| step_check: "tasks s j = Some t \<Longrightarrow> t_pc t = PDCheck \<Longrightarrow> t_at t = AtSession i tg \<Longrightarrow> t_after t = Some c \<Longrightarrow>
    step s (deactivate_check j t i c s)"
| step_callback: "tasks s j = Some t \<Longrightarrow> t_pc t = PDCallback \<Longrightarrow> t_at t = AtSession i tg \<Longrightarrow>
    step s (deactivate_callback act j t i s)"
| step_deactivated: "tasks s j = Some t \<Longrightarrow> t_pc t = PDFinish \<Longrightarrow> t_at t = AtSession i tg \<Longrightarrow>
    t_after t = Some c \<Longrightarrow> deactivate_finish j t i tg c s = Goes s' \<Longrightarrow> step s s'"
| step_done: "step s (s\<lparr>ctx_done := True\<rparr>)"
| step_cancel: "tasks s j = Some t \<Longrightarrow> t_pc t \<in> {PBefore, PTimedOut, PChild, PDBefore} \<Longrightarrow> ctx_done s \<Longrightarrow>
    step s (end_task j s)"
| step_request: "step s (store_request rid s)"
| step_reclaim: "step s (reclaim rid s)"
| step_result: "call_wait rid ch s = Some (r, s') \<Longrightarrow> step s s'"
| step_service: "step s (registerService m s)"
| step_session: "step s (registerSession m s)"
| step_node: "step s (registerNode m s)"

inductive reachable :: "sess \<Rightarrow> bool" where
  reachable_connect: "reachable (connect busy cancel)"
| reachable_step: "reachable s \<Longrightarrow> step s s' \<Longrightarrow> reachable s'"

end
