(* ===== verification/Rpc_Exclusion.thy ===== *)
theory Rpc_Exclusion
  imports Rpc_Sessions
begin

text \<open>
  The correctness of the scheduling of sessions: every valid instance has exactly one token, whatever
  the interleaving of arriving messages, tasks, timeouts, tail calls and deactivations.  From it follow
  exclusive execution, that no channel operation panics, and that a release never blocks.
\<close>

section \<open>Token conservation\<close>

text \<open>
  Who has the token of an instance: a channel that holds it, a task past its turn that has to hand it
  on, or a deferred lock.
\<close>

datatype token = InCell chan | HeldBy nat | Deferred string

definition waiting :: "task \<Rightarrow> bool" where
  "waiting t = (t_pc t \<in> {PBefore, PTimedOut, PDBefore})"

definition task_tok :: "task \<Rightarrow> nat option" where
  "task_tok t = (if waiting t then None else map_option fst (t_after t))"

fun tok :: "sess \<Rightarrow> token \<Rightarrow> nat option" where
  "tok s (InCell c) = (if cells s c = Full then Some (fst c) else None)"
| "tok s (HeldBy j) = Option.bind (tasks s j) task_tok"
| "tok s (Deferred l) = map_option fst (map_of (deferredLocks s) l)"

fun site_inst :: "site \<Rightarrow> nat option" where
  "site_inst (AtSession i tg) = Some i"
| "site_inst _ = None"

fun site_ok :: "sess \<Rightarrow> site \<Rightarrow> bool" where
  "site_ok s (AtSession i tg) \<longleftrightarrow>
     i < ninst s \<and> in_Name (insts s i) = s_Name tg \<and> in_ID (insts s i) = s_ID tg"
| "site_ok s _ \<longleftrightarrow> True"

fun turn_ok :: "sess \<Rightarrow> site \<Rightarrow> chan option \<Rightarrow> chan option \<Rightarrow> bool" where
  "turn_ok s p None a \<longleftrightarrow> True"
| "turn_ok s p (Some b) a \<longleftrightarrow>
     site_inst p = Some (fst b) \<and> snd b < snd (in_next (insts s (fst b))) \<and>
     (case a of Some c \<Rightarrow> fst c = fst b | None \<Rightarrow> True)"

fun chan_ok :: "nat \<Rightarrow> chan option \<Rightarrow> bool" where
  "chan_ok n None \<longleftrightarrow> True"
| "chan_ok n (Some c) \<longleftrightarrow> snd c < n"

definition wf_task :: "sess \<Rightarrow> task \<Rightarrow> bool" where
  "wf_task s t \<longleftrightarrow>
     (waiting t \<longrightarrow> t_before t \<noteq> None \<and> t_after t \<noteq> None) \<and>
     (t_pc t \<in> {PRelease, PDCheck, PDCallback, PDFinish} \<longrightarrow> t_after t \<noteq> None) \<and>
     (site_inst (t_at t) = None \<longrightarrow> t_after t = None) \<and>
     site_ok s (t_at t) \<and> turn_ok s (t_at t) (t_before t) (t_after t) \<and> chan_ok (ncell s) (t_after t)"

definition tok_inv :: "sess \<Rightarrow> bool" where
  "tok_inv s \<longleftrightarrow>
     (\<forall>x i. tok s x = Some i \<longrightarrow> i < ninst s \<and> valid (insts s i)) \<and>
     (\<forall>x y i. tok s x = Some i \<longrightarrow> tok s y = Some i \<longrightarrow> x = y) \<and>
     (\<not> ctx_done s \<longrightarrow> (\<forall>i < ninst s. valid (insts s i) \<longrightarrow> (\<exists>x. tok s x = Some i)))"

definition cell_inv :: "sess \<Rightarrow> bool" where
  "cell_inv s \<longleftrightarrow>
     (\<forall>c. cells s c \<noteq> Empty \<longrightarrow> snd c < ncell s) \<and>
     (\<forall>l. chan_ok (ncell s) (map_of (deferredLocks s) l)) \<and>
     (\<forall>c. cells s c = Closed \<longrightarrow> fst c < ninst s \<and> \<not> valid (insts s (fst c)) \<and> in_next (insts s (fst c)) = c) \<and>
     (\<forall>i < ninst s. fst (in_next (insts s i)) = i \<and> snd (in_next (insts s i)) < ncell s)"

definition table_inv :: "sess \<Rightarrow> bool" where
  "table_inv s \<longleftrightarrow> wf_map (sessionTable s) \<and>
     (\<forall>k i. map_of (sessionTable s) k = Some i \<longleftrightarrow>
        i < ninst s \<and> valid (insts s i) \<and> (in_Name (insts s i), in_ID (insts s i)) = k)"

definition task_inv :: "sess \<Rightarrow> bool" where
  "task_inv s \<longleftrightarrow> (\<forall>j t. tasks s j = Some t \<longrightarrow> j < ntask s \<and> wf_task s t)"

definition sess_inv :: "sess \<Rightarrow> bool" where
  "sess_inv s \<longleftrightarrow> tok_inv s \<and> cell_inv s \<and> table_inv s \<and> task_inv s"

text \<open>What the invariant reads of the state.\<close>

definition core where
  "core s = (cells s, tasks s, deferredLocks s, ninst s, ncell s, sessionTable s, ntask s, ctx_done s,
     (\<lambda>i. (in_Name (insts s i), in_ID (insts s i), in_next (insts s i), valid (insts s i))))"

lemma coreD:
  assumes "core s = core s'"
  shows "cells s = cells s'" "tasks s = tasks s'" "deferredLocks s = deferredLocks s'" "ninst s = ninst s'"
    "ncell s = ncell s'" "sessionTable s = sessionTable s'" "ntask s = ntask s'" "ctx_done s = ctx_done s'"
    "in_Name (insts s i) = in_Name (insts s' i)" "in_ID (insts s i) = in_ID (insts s' i)"
    "in_next (insts s i) = in_next (insts s' i)" "valid (insts s i) = valid (insts s' i)"
  using assms by (auto simp: core_def dest: fun_cong [of _ _ i])

lemma tok_core: "core s = core s' \<Longrightarrow> tok s = tok s'"
  by (rule ext, case_tac x) (simp_all add: coreD(1-3) [of s s'])

lemma site_ok_core: "core s = core s' \<Longrightarrow> site_ok s p = site_ok s' p"
  by (cases p) (simp_all add: coreD [of s s'])

lemma turn_ok_core: "core s = core s' \<Longrightarrow> turn_ok s p b a = turn_ok s' p b a"
  by (cases b) (simp_all add: coreD [of s s'])

lemma wf_task_core: "core s = core s' \<Longrightarrow> wf_task s = wf_task s'"
  by (rule ext) (simp add: wf_task_def site_ok_core [of s s'] turn_ok_core [of s s'] coreD(5) [of s s'])

lemma sess_inv_core: "core s = core s' \<Longrightarrow> sess_inv s = sess_inv s'"
  by (simp add: sess_inv_def tok_inv_def cell_inv_def table_inv_def task_inv_def tok_core [of s s']
      wf_task_core [of s s'] coreD [of s s'])

lemma core_simps [simp]:
  "core (set_flow i fl s) = core s"
  "core (send_out m s) = core s"
  "core (clear_flow i t s) = core s"
  "core (touch now tg i s) = core s"
  "core (upd_inst i (\<lambda>x. x\<lparr>Activated := act\<rparr>) s) = core s"
  "core (s\<lparr>pending := p\<rparr>) = core s"
  "core (s\<lparr>results := r\<rparr>) = core s"
  "core (s\<lparr>nresult := n\<rparr>) = core s"
  "core (store_request rid s) = core s"
  "core (reclaim rid s) = core s"
  "core (registerService m' s) = core s"
  "core (registerSession m' s) = core s"
  "core (registerNode m' s) = core s"
  by (auto simp: core_def fun_eq_iff set_flow_def send_out_def clear_flow_def touch_def store_request_def reclaim_def
      registerService_def registerSession_def registerNode_def)

lemma core_put_task: "core s = core s' \<Longrightarrow> core (put_task j t s) = core (put_task j t s')"
  by (simp add: core_def put_task_def)

lemma core_end_task: "core s = core s' \<Longrightarrow> core (end_task j s) = core (end_task j s')"
  by (simp add: core_def end_task_def)

lemma core_to_release: "core s = core s' \<Longrightarrow> core (to_release j t s) = core (to_release j t s')"
  by (simp add: to_release_def core_put_task [of s s'] core_end_task [of s s'])

text \<open>How the token moves.\<close>

lemma tok_put_task: "tok (put_task j t s) = (tok s)(HeldBy j := task_tok t)"
  by (rule ext, case_tac x) (simp_all add: put_task_def)

lemma tok_end_task: "tok (end_task j s) = (tok s)(HeldBy j := None)"
  by (rule ext, case_tac x) (simp_all add: end_task_def)

lemma tok_fresh: "task_inv s \<Longrightarrow> tok s (HeldBy (ntask s)) = None"
  by (cases "tasks s (ntask s)") (auto simp: task_inv_def)

lemma tok_spawn: "tok (spawn t s) = (tok s)(HeldBy (ntask s) := task_tok t)"
  by (rule ext, case_tac x) (simp_all add: spawn_def)

lemma wf_task_grows:
  assumes "wf_task s t" "ninst s \<le> ninst s'" "ncell s \<le> ncell s'"
    and "\<And>i. i < ninst s \<Longrightarrow> in_Name (insts s' i) = in_Name (insts s i) \<and> in_ID (insts s' i) = in_ID (insts s i) \<and>
      snd (in_next (insts s i)) \<le> snd (in_next (insts s' i))"
  shows "wf_task s' t"
proof -
  have site: "site_ok s' (t_at t)"
    using assms by (cases "t_at t") (auto simp: wf_task_def)
  have "turn_ok s' (t_at t) (t_before t) (t_after t)"
  proof (cases "t_before t")
    case (Some b)
    then have b: "site_inst (t_at t) = Some (fst b)" "snd b < snd (in_next (insts s (fst b)))"
      "case t_after t of Some c \<Rightarrow> fst c = fst b | None \<Rightarrow> True"
      using assms(1) by (simp_all add: wf_task_def)
    then have "fst b < ninst s"
      using assms(1) by (cases "t_at t") (simp_all add: wf_task_def)
    then show ?thesis
      using Some b assms(4) [of "fst b"] by simp
  qed simp
  moreover have "chan_ok (ncell s') (t_after t)"
    using assms by (cases "t_after t") (simp_all add: wf_task_def)
  ultimately show ?thesis
    using site assms(1) by (simp add: wf_task_def)
qed

lemma wf_task_put [simp]: "wf_task (put_task j t s) = wf_task s"
  by (rule ext, rule iffI) (erule wf_task_grows; simp add: put_task_def)+

lemma wf_task_end [simp]: "wf_task (end_task j s) = wf_task s"
  by (rule ext, rule iffI) (erule wf_task_grows; simp add: end_task_def)+

lemma sess_inv_put_task:
  assumes "sess_inv s" "tasks s j = Some t" "task_tok t' = task_tok t" "wf_task s t'"
  shows "sess_inv (put_task j t' s)"
proof -
  have "tok (put_task j t' s) = tok s"
    using assms(2,3) by (simp add: tok_put_task fun_upd_idem_iff)
  moreover have "task_inv (put_task j t' s)"
    using assms by (simp add: sess_inv_def task_inv_def) (simp add: put_task_def)
  ultimately show ?thesis
    using assms(1) by (simp add: sess_inv_def tok_inv_def cell_inv_def table_inv_def) (simp add: put_task_def)
qed

lemma sess_inv_end_task:
  assumes "sess_inv s" "tasks s j = Some t" "task_tok t = None"
  shows "sess_inv (end_task j s)"
proof -
  have "tok (end_task j s) = tok s"
    using assms(2,3) by (simp add: tok_end_task fun_upd_idem_iff)
  moreover have "task_inv (end_task j s)"
    using assms by (simp add: sess_inv_def task_inv_def) (simp add: end_task_def)
  ultimately show ?thesis
    using assms(1) by (simp add: sess_inv_def tok_inv_def cell_inv_def table_inv_def) (simp add: end_task_def)
qed

lemma sess_invD:
  assumes "sess_inv s" "tasks s j = Some t"
  shows "wf_task s t" "j < ntask s"
  using assms by (auto simp: sess_inv_def task_inv_def)

lemma waiting_pc [simp]:
  "waiting (t\<lparr>t_pc := p\<rparr>) = (p \<in> {PBefore, PTimedOut, PDBefore})"
  "\<not> waiting (t\<lparr>t_pc := after_turn w\<rparr>)"
  by (simp_all add: waiting_def after_turn_def)

lemma wf_task_pc:
  assumes "wf_task s t" "t_after t \<noteq> None" "p \<notin> {PBefore, PTimedOut, PDBefore}"
  shows "wf_task s (t\<lparr>t_pc := p\<rparr>)"
  using assms by (auto simp: wf_task_def)

lemma sess_inv_to_release:
  assumes "sess_inv s" "tasks s j = Some t" "\<not> waiting t"
  shows "sess_inv (to_release j t s)"
proof (cases "t_after t = None")
  case True
  then show ?thesis
    using sess_inv_end_task [OF assms(1,2)] by (simp add: to_release_def task_tok_def)
next
  case False
  then have "wf_task s (t\<lparr>t_pc := PRelease\<rparr>)"
    using sess_invD(1) [OF assms(1,2)] by (simp add: wf_task_pc)
  then show ?thesis
    using False sess_inv_put_task [OF assms(1,2)] assms(3) by (simp add: to_release_def task_tok_def)
qed

lemma sess_inv_via_core:
  "sess_inv s \<Longrightarrow> core s' = core s \<Longrightarrow> sess_inv s'"
  using sess_inv_core [of s' s] by blast

lemma all_token: "(\<forall>x. P x) \<longleftrightarrow> (\<forall>c. P (InCell c)) \<and> (\<forall>j. P (HeldBy j)) \<and> (\<forall>l. P (Deferred l))"
  by (metis token.exhaust)

lemma tok_cells:
  "tok (s\<lparr>cells := (cells s)(c := x)\<rparr>) = (tok s)(InCell c := (if x = Full then Some (fst c) else None))"
  by (rule ext, case_tac xa) simp_all

lemma tok_defer:
  "tok (s\<lparr>deferredLocks := mput l c (deferredLocks s)\<rparr>) = (tok s)(Deferred l := Some (fst c))"
  by (rule ext, case_tac x) simp_all

lemma tok_undefer:
  "tok (s\<lparr>deferredLocks := mdel l (deferredLocks s)\<rparr>) = (tok s)(Deferred l := None)"
  by (rule ext, case_tac x) simp_all

lemma tok_inv_move:
  assumes "tok_inv s" "tok s a = Some i" "tok s b = None" "tok s' = (tok s)(a := None, b := Some i)"
    and "ninst s' = ninst s" "\<And>i. valid (insts s' i) = valid (insts s i)" "ctx_done s' = ctx_done s"
  shows "tok_inv s'"
proof -
  have t: "tok s' x = Some k \<longleftrightarrow> (x = b \<and> k = i) \<or> (x \<noteq> a \<and> x \<noteq> b \<and> tok s x = Some k)" for x k
    using assms(2,3,4) by auto
  have uniq: "\<And>x y k. tok s x = Some k \<Longrightarrow> tok s y = Some k \<Longrightarrow> x = y"
    and bnd: "\<And>x k. tok s x = Some k \<Longrightarrow> k < ninst s \<and> valid (insts s k)"
    and ex: "\<And>k. \<not> ctx_done s \<Longrightarrow> k < ninst s \<Longrightarrow> valid (insts s k) \<Longrightarrow> \<exists>x. tok s x = Some k"
    using assms(1) unfolding tok_inv_def by blast+
  have "\<exists>x. tok s' x = Some k" if k: "\<not> ctx_done s" "k < ninst s" "valid (insts s k)" for k
  proof (cases "k = i")
    case True
    then show ?thesis
      unfolding t by blast
  next
    case False
    obtain x where x: "tok s x = Some k"
      using ex [OF k] by blast
    with False assms(2,3) have "x \<noteq> a" "x \<noteq> b"
      by auto
    with x show ?thesis
      unfolding t by blast
  qed
  moreover have "x = y" if "tok s' x = Some k" "tok s' y = Some k" for x y k
    using that uniq [of x k y] uniq [of x k a] uniq [of y k a] assms(2) unfolding t by blast
  moreover have "k < ninst s \<and> valid (insts s k)" if "tok s' x = Some k" for x k
    using that bnd [of x k] bnd [OF assms(2)] unfolding t by blast
  ultimately show ?thesis
    unfolding tok_inv_def assms(5,6,7) by blast
qed

lemma tok_unique: "sess_inv s \<Longrightarrow> tok s x = Some i \<Longrightarrow> tok s y = Some i \<Longrightarrow> x = y"
  unfolding sess_inv_def tok_inv_def by blast

lemma tok_valid: "sess_inv s \<Longrightarrow> tok s x = Some i \<Longrightarrow> i < ninst s \<and> valid (insts s i)"
  unfolding sess_inv_def tok_inv_def by blast

lemma closed_invalid:
  "sess_inv s \<Longrightarrow> cells s c = Closed \<Longrightarrow> \<not> valid (insts s (fst c)) \<and> in_next (insts s (fst c)) = c"
  unfolding sess_inv_def cell_inv_def by blast

lemma sess_inv_turn:
  assumes inv: "sess_inv s" and t: "tasks s j = Some t" "waiting t" "t_before t = Some b"
    and full: "cells s b = Full" and p: "p \<notin> {PBefore, PTimedOut, PDBefore}"
  shows "sess_inv (put_task j (t\<lparr>t_pc := p\<rparr>) (s\<lparr>cells := (cells s)(b := Empty)\<rparr>))"
    (is "sess_inv ?s")
proof -
  note wf = sess_invD(1) [OF inv t(1)]
  then obtain c where c: "t_after t = Some c" "fst c = fst b"
    using t(2,3) by (auto simp: wf_task_def)
  have tok: "tok ?s = (tok s)(InCell b := None, HeldBy j := Some (fst b))"
    using c p by (simp add: tok_put_task tok_cells task_tok_def)
  have "tok_inv ?s"
    by (rule tok_inv_move [where a = "InCell b" and b = "HeldBy j", OF _ _ _ tok])
      (use inv t full in \<open>auto simp: sess_inv_def task_tok_def put_task_def\<close>)
  moreover have "cell_inv ?s" "table_inv ?s"
    using inv by (auto simp: sess_inv_def cell_inv_def table_inv_def put_task_def)
  moreover have "wf_task ?s t'" if "wf_task s t'" for t'
    using that by (rule wf_task_grows) (simp_all add: put_task_def)
  then have "task_inv ?s"
    using inv wf_task_pc [OF wf _ p] c sess_invD [OF inv] t(1)
    by (auto simp: task_inv_def put_task_def split: if_splits)
  ultimately show ?thesis
    by (simp add: sess_inv_def)
qed

lemma sess_inv_release:
  assumes inv: "sess_inv s" and t: "tasks s j = Some t" "\<not> waiting t" "t_after t = Some c"
  shows "cells s c = Empty" (is ?E)
    and "sess_inv (end_task j (s\<lparr>cells := (cells s)(c := Full)\<rparr>))" (is "sess_inv ?s")
proof -
  have held: "tok s (HeldBy j) = Some (fst c)"
    using t by (simp add: task_tok_def)
  then have v: "fst c < ninst s" "valid (insts s (fst c))"
    using tok_valid [OF inv] by blast+
  have "cells s c \<noteq> Full"
    using tok_unique [OF inv held, of "InCell c"] by auto
  moreover have "cells s c \<noteq> Closed"
    using v closed_invalid [OF inv] by blast
  ultimately show e: ?E
    by (cases "cells s c") auto
  have tok: "tok ?s = (tok s)(HeldBy j := None, InCell c := Some (fst c))"
    by (simp add: tok_end_task tok_cells fun_upd_twist)
  have "tok_inv ?s"
    by (rule tok_inv_move [where a = "HeldBy j" and b = "InCell c", OF _ held _ tok])
      (use inv e in \<open>auto simp: sess_inv_def end_task_def\<close>)
  moreover have "snd c < ncell s"
    using sess_invD(1) [OF inv t(1)] t(3) by (simp add: wf_task_def)
  then have "cell_inv ?s" 
    using inv by (auto simp: sess_inv_def cell_inv_def end_task_def)
  moreover have "table_inv ?s"
    using inv by (simp add: sess_inv_def table_inv_def end_task_def)
  moreover have "wf_task ?s t'" if "wf_task s t'" for t'
    using that by (rule wf_task_grows) (simp_all add: end_task_def)
  then have "task_inv ?s"
    using sess_invD [OF inv] by (auto simp: task_inv_def end_task_def)
  ultimately show "sess_inv ?s"
    by (simp add: sess_inv_def)
qed

lemma one_valid:
  assumes "table_inv s" "i < ninst s" "valid (insts s i)" "k < ninst s" "valid (insts s k)"
    and "in_Name (insts s i) = in_Name (insts s k)" "in_ID (insts s i) = in_ID (insts s k)"
  shows "i = k"
proof -
  have "map_of (sessionTable s) (in_Name (insts s k), in_ID (insts s k)) = Some i"
    "map_of (sessionTable s) (in_Name (insts s k), in_ID (insts s k)) = Some k"
    using assms unfolding table_inv_def by simp_all
  then show ?thesis
    by simp
qed

lemma table_inv_drop:
  assumes "table_inv s" "i < ninst s" "valid (insts s i)"
    and "sessionTable s' = mdel (in_Name (insts s i), in_ID (insts s i)) (sessionTable s)" "ninst s' = ninst s"
    and "\<And>k. valid (insts s' k) = (valid (insts s k) \<and> k \<noteq> i)"
    and "\<And>k. in_Name (insts s' k) = in_Name (insts s k)" "\<And>k. in_ID (insts s' k) = in_ID (insts s k)"
  shows "table_inv s'"
  unfolding table_inv_def
proof (intro conjI allI)
  show "wf_map (sessionTable s')"
    using assms(1,4) by (simp add: table_inv_def wf_map_mdel)
  fix k x
  note tab = assms(1) [unfolded table_inv_def, THEN conjunct2, rule_format]
  show "map_of (sessionTable s') k = Some x \<longleftrightarrow>
    x < ninst s' \<and> valid (insts s' x) \<and> (in_Name (insts s' x), in_ID (insts s' x)) = k"
    using tab [of k x] tab [of k i] assms(2-) by (cases "x = i") auto
qed

lemma tok_inv_drop:
  assumes "tok_inv s" "tok s a = Some i" "tok s' = (tok s)(a := None)"
    and "ninst s' = ninst s" "\<And>k. valid (insts s' k) = (valid (insts s k) \<and> k \<noteq> i)" "ctx_done s' = ctx_done s"
  shows "tok_inv s'"
proof -
  have t: "tok s' x = Some k \<longleftrightarrow> x \<noteq> a \<and> tok s x = Some k" for x k
    using assms(3) by auto
  have "x \<noteq> a \<and> tok s x = Some k \<Longrightarrow> k \<noteq> i" for x k
    using assms(1,2) unfolding tok_inv_def by blast
  moreover have "tok s x = Some k \<Longrightarrow> k \<noteq> i \<Longrightarrow> x \<noteq> a" for x k
    using assms(2) by auto
  ultimately show ?thesis
    using assms(1) unfolding tok_inv_def t assms(4,5,6) by (intro conjI allI impI) (blast | metis)+
qed

lemma sess_inv_close:
  assumes inv: "sess_inv s" and t: "tasks s j = Some t" "\<not> waiting t" "t_after t = Some c"
    and at: "t_at t = AtSession i tg" "in_next (insts s i) = c" "valid (insts s i)"
  shows "sess_inv (end_task j (upd_inst i (\<lambda>y. y\<lparr>valid := False\<rparr>)
    (s\<lparr>sessionTable := mdel (s_Name tg, s_ID tg) (sessionTable s), cells := (cells s)(c := Closed)\<rparr>)))"
    (is "sess_inv ?s")
proof -
  have site: "i < ninst s" "in_Name (insts s i) = s_Name tg" "in_ID (insts s i) = s_ID tg"
    using sess_invD(1) [OF inv t(1)] at(1) by (simp_all add: wf_task_def)
  then have c: "fst c = i" "snd c < ncell s"
    using inv at(2) by (auto simp: sess_inv_def cell_inv_def)
  have held: "tok s (HeldBy j) = Some i"
    using t c by (simp add: task_tok_def)
  have "tok s (InCell c) = None"
    using sess_inv_release(1) [OF inv t] by simp
  then have "tok (s\<lparr>cells := (cells s)(c := Closed)\<rparr>) = tok s"
    by (simp add: tok_cells fun_upd_idem)
  then have tok: "tok ?s = (tok s)(HeldBy j := None)"
    by (simp add: fun_eq_iff end_task_def all_token)
  have "tok_inv ?s"
    by (rule tok_inv_drop [OF _ held tok]) (use inv in \<open>auto simp: sess_inv_def end_task_def\<close>)
  moreover have "cell_inv ?s"
    using inv c at site by (auto simp: sess_inv_def cell_inv_def end_task_def)
  moreover have "table_inv ?s"
    by (rule table_inv_drop [of s i]) (use inv site at(3) in \<open>auto simp: sess_inv_def end_task_def\<close>)
  moreover have "wf_task ?s t'" if "wf_task s t'" for t'
    using that by (rule wf_task_grows) (auto simp: end_task_def)
  then have "task_inv ?s"
    using sess_invD [OF inv] by (auto simp: task_inv_def end_task_def)
  ultimately show ?thesis
    by (simp add: sess_inv_def)
qed

lemma sess_inv_defer:
  assumes inv: "sess_inv s" and t: "tasks s j = Some t" "\<not> waiting t" "t_after t = Some c"
    and fresh: "map_of (deferredLocks s) l = None"
  shows "sess_inv (end_task j (s\<lparr>deferredLocks := mput l c (deferredLocks s)\<rparr>))" (is "sess_inv ?s")
proof -
  have held: "tok s (HeldBy j) = Some (fst c)"
    using t by (simp add: task_tok_def)
  have tok: "tok ?s = (tok s)(HeldBy j := None, Deferred l := Some (fst c))"
    by (simp add: tok_end_task tok_defer fun_upd_twist)
  have "tok_inv ?s"
    by (rule tok_inv_move [where a = "HeldBy j" and b = "Deferred l", OF _ held _ tok])
      (use inv fresh in \<open>auto simp: sess_inv_def end_task_def\<close>)
  moreover have "snd c < ncell s"
    using sess_invD(1) [OF inv t(1)] t(3) by (simp add: wf_task_def)
  then have "cell_inv ?s" "table_inv ?s"
    using inv by (simp_all add: sess_inv_def cell_inv_def table_inv_def end_task_def)
  moreover have "wf_task ?s t'" if "wf_task s t'" for t'
    using that by (rule wf_task_grows) (simp_all add: end_task_def)
  then have "task_inv ?s"
    using sess_invD [OF inv] by (auto simp: task_inv_def end_task_def)
  ultimately show ?thesis
    by (simp add: sess_inv_def)
qed

text \<open>A new task: it waits, has nothing to release, or takes over a deferred lock.\<close>

lemma wf_task_spawn [simp]: "wf_task (spawn t s) = wf_task s"
  by (rule ext, rule iffI) (erule wf_task_grows; simp add: spawn_def)+

lemma task_inv_spawn: "task_inv s \<Longrightarrow> wf_task s t \<Longrightarrow> task_inv (spawn t s)"
  unfolding task_inv_def wf_task_spawn by (auto simp: spawn_def less_Suc_eq)

lemma sess_inv_spawn:
  assumes "sess_inv s" "wf_task s t" "task_tok t = None"
  shows "sess_inv (spawn t s)"
proof -
  have "tok (spawn t s) = tok s"
    using assms tok_fresh [of s] by (simp add: tok_spawn sess_inv_def fun_upd_idem)
  then show ?thesis
    using assms task_inv_spawn [of s t]
    by (simp add: sess_inv_def tok_inv_def cell_inv_def table_inv_def) (simp add: spawn_def)
qed

lemma sess_inv_undefer:
  assumes inv: "sess_inv s" and l: "map_of (deferredLocks s) l = Some c"
    and t: "wf_task s t" "\<not> waiting t" "t_after t = Some c"
  shows "sess_inv (spawn t (s\<lparr>deferredLocks := mdel l (deferredLocks s)\<rparr>))" (is "sess_inv ?s")
proof -
  have tok: "tok ?s = (tok s)(Deferred l := None, HeldBy (ntask s) := Some (fst c))"
    using t by (simp add: tok_spawn tok_undefer task_tok_def)
  have "tok_inv ?s"
    by (rule tok_inv_move [where a = "Deferred l" and b = "HeldBy (ntask s)", OF _ _ _ tok])
      (use inv l tok_fresh [of s] in \<open>auto simp: sess_inv_def spawn_def\<close>)
  moreover have "cell_inv ?s" "table_inv ?s"
    using inv by (auto simp: sess_inv_def cell_inv_def table_inv_def spawn_def map_of_mdel)
  moreover have "wf_task (s\<lparr>deferredLocks := mdel l (deferredLocks s)\<rparr>) t'" if "wf_task s t'" for t'
    using that by (rule wf_task_grows) simp_all
  then have "task_inv ?s"
    using inv t(1) by (intro task_inv_spawn) (auto simp: sess_inv_def task_inv_def)
  ultimately show ?thesis
    by (simp add: sess_inv_def)
qed

lemma tok_exists:
  "sess_inv s \<Longrightarrow> \<not> ctx_done s \<Longrightarrow> i < ninst s \<Longrightarrow> valid (insts s i) \<Longrightarrow> \<exists>x. tok s x = Some i"
  unfolding sess_inv_def tok_inv_def by blast

lemma fresh_cell: "sess_inv s \<Longrightarrow> cells s (i, ncell s) = Empty"
  unfolding sess_inv_def cell_inv_def by (metis less_irrefl snd_conv)

lemma sess_inv_enqueue:
  assumes inv: "sess_inv s" and i: "i < ninst s" "valid (insts s i)"
    and t: "waiting t" "t_at t = AtSession i tg" "t_before t = Some (in_next (insts s i))"
      "t_after t = Some (i, ncell s)" "in_Name (insts s i) = s_Name tg" "in_ID (insts s i) = s_ID tg"
  shows "sess_inv (enqueue i t s)"
proof -
  define s1 where "s1 = upd_inst i (\<lambda>x. x\<lparr>in_next := (i, ncell s)\<rparr>)
     (s\<lparr>cells := (cells s)((i, ncell s) := Empty), ncell := Suc (ncell s)\<rparr>)"
  have nxt: "fst (in_next (insts s k)) = k" "snd (in_next (insts s k)) < ncell s" if "k < ninst s" for k
    using inv that by (auto simp: sess_inv_def cell_inv_def)
  have "(cells s)((i, ncell s) := Empty) = cells s"
    using fresh_cell [OF inv] by (simp add: fun_upd_idem)
  then have c: "cells s1 = cells s" "tasks s1 = tasks s" "deferredLocks s1 = deferredLocks s"
    by (simp_all add: s1_def)
  then have "tok s1 = tok s"
    by (simp add: fun_eq_iff all_token)
  then have "tok_inv s1"
    using inv by (simp add: sess_inv_def tok_inv_def) (simp add: s1_def)
  moreover have "cell_inv s1"
    unfolding cell_inv_def c
  proof (intro conjI allI impI)
    show "chan_ok (ncell s1) (map_of (deferredLocks s) l)" for l
      using inv by (cases "map_of (deferredLocks s) l")
        (auto simp: s1_def sess_inv_def cell_inv_def less_Suc_eq dest!: spec [of _ l])
    show "in_next (insts s1 (fst c)) = c" if "cells s c = Closed" for c
      using closed_invalid [OF inv that] i by (auto simp: s1_def)
  qed (use inv nxt i in \<open>auto simp: s1_def sess_inv_def cell_inv_def less_Suc_eq\<close>)
  moreover have "table_inv s1"
    using inv by (auto simp: s1_def sess_inv_def table_inv_def)
  moreover have grow: "wf_task s1 t'" if "wf_task s t'" for t'
    using that by (rule wf_task_grows) (use nxt i in \<open>auto simp: s1_def less_imp_le\<close>)
  then have "task_inv s1"
    using sess_invD [OF inv] by (simp add: task_inv_def) (simp add: s1_def)
  moreover have "wf_task s1 t"
    using t nxt [OF i(1)] i by (auto simp: wf_task_def s1_def waiting_def)
  ultimately have "sess_inv (spawn t s1)"
    using t(1) by (intro sess_inv_spawn) (simp_all add: sess_inv_def task_tok_def)
  then show ?thesis
    by (simp add: s1_def enqueue_def)
qed

lemma sess_inv_fresh:
  assumes inv: "sess_inv s" and none: "map_of (sessionTable s) (s_Name tg, s_ID tg) = None"
  shows "sess_inv (s\<lparr>insts := (insts s)(ninst s := fresh_inst tg (ninst s, ncell s) waits),
    ninst := Suc (ninst s), cells := (cells s)((ninst s, ncell s) := Full), ncell := Suc (ncell s),
    sessionTable := mput (s_Name tg, s_ID tg) (ninst s) (sessionTable s)\<rparr>)" (is "sess_inv ?s")
proof -
  have bnd: "k \<noteq> ninst s" if "tok s x = Some k" for x k
    using tok_valid [OF inv that] by simp
  have tok: "tok ?s = (tok s)(InCell (ninst s, ncell s) := Some (ninst s))"
    by (simp add: fun_eq_iff all_token)
  have ex: "tok s (InCell (ninst s, ncell s)) = None"
    using fresh_cell [OF inv] by simp
  have t: "tok ?s x = Some k \<longleftrightarrow> (x = InCell (ninst s, ncell s) \<and> k = ninst s) \<or>
    (x \<noteq> InCell (ninst s, ncell s) \<and> tok s x = Some k)" for x k
    unfolding tok by auto
  have "tok_inv ?s"
    unfolding tok_inv_def t
  proof (intro conjI allI impI)
    show "\<exists>x. x = InCell (ninst s, ncell s) \<and> i = ninst s \<or> x \<noteq> InCell (ninst s, ncell s) \<and> tok s x = Some i"
      if v: "\<not> ctx_done ?s" "i < ninst ?s" "valid (insts ?s i)" for i
    proof (cases "i = ninst s")
      case False
      then obtain x where "tok s x = Some i"
        using tok_exists [OF inv, of i] v by (auto simp: less_Suc_eq)
      moreover from this have "x \<noteq> InCell (ninst s, ncell s)"
        using ex by auto
      ultimately show ?thesis
        by blast
    qed blast
  qed (use tok_unique [OF inv] tok_valid [OF inv] bnd in \<open>auto simp: fresh_inst_def less_Suc_eq dest: bnd\<close>)
  moreover have open_cell: "cells s (ninst s, b) \<noteq> Closed" for b
    using inv unfolding sess_inv_def cell_inv_def by fastforce
  have "cell_inv ?s"
    unfolding cell_inv_def
  proof (intro conjI allI impI)
    show "chan_ok (ncell ?s) (map_of (deferredLocks ?s) l)" for l
      using inv by (cases "map_of (deferredLocks s) l")
        (auto simp: sess_inv_def cell_inv_def less_Suc_eq dest!: spec [of _ l])
  qed (use inv open_cell in \<open>auto simp: sess_inv_def cell_inv_def less_Suc_eq fresh_inst_def split: if_splits\<close>)
  moreover have "\<not> (i < ninst s \<and> valid (insts s i) \<and> in_Name (insts s i) = s_Name tg \<and> in_ID (insts s i) = s_ID tg)" for i
    using inv none unfolding sess_inv_def table_inv_def by (metis option.distinct(1))
  then have "table_inv ?s"
    using inv by (auto simp: sess_inv_def table_inv_def fresh_inst_def less_Suc_eq wf_map_mput)
  moreover have "wf_task ?s t'" if "wf_task s t'" for t'
    using that by (rule wf_task_grows) auto
  then have "task_inv ?s"
    using sess_invD [OF inv] by (auto simp: task_inv_def)
  ultimately show ?thesis
    by (simp add: sess_inv_def)
qed

section \<open>Every step keeps the invariant\<close>

lemma sess_inv_connect: "sess_inv (connect busy cancel)"
proof -
  have "tok (connect busy cancel) = (\<lambda>_. None)"
    by (simp add: fun_eq_iff all_token connect_def)
  then show ?thesis
    by (simp add: sess_inv_def tok_inv_def cell_inv_def table_inv_def task_inv_def) (simp add: connect_def)
qed

text \<open>\<open>get_instance\<close> gives a valid instance of the session.\<close>

lemma get_instance_inv:
  assumes "sess_inv s" "get_instance tg waits s = (i, f, s')"
  shows "sess_inv s'" "i < ninst s'" "valid (insts s' i)" "in_Name (insts s' i) = s_Name tg"
    "in_ID (insts s' i) = s_ID tg"
proof -
  have "sess_inv s' \<and> i < ninst s' \<and> valid (insts s' i) \<and> in_Name (insts s' i) = s_Name tg \<and>
    in_ID (insts s' i) = s_ID tg"
  proof (cases "map_of (sessionTable s) (s_Name tg, s_ID tg)")
    case None
    then show ?thesis
      using assms sess_inv_fresh [OF assms(1) None, of waits]
      by (auto simp: get_instance_def fresh_inst_def)
  next
    case (Some k)
    then have "k < ninst s" "valid (insts s k)" "(in_Name (insts s k), in_ID (insts s k)) = (s_Name tg, s_ID tg)"
      using assms(1) unfolding sess_inv_def table_inv_def by blast+
    then show ?thesis
      using Some assms by (auto simp: get_instance_def)
  qed
  then show "sess_inv s'" "i < ninst s'" "valid (insts s' i)" "in_Name (insts s' i) = s_Name tg"
    "in_ID (insts s' i) = s_ID tg"
    by blast+
qed

lemma not_waiting_after_turn [simp]: "after_turn w \<notin> {PBefore, PTimedOut, PDBefore}"
  "after_turn w \<noteq> PBefore" "after_turn w \<noteq> PTimedOut" "after_turn w \<noteq> PDBefore"
  "after_turn w \<notin> {PRelease, PDCheck, PDCallback, PDFinish}" "after_turn w \<noteq> PRelease"
  "after_turn w \<noteq> PDCheck" "after_turn w \<noteq> PDCallback" "after_turn w \<noteq> PDFinish"
  by (simp_all add: after_turn_def)

lemma sess_inv_acceptSession:
  assumes "sess_inv s"
  shows "sess_inv (acceptSession tg m wait s)"
proof -
  obtain i f s1 where g: "get_instance tg (wait \<noteq> None) s = (i, f, s1)"
    by (metis prod_cases3)
  note gi = get_instance_inv [OF assms g]
  let ?l = "s_DeferredLockID tg"
  define t where "t = \<lparr>t_at = AtSession i tg, t_msg = Some m, t_before = None, t_wait = wait, t_after = None,
                   t_clear = False, t_pc = after_turn wait\<rparr>"
  have wf: "wf_task s1 t" "task_tok t = None"
    using gi by (simp_all add: t_def wf_task_def waiting_def task_tok_def)
  show ?thesis
  proof (cases "\<not> f \<and> ActiveFlow (insts s1 i) = s_Flow tg")
    case True
    show ?thesis
    proof (cases "?l = ''''")
      case False
      show ?thesis
      proof (cases "map_of (deferredLocks s1) ?l")
        case None
        then have "mdel ?l (deferredLocks s1) = deferredLocks s1"
          by (simp add: delete_id map_of_eq_None_iff)
        then show ?thesis
          using True False None g sess_inv_spawn [OF gi(1) wf] by (simp add: acceptSession_def t_def)
      next
        case (Some c)
        have "chan_ok (ncell s1) (map_of (deferredLocks s1) ?l)"
          using gi(1) unfolding sess_inv_def cell_inv_def by blast
        then have "wf_task s1 (t\<lparr>t_after := Some c, t_clear := True\<rparr>)"
          using Some gi by (simp add: t_def wf_task_def waiting_def)
        then show ?thesis
          using True False Some g sess_inv_undefer [OF gi(1) Some] by (simp add: acceptSession_def t_def waiting_def)
      qed
    qed (use True g sess_inv_spawn [OF gi(1) wf] in \<open>simp add: acceptSession_def t_def\<close>)
  next
    case False
    have "sess_inv (enqueue i (t\<lparr>t_before := Some (in_next (insts s1 i)), t_after := Some (i, ncell s1),
                 t_clear := True, t_pc := PBefore\<rparr>) s1)"
      using gi by (intro sess_inv_enqueue) (simp_all add: t_def waiting_def)
    then show ?thesis
      using False g sess_inv_spawn [OF gi(1) wf] by (auto simp: acceptSession_def t_def Let_def)
  qed
qed

lemma wait_channel_core: "core (snd (wait_channel m s)) = core s"
  by (simp add: wait_channel_def core_def)

lemma sess_inv_plain_task: "sess_inv s \<Longrightarrow> p \<in> {AtService, AtNode, Detached} \<Longrightarrow> sess_inv (spawn (plain_task p m wait) s)"
  by (rule sess_inv_spawn) (auto simp: plain_task_def wf_task_def waiting_def task_tok_def)

lemma sess_inv_accept:
  assumes "sess_inv s"
  shows "sess_inv (accept now txt msg s)"
proof (cases msg)
  case (Req m)
  obtain w s1 where w: "wait_channel m s = (w, s1)"
    by fastforce
  then have inv: "sess_inv s1"
    using wait_channel_core [of m s] assms by (metis sess_inv_via_core snd_conv)
  have "sess_inv (accept_request now txt m s)"
  proof (cases "deadline (Req m) \<noteq> 0 \<and> deadline (Req m) < now")
    case True
    then show ?thesis
      by (simp only: accept_request_def if_True simp_thms)
        (rule sess_inv_spawn [OF assms], simp_all add: wf_task_def waiting_def task_tok_def)
  next
    case False
    then show ?thesis
      using w inv by (cases "target m")
        (auto simp: accept_request_def intro: sess_inv_plain_task sess_inv_acceptSession)
  qed
  then show ?thesis
    using Req by (simp add: accept_def)
next
  case (Resp m)
  have "core (accept_response m s) = core s"
    by (simp add: accept_response_def core_def split: option.split)
  then show ?thesis
    using Resp assms by (simp add: accept_def sess_inv_via_core)
qed (use assms in \<open>simp add: accept_def\<close>)

lemma sess_inv_take_turn:
  assumes inv: "sess_inv s" and t: "take_turn uid j s = Goes s'"
  shows "sess_inv s'"
proof -
  obtain t b i tg where j: "tasks s j = Some t" "t_before t = Some b" "t_at t = AtSession i tg"
    using t by (auto simp: take_turn_def split: option.splits site.splits)
  have pc: "waiting t"
    using t j by (auto simp: take_turn_def waiting_def Let_def split: chan_op.splits pc.splits)
  have "cells s b \<noteq> Closed"
  proof
    assume "cells s b = Closed"
    then have "in_next (insts s (fst b)) = b"
      using closed_invalid [OF inv] by blast
    then show False
      using sess_invD(1) [OF inv j(1)] j(2) by (simp add: wf_task_def)
  qed
  moreover have "cells s b \<noteq> Empty"
    using t j by (auto simp: take_turn_def)
  ultimately have full: "cells s b = Full"
    by (cases "cells s b") auto
  note turn = sess_inv_turn [OF inv j(1) pc j(2) full]
  show ?thesis
  proof (cases "t_pc t = PDBefore")
    case True
    then have "s' = put_task j (t\<lparr>t_pc := PDCheck\<rparr>)
      (set_flow i (''flow-deactivate-'' @ uid) (s\<lparr>cells := (cells s)(b := Empty)\<rparr>))"
      using t j full by (simp add: take_turn_def)
    then have "core s' = core (put_task j (t\<lparr>t_pc := PDCheck\<rparr>) (s\<lparr>cells := (cells s)(b := Empty)\<rparr>))"
      by (auto intro: core_put_task)
    with turn [of PDCheck] show ?thesis
      by (auto intro: sess_inv_via_core)
  next
    case False
    then show ?thesis
      using t j pc full turn [of "after_turn (t_wait t)"] turn [of PRelease]
      by (auto simp: take_turn_def waiting_def)
  qed
qed

lemma sess_inv_time_out:
  assumes inv: "sess_inv s" and t: "tasks s j = Some t" "t_pc t = PBefore"
  shows "sess_inv (time_out txt j t m s)"
proof -
  have w: "waiting t" "t_before t \<noteq> None" "t_after t \<noteq> None"
    using sess_invD(1) [OF inv t(1)] t(2) by (auto simp: wf_task_def waiting_def)
  then have "wf_task s (t\<lparr>t_pc := PTimedOut\<rparr>)"
    using sess_invD(1) [OF inv t(1)] by (simp add: wf_task_def)
  then have "sess_inv (put_task j (t\<lparr>t_pc := PTimedOut\<rparr>) s)"
    using w(1) by (intro sess_inv_put_task [OF inv t(1)]) (simp_all add: task_tok_def)
  moreover have "core (time_out txt j t m s) = core (put_task j (t\<lparr>t_pc := PTimedOut\<rparr>) s)"
    using w by (auto simp: time_out_def intro: core_put_task)
  ultimately show ?thesis
    by (rule sess_inv_via_core)
qed

text \<open>A task past its turn that goes on to a place where it keeps its obligations.\<close>

lemma sess_inv_go_on:
  assumes inv: "sess_inv s" and t: "tasks s j = Some t" "\<not> waiting t"
    and p: "p \<notin> {PBefore, PTimedOut, PDBefore}" "p \<in> {PRelease, PDCheck, PDCallback, PDFinish} \<Longrightarrow> t_after t \<noteq> None"
    and s': "core s' = core s"
  shows "sess_inv (put_task j (t\<lparr>t_pc := p\<rparr>) s')"
proof -
  have "wf_task s (t\<lparr>t_pc := p\<rparr>)"
    using sess_invD(1) [OF inv t(1)] p by (auto simp: wf_task_def)
  then have "sess_inv (put_task j (t\<lparr>t_pc := p\<rparr>) s)"
    using t p by (intro sess_inv_put_task [OF inv t(1)]) (simp_all add: task_tok_def)
  then show ?thesis
    by (rule sess_inv_via_core) (rule core_put_task [OF s'])
qed

lemma sess_inv_wind_up:
  assumes "sess_inv s" "tasks s j = Some t" "\<not> waiting t" "core s' = core s"
  shows "sess_inv (to_release j t s')"
  using sess_inv_to_release [OF assms(1-3)] by (rule sess_inv_via_core) (rule core_to_release [OF assms(4)])

lemma sess_inv_finish_session:
  assumes inv: "sess_inv s" and t: "tasks s j = Some t" "\<not> waiting t" and r: "fresh_lock r t s"
    and s': "core s' = core s"
  shows "sess_inv (finish_session j t i m r s')"
proof -
  note wind = sess_inv_wind_up [OF inv t]
  show ?thesis
  proof (cases r)
    case (Failed e json isCtx)
    then show ?thesis
      using s' by (auto simp: finish_session_def Let_def intro: wind)
  next
    case (Returned dest v)
    show ?thesis
    proof (cases dest)
      case None
      then show ?thesis
        using Returned s' by (auto simp: finish_session_def intro: wind)
    next
      case (Some d)
      show ?thesis
      proof (cases "deferral d t")
        case None
        then show ?thesis
          using Returned Some s' by (auto simp: finish_session_def intro: wind)
      next
        case (Some lc)
        then obtain l c where lc: "lc = (l, c)" "t_after t = Some c"
          by (cases lc) (auto simp: deferral_def split: Target.splits option.splits if_splits)
        have "map_of (deferredLocks s) l = None"
          using r Some lc Returned \<open>dest = _\<close> by (simp add: fresh_lock_def)
        note inv' = sess_inv_defer [OF inv t lc(2) this]
        have "core (finish_session j t i m r s') = core (end_task j (s\<lparr>deferredLocks := mput l c (deferredLocks s)\<rparr>))"
          using Some lc Returned \<open>dest = _\<close> s'
          by (simp add: finish_session_def to_release_def) (simp add: core_def end_task_def send_out_def)
        with inv' show ?thesis
          by (rule sess_inv_via_core)
      qed
    qed
  qed
qed

lemma sess_inv_finish_plain:
  assumes inv: "sess_inv s" and t: "tasks s j = Some t" "\<not> waiting t" "t_after t = None"
  shows "sess_inv (finish_plain j t m txt v s)"
proof -
  have "sess_inv (end_task j s)"
    using t by (intro sess_inv_end_task [OF inv t(1)]) (simp add: task_tok_def)
  moreover have "core (finish_plain j t m txt v s) = core (end_task j s)"
    unfolding finish_plain_def by (rule core_end_task) (simp split: site.split Request.split)
  ultimately show ?thesis
    by (rule sess_inv_via_core)
qed

lemma wf_site_none: "wf_task s t \<Longrightarrow> site_inst (t_at t) = None \<Longrightarrow> t_after t = None"
  by (simp add: wf_task_def)

lemma sess_inv_start:
  assumes inv: "sess_inv s" and t: "tasks s j = Some t" "t_pc t = PStart"
  shows "sess_inv (start n2p now j t m s)"
proof -
  have w: "\<not> waiting t"
    using t(2) by (simp add: waiting_def)
  note plain = sess_inv_finish_plain [OF inv t(1) w wf_site_none [OF sess_invD(1) [OF inv t(1)]]]
  note on = sess_inv_go_on [OF inv t(1) w, of PRunning]
  show ?thesis
  proof (cases "t_at t")
    case (AtSession i tg)
    have f: "core (if b then set_flow i x s else s) = core s" for b x
      by simp
    note wind = sess_inv_wind_up [OF inv t(1) w] and fin = sess_inv_finish_session [OF inv t(1) w]
    show ?thesis
      using AtSession by (auto simp: start_def Let_def fresh_lock_def f intro!: wind fin on split: Request.split)
  qed (auto simp: start_def inv intro!: plain on)
qed

lemma sess_inv_returns:
  assumes inv: "sess_inv s" and t: "tasks s j = Some t" "t_pc t = PRunning" and r: "fresh_lock r t s"
  shows "sess_inv (returns now act r j t m s)"
proof -
  have w: "\<not> waiting t"
    using t(2) by (simp add: waiting_def)
  note plain = sess_inv_finish_plain [OF inv t(1) w wf_site_none [OF sess_invD(1) [OF inv t(1)]]]
  show ?thesis
  proof (cases "t_at t")
    case (AtSession i tg)
    then show ?thesis
      using sess_inv_finish_session [OF inv t(1) w r] by (simp add: returns_def)
  qed (auto simp: returns_def intro: plain split: outcome.split)
qed

lemma sess_inv_child_done:
  assumes inv: "sess_inv s" and t: "tasks s j = Some t" "t_pc t = PChild"
  shows "sess_inv (child_done j t m w s)"
proof -
  have "\<not> waiting t"
    using t(2) by (simp add: waiting_def)
  then show ?thesis
    unfolding child_done_def Let_def
    by (intro sess_inv_go_on [OF inv t(1)]) (auto split: site.split)
qed

lemma sess_inv_collect_one:
  assumes "sess_inv s"
  shows "sess_inv (collect_one bound key s)"
proof (cases "map_of (sessionTable s) key")
  case (Some i)
  then have "i < ninst s" "(in_Name (insts s i), in_ID (insts s i)) = key"
    using assms unfolding sess_inv_def table_inv_def by blast+
  then show ?thesis
    using Some assms by (auto simp: collect_one_def waiting_def intro!: sess_inv_enqueue)
qed (use assms in \<open>simp add: collect_one_def\<close>)

text \<open>The end of a deactivation always goes through: the channel it closes is open.\<close>

lemma sess_inv_deactivate_finish:
  assumes inv: "sess_inv s" and t: "tasks s j = Some t" "t_pc t = PDFinish" "t_at t = AtSession i tg" "t_after t = Some c"
  shows "\<exists>s'. deactivate_finish j t i tg c s = Goes s' \<and> sess_inv s'"
proof -
  have w: "\<not> waiting t"
    using t(2) by (simp add: waiting_def)
  define s1 where "s1 = set_flow i releasedFlow s"
  have s1: "core s1 = core s"
    by (simp add: s1_def)
  then have inv1: "sess_inv s1" and t1: "tasks s1 j = Some t"
    using sess_inv_via_core [OF inv] coreD(2) [OF s1] t(1) by auto
  show ?thesis
  proof (cases "can_deactivate i c s1")
    case True
    then show ?thesis
      using sess_inv_close [OF inv1 t1 w t(4,3)] sess_inv_release(1) [OF inv1 t1 w t(4)]
      by (simp add: deactivate_finish_def can_deactivate_def flip: s1_def)
  next
    case False
    then show ?thesis
      using sess_inv_go_on [OF inv t(1) w _ _ s1, of PRelease] t(4)
      by (simp add: deactivate_finish_def flip: s1_def)
  qed
qed

lemma sess_inv_done: "sess_inv s \<Longrightarrow> sess_inv (s\<lparr>ctx_done := True\<rparr>)"
proof -
  assume inv: "sess_inv s"
  have "tok (s\<lparr>ctx_done := True\<rparr>) = tok s"
    by (simp add: fun_eq_iff all_token)
  moreover have "wf_task (s\<lparr>ctx_done := True\<rparr>) t" if "wf_task s t" for t
    using that by (rule wf_task_grows) simp_all
  ultimately show ?thesis
    using inv by (simp add: sess_inv_def tok_inv_def cell_inv_def table_inv_def task_inv_def)
qed

lemma sess_inv_cancel:
  assumes inv: "sess_inv s" and "ctx_done s"
  shows "sess_inv (end_task j s)"
proof -
  have t: "tok (end_task j s) x = Some k \<Longrightarrow> tok s x = Some k" for x k
    by (auto simp: tok_end_task split: if_splits)
  have "tok_inv (end_task j s)"
    using inv assms(2) t unfolding tok_inv_def sess_inv_def
    by (auto simp: end_task_def)
  moreover have "task_inv (end_task j s)"
    using inv by (simp add: sess_inv_def task_inv_def) (simp add: end_task_def)
  ultimately show ?thesis
    using inv by (simp add: sess_inv_def cell_inv_def table_inv_def) (simp add: end_task_def)
qed

lemma sess_inv_client:
  assumes "sess_inv s"
  shows "sess_inv (store_request rid s)" "sess_inv (reclaim rid s)" "sess_inv (registerService m s)"
    "sess_inv (registerSession m s)" "sess_inv (registerNode m s)"
  by (rule sess_inv_via_core [OF assms]; simp)+

lemma sess_inv_step:
  assumes "step s s'" "sess_inv s"
  shows "sess_inv s'"
  using assms
proof (cases rule: step.cases)
  case (step_release j t c)
  then show ?thesis
    using sess_inv_release [OF assms(2), of j t c] by (simp add: release_def waiting_def)
next
  case (step_deactivated j t i tg c)
  then show ?thesis
    using sess_inv_deactivate_finish [OF assms(2), of j t i tg c] by auto
next
  case (step_send j t msg)
  then have "task_tok t = None"
    using sess_invD(1) [OF assms(2)] by (auto simp: wf_task_def task_tok_def)
  then show ?thesis
    unfolding step_send(1) using sess_inv_via_core [OF sess_inv_end_task [OF assms(2) step_send(2)]]
    by (simp add: core_end_task [of "send_out msg s" s j])
next
  case (step_result rid ch r)
  then have "core s' = core s"
    by (auto simp: call_wait_def split: option.splits if_splits)
  with assms(2) show ?thesis
    by (rule sess_inv_via_core)
next
  case (step_check j t i tg c)
  then show ?thesis
    using sess_inv_go_on [OF assms(2), of j t] by (auto simp: deactivate_check_def waiting_def)
next
  case (step_callback j t i tg act)
  then have "t_after t \<noteq> None"
    using sess_invD(1) [OF assms(2)] by (auto simp: wf_task_def)
  with step_callback show ?thesis
    using sess_inv_go_on [OF assms(2), of j t] by (auto simp: deactivate_callback_def waiting_def)
qed (use assms(2) in \<open>auto intro: sess_inv_accept sess_inv_take_turn sess_inv_time_out sess_inv_child_done
    sess_inv_start sess_inv_returns sess_inv_collect_one sess_inv_done sess_inv_cancel sess_inv_client\<close>)

lemma reachable_inv: "reachable s \<Longrightarrow> sess_inv s"
  by (induction rule: reachable.induct) (simp_all add: sess_inv_connect sess_inv_step)

section \<open>Properties\<close>

text \<open>Task \<open>j\<close> is past its turn for session \<open>(n, d)\<close>, and nobody may run before it hands the token on.\<close>

definition runs_exclusively :: "sess \<Rightarrow> nat \<Rightarrow> string \<times> string \<Rightarrow> bool" where
  "runs_exclusively s j k =
     (case tasks s j of
        None \<Rightarrow> False
      | Some t \<Rightarrow> \<not> waiting t \<and> t_before t \<noteq> None \<and> t_after t \<noteq> None \<and>
          (case t_at t of AtSession _ tg \<Rightarrow> (s_Name tg, s_ID tg) = k | _ \<Rightarrow> False))"

text \<open>The sessions whose token is kept by a deferred lock.\<close>

definition locked_sessions :: "sess \<Rightarrow> (string \<times> string) set" where
  "locked_sessions s = (\<lambda>(l, c). (in_Name (insts s (fst c)), in_ID (insts s (fst c)))) `
     {(l, c). map_of (deferredLocks s) l = Some c}"

text \<open>The channel operation at which a task is.\<close>

definition chan_step :: "string \<Rightarrow> nat \<Rightarrow> sess \<Rightarrow> sess chan_op" where
  "chan_step uid j s =
     (case tasks s j of
        None \<Rightarrow> Blocks
      | Some t \<Rightarrow>
          (case t_pc t of
             PRelease \<Rightarrow> release j (the (t_after t)) s
           | PDFinish \<Rightarrow>
               (case t_at t of
                  AtSession i tg \<Rightarrow> deactivate_finish j t i tg (the (t_after t)) s
                | _ \<Rightarrow> Blocks)
           | _ \<Rightarrow> take_turn uid j s))"

lemma chan_recv_no_panic [simp]: "chan_recv x \<noteq> Panics"
  by (cases x) simp_all

lemma take_turn_no_panic: "take_turn uid j s \<noteq> Panics"
  by (auto simp: take_turn_def Let_def split: option.split site.split chan_op.split pc.split)

lemma exclusive_tok:
  assumes inv: "sess_inv s" and j: "runs_exclusively s j k"
  shows "\<exists>i. tok s (HeldBy j) = Some i \<and> i < ninst s \<and> valid (insts s i) \<and> (in_Name (insts s i), in_ID (insts s i)) = k"
proof -
  obtain t b c i tg where t: "tasks s j = Some t" "\<not> waiting t" "t_before t = Some b" "t_after t = Some c"
      "t_at t = AtSession i tg" "(s_Name tg, s_ID tg) = k"
    using j by (auto simp: runs_exclusively_def split: option.splits site.splits)
  then have "fst c = i" "in_Name (insts s i) = s_Name tg" "in_ID (insts s i) = s_ID tg"
    using sess_invD(1) [OF inv t(1)] by (auto simp: wf_task_def)
  with t have "tok s (HeldBy j) = Some i" "(in_Name (insts s i), in_ID (insts s i)) = k"
    by (simp_all add: task_tok_def)
  with tok_valid [OF inv] show ?thesis
    by blast
qed

lemma same_session_tok:
  assumes "sess_inv s" "tok s x = Some i" "tok s y = Some k"
    and "(in_Name (insts s i), in_ID (insts s i)) = (in_Name (insts s k), in_ID (insts s k))"
  shows "x = y"
proof -
  have "i = k"
    using one_valid [of s i k] tok_valid [OF assms(1,2)] tok_valid [OF assms(1,3)] assms(1,4)
    by (simp add: sess_inv_def)
  then show ?thesis
    using tok_unique [OF assms(1,2)] assms(3) by simp
qed

text \<open>C1 In every reachable state a session has at most one task that runs exclusively, however messages,
  timeouts, tail calls, deactivations and re-creations of its instance interleave; and while there is one, no
  tail call has put the session's lock aside.\<close>

theorem exclusive_execution:
  assumes "reachable s" "runs_exclusively s j k"
  shows "{j'. runs_exclusively s j' k} = {j} \<and> k \<notin> locked_sessions s"
proof -
  note inv = reachable_inv [OF assms(1)]
  obtain i where i: "tok s (HeldBy j) = Some i" "(in_Name (insts s i), in_ID (insts s i)) = k"
    using exclusive_tok [OF inv assms(2)] by blast
  have "j' = j" if "runs_exclusively s j' k" for j'
    using exclusive_tok [OF inv that] same_session_tok [OF inv i(1), of "HeldBy j'"] i(2) by auto
  moreover have False if k: "k \<in> locked_sessions s"
  proof -
    obtain l c where "map_of (deferredLocks s) l = Some c" "(in_Name (insts s (fst c)), in_ID (insts s (fst c))) = k"
      using k by (auto simp: locked_sessions_def)
    then show False
      using same_session_tok [OF inv i(1), of "Deferred l" "fst c"] i(2) by simp
  qed
  ultimately show ?thesis
    using assms(2) by blast
qed

text \<open>C2 As long as the process is not being cancelled, no token is lost or duplicated: the instance of every
  session of the table is valid, is that session's only valid instance, and exactly one channel, task or
  deferred lock has its token.\<close>

theorem token_conserved:
  assumes "reachable s" "\<not> ctx_done s" "map_of (sessionTable s) k = Some i"
  shows "valid (insts s i) \<and> {i'. i' < ninst s \<and> valid (insts s i') \<and> (in_Name (insts s i'), in_ID (insts s i')) = k} = {i} \<and>
    (\<exists>!x. tok s x = Some i)"
proof -
  note inv = reachable_inv [OF assms(1)]
  have tab: "map_of (sessionTable s) k = Some x \<longleftrightarrow>
    x < ninst s \<and> valid (insts s x) \<and> (in_Name (insts s x), in_ID (insts s x)) = k" for x
    using inv unfolding sess_inv_def table_inv_def by blast
  then have i: "i < ninst s" "valid (insts s i)"
    using assms(3) by blast+
  have "\<exists>!x. tok s x = Some i"
    using tok_exists [OF inv assms(2) i] tok_unique [OF inv] by blast
  moreover have "{i'. i' < ninst s \<and> valid (insts s i') \<and> (in_Name (insts s i'), in_ID (insts s i')) = k} = {i}"
    unfolding tab [symmetric] using assms(3) by auto
  ultimately show ?thesis
    using i by blast
qed

text \<open>C3 No channel operation of the scheduler panics, and neither handing the token on nor the end of a
  deactivation ever blocks.\<close>

theorem channels_safe:
  assumes "reachable s"
  shows "chan_step uid j s \<noteq> Panics \<and>
    (\<forall>t. tasks s j = Some t \<and> t_pc t \<in> {PRelease, PDFinish} \<longrightarrow> (\<exists>s'. chan_step uid j s = Goes s'))"
proof (cases "tasks s j")
  case (Some t)
  note inv = reachable_inv [OF assms]
  note wf = sess_invD(1) [OF inv Some]
  consider "t_pc t = PRelease" | "t_pc t = PDFinish" | "t_pc t \<notin> {PRelease, PDFinish}"
    by blast
  then show ?thesis
  proof cases
    case 1
    then obtain c where "t_after t = Some c" "\<not> waiting t"
      using wf by (auto simp: wf_task_def waiting_def)
    then show ?thesis
      using 1 Some sess_inv_release(1) [OF inv Some] by (simp add: chan_step_def release_def)
  next
    case 2
    then obtain c i tg where c: "t_after t = Some c" "t_at t = AtSession i tg"
      using wf by (cases "t_at t") (auto simp: wf_task_def)
    then show ?thesis
      using 2 Some sess_inv_deactivate_finish [OF inv Some 2 c(2,1)] by (auto simp: chan_step_def)
  next
    case 3
    then have "chan_step uid j s = take_turn uid j s"
      using Some by (simp add: chan_step_def split: pc.split)
    then show ?thesis
      using 3 Some take_turn_no_panic [of uid j s] by simp
  qed
qed (simp add: chan_step_def)

section \<open>Running schedules\<close>

text \<open>An executable scheduler for concrete runs: an event that is not enabled changes nothing.\<close>

datatype event =
    EAccept time string Message
  | ETurn string nat
  | EChild nat
  | EStart "(string, int) gomap" time nat
  | EReturn time bool outcome nat
  | ERelease nat
  | ECollect time "string \<times> string"
  | ERegister string

fun goes :: "'a chan_op \<Rightarrow> 'a \<Rightarrow> 'a" where
  "goes (Goes s) d = s"
| "goes _ d = d"

definition with_task :: "nat \<Rightarrow> pc \<Rightarrow> (task \<Rightarrow> Request \<Rightarrow> sess \<Rightarrow> sess) \<Rightarrow> sess \<Rightarrow> sess" where
  "with_task j p f s =
     (case tasks s j of
        Some t \<Rightarrow> (case t_msg t of Some m \<Rightarrow> if t_pc t = p then f t m s else s | None \<Rightarrow> s)
      | None \<Rightarrow> s)"

fun perform :: "event \<Rightarrow> sess \<Rightarrow> sess" where
  "perform (EAccept now txt m) s = accept now txt m s"
| "perform (ETurn uid j) s = goes (take_turn uid j s) s"
| "perform (EChild j) s = with_task j PChild
     (\<lambda>t m s. case t_wait t of Some w \<Rightarrow> if results s w \<noteq> None then child_done j t m w s else s | None \<Rightarrow> s) s"
| "perform (EStart n2p now j) s = with_task j PStart (\<lambda>t m s. start n2p now j t m s) s"
| "perform (EReturn now act r j) s = with_task j PRunning
     (\<lambda>t m s. if fresh_lock r t s then returns now act r j t m s else s) s"
| "perform (ERelease j) s = with_task j PRelease
     (\<lambda>t m s. case t_after t of Some c \<Rightarrow> goes (release j c s) s | None \<Rightarrow> s) s"
| "perform (ECollect bound k) s = collect_one bound k s"
| "perform (ERegister m) s = registerSession m s"

lemma goes_step: "(\<And>s'. x = Goes s' \<Longrightarrow> step s s') \<Longrightarrow> reachable s \<Longrightarrow> reachable (goes x s)"
  by (cases x) (auto intro: reachable_step)

lemma with_task_step:
  assumes "reachable s" "\<And>t m. tasks s j = Some t \<Longrightarrow> t_msg t = Some m \<Longrightarrow> t_pc t = p \<Longrightarrow> reachable (f t m s)"
  shows "reachable (with_task j p f s)"
  using assms by (auto simp: with_task_def split: option.split)

lemma step_child_result:
  "tasks s j = Some t \<Longrightarrow> t_pc t = PChild \<Longrightarrow> t_msg t = Some m \<Longrightarrow> t_wait t = Some w \<Longrightarrow> results s w = Some r \<Longrightarrow>
   step s (child_done j t m w s)"
  by (rule step_child) simp_all

lemma reachable_perform:
  assumes "reachable s"
  shows "reachable (perform e s)"
  using assms
  by (cases e) (auto intro!: with_task_step goes_step
      intro: reachable_step [OF assms step_accept] reachable_step [OF assms step_child_result] step_turn step_release
        reachable_step [OF assms step_start] reachable_step [OF assms step_returns]
        reachable_step [OF assms step_collect] reachable_step [OF assms step_session] split: option.split)

lemma reachable_run: "reachable s \<Longrightarrow> reachable (fold perform es s)"
  by (induction es arbitrary: s) (simp_all add: reachable_perform)

definition sample_request :: "string \<Rightarrow> string \<Rightarrow> string \<Rightarrow> string \<Rightarrow> Message" where
  "sample_request rid flow lock child = Req (TellReq \<lparr>tr_RequestID = rid, tr_Value = None, tr_Deadline = 0,
     tr_Target = Session \<lparr>s_Name = ''A'', s_ID = ''1'', s_Flow = flow, s_DeferredLockID = lock\<rparr>, tr_Method = ''m'',
     tr_Sequence = 0, tr_ChildID = child, tr_ParentID = '''', tr_IsEdited = False\<rparr>)"

definition sample_run :: "event list \<Rightarrow> sess" where
  "sample_run es = fold perform (ERegister ''m'' # es) (connect 0 False)"

lemma sample_reachable: "reachable (sample_run es)"
  by (simp only: sample_run_def reachable_run reachable_connect)

text \<open>Two requests of different flows; the first is in its handler, the second waits.\<close>

definition sample_two :: "event list" where
  "sample_two = [EAccept 0 '''' (sample_request ''r1'' ''f1'' '''' ''''), EAccept 0 '''' (sample_request ''r2'' ''f2'' '''' ''''),
     ETurn '''' 0, ETurn '''' 1, EStart [] 0 0]"

theorem exclusive_execution_witness:
  "{j. runs_exclusively (sample_run sample_two) j (''A'', ''1'')} = {0} \<and>
   map_option t_pc (tasks (sample_run sample_two) 1) = Some PBefore"
proof -
  have "runs_exclusively (sample_run sample_two) 0 (''A'', ''1'')"
    "map_option t_pc (tasks (sample_run sample_two) 1) = Some PBefore"
    by code_simp+
  with exclusive_execution [OF sample_reachable this(1)] show ?thesis
    by blast
qed

theorem token_conserved_witness:
  "map_of (sessionTable (sample_run sample_two)) (''A'', ''1'') = Some 0 \<and>
   (\<exists>!x. tok (sample_run sample_two) x = Some 0)"
proof -
  have "\<not> ctx_done (sample_run sample_two)" "map_of (sessionTable (sample_run sample_two)) (''A'', ''1'') = Some 0"
    by code_simp+
  with token_conserved [OF sample_reachable this] show ?thesis
    by blast
qed

text \<open>The first request is over and is about to hand the token on.\<close>

theorem channels_safe_witness:
  "map_option t_pc (tasks (sample_run (sample_two @ [EReturn 0 True (Returned None None) 0])) 0) = Some PRelease \<and>
   (\<exists>s'. chan_step '''' 0 (sample_run (sample_two @ [EReturn 0 True (Returned None None) 0])) = Goes s')"
proof -
  let ?s = "sample_run (sample_two @ [EReturn 0 True (Returned None None) 0])"
  have p: "map_option t_pc (tasks ?s 0) = Some PRelease"
    by code_simp
  then obtain t where "tasks ?s 0 = Some t" "t_pc t = PRelease"
    by blast
  with p channels_safe [OF sample_reachable, where uid = "''''" and j = 0] show ?thesis
    by blast
qed

end
