(* ===== verification/Rpc_Requests.thy ===== *)
theory Rpc_Requests
  imports Rpc_Exclusion
begin

text \<open>
  What the request layer promises to the callers and to the runtime above it: the delivery of responses,
  the outcome of calls, the message that ends a session task, and the bookkeeping of sessions and of the
  placement cache.
\<close>

section \<open>Answers\<close>

lemma response_read:
  assumes "map_of (pending s) (rs_RequestID m) = Some ch"
  shows "call_wait (rs_RequestID m) ch (accept_response m s) =
    Some ((rs_Value m, if rs_ErrMsg m = '''' then None else Some (ErrMsg (rs_ErrMsg m))),
      s\<lparr>pending := mdel (rs_RequestID m) (mdel (rs_RequestID m) (pending s)), results := (results s)(ch := None)\<rparr>)"
  using assms by (simp add: accept_response_def call_wait_def reclaim_def)

text \<open>A response reaches the caller that waits for it and nobody else: once it is accepted, \<^verbatim>\<open>call\<close> returns
  its value and error, the id is reclaimed, other pending ids and the channels of other callers are
  untouched, and accepting the response again, or a response nobody waits for, changes nothing.\<close>

theorem response_delivery:
  assumes "map_of (pending s) (rs_RequestID m) = Some ch"
  shows "\<exists>s'. call_wait (rs_RequestID m) ch (accept_response m s) =
      Some ((rs_Value m, if rs_ErrMsg m = '''' then None else Some (ErrMsg (rs_ErrMsg m))), s') \<and>
    map_of (pending s') = (map_of (pending s))(rs_RequestID m := None) \<and>
    results s' = (results s)(ch := None) \<and>
    accept_response m (accept_response m s) = accept_response m s \<and> accept_response m s' = s'"
  using assms by (simp add: accept_response_def call_wait_def reclaim_def)

definition sample_response :: Response where
  "sample_response = \<lparr>rs_RequestID = ''req-1'', rs_Value = Some ''v'', rs_Deadline = 0, rs_ErrMsg = '''', rs_Node = ''n''\<rparr>"

theorem response_delivery_witness:
  "\<exists>s'. call_wait ''req-1'' 0 (accept_response sample_response (store_request ''req-1'' (connect 0 False))) =
     Some ((Some ''v'', None), s')"
proof -
  have "map_of (pending (store_request ''req-1'' (connect 0 False))) (rs_RequestID sample_response) = Some 0"
    by code_simp
  from response_delivery [OF this] show ?thesis
    by (auto simp: sample_response_def)
qed


text \<open>C15 What a session task sends when its handler is over: one message about the same request, except when the
  error is that of the context.  Without a tail call it is the response or completion, with a tail call the
  request with the next sequence number; and if the tail call keeps the lock, the token is put aside under
  the lock's id, the flow stays, and the deadline is lifted.\<close>

theorem finish_session_messages:
  assumes "\<And>e json. r \<noteq> Failed e json True"
  shows "\<exists>msg. outbox (finish_session j t i m r s) = outbox s @ [msg] \<and> requestID msg = reqID m \<and>
    (case r of
       Returned (Some d) v \<Rightarrow>
         (\<exists>m'. msg = Req m' \<and> sequence m' = sequence m + 1 \<and> target m' = d_Target d \<and> method_of m' = d_Method d \<and>
           (case deferral d t of
              Some (l, c) \<Rightarrow> deadline msg = 0 \<and> map_of (deferredLocks (finish_session j t i m r s)) l = Some c \<and>
                insts (finish_session j t i m r s) = insts s \<and> tasks (finish_session j t i m r s) j = None
            | None \<Rightarrow> deadline msg = deadline (Req m) \<and> deferredLocks (finish_session j t i m r s) = deferredLocks s))
     | Returned None v \<Rightarrow> msg = completion m '''' v
     | Failed e json _ \<Rightarrow> msg = completion m e json)"
proof -
  have out: "outbox (to_release j t s) = outbox s" "outbox (clear_flow i t s) = outbox s"
    "deferredLocks (to_release j t s) = deferredLocks s" "deferredLocks (clear_flow i t s) = deferredLocks s"
    "insts (to_release j t s) = insts s" for t s
    by (simp_all add: to_release_def put_task_def end_task_def clear_flow_def set_flow_def)
  have id: "requestID (completion m e v) = reqID m" for e v
    by (cases m) (simp_all add: completion_def)
  have tr: "reqID (tail_request m d dl v) = reqID m" "sequence (tail_request m d dl v) = sequence m + 1"
    "target (tail_request m d dl v) = d_Target d" "method_of (tail_request m d dl v) = d_Method d"
    "deadline (Req (tail_request m d dl v)) = dl" for d dl v
    by (cases m; simp add: tail_request_def)+
  show ?thesis
    using assms
    by (auto simp: finish_session_def out send_out_def id tr Let_def to_release_def end_task_def put_task_def
        split: outcome.split option.split)
qed


definition sample_tr :: TellRequest where
  "sample_tr = \<lparr>tr_RequestID = ''r1'', tr_Value = None, tr_Deadline = 5, tr_Target = Session \<lparr>s_Name = ''A'',
     s_ID = ''1'', s_Flow = ''f1'', s_DeferredLockID = ''''\<rparr>, tr_Method = ''m'', tr_Sequence = 0, tr_ChildID = '''',
     tr_ParentID = '''', tr_IsEdited = False\<rparr>"


text \<open>A task that keeps its lock with a tail call.\<close>

definition sample_task :: task where
  "sample_task = \<lparr>t_at = AtSession 0 \<lparr>s_Name = ''A'', s_ID = ''1'', s_Flow = ''f1'', s_DeferredLockID = ''''\<rparr>,
     t_msg = None, t_before = Some (0, 0), t_wait = None, t_after = Some (0, 1), t_clear = True, t_pc = PRunning\<rparr>"

definition sample_dest :: Destination where
  "sample_dest = \<lparr>d_Target = Session \<lparr>s_Name = ''A'', s_ID = ''1'', s_Flow = ''f1'', s_DeferredLockID = ''lock''\<rparr>,
     d_Method = ''m2''\<rparr>"

theorem finish_session_messages_witness:
  "\<exists>m'. outbox (finish_session 0 sample_task 0 (TellReq sample_tr) (Returned (Some sample_dest) None) (connect 0 False)) = [Req m'] \<and>
     reqID m' = ''r1'' \<and> sequence m' = 1 \<and> deferral sample_dest sample_task = Some (''lock'', (0, 1)) \<and>
     map_of (deferredLocks (finish_session 0 sample_task 0 (TellReq sample_tr) (Returned (Some sample_dest) None) (connect 0 False))) ''lock'' =
       Some (0, 1)"
proof -
  have d: "deferral sample_dest sample_task = Some (''lock'', (0, 1))" "sequence (TellReq sample_tr) = 0"
    "reqID (TellReq sample_tr) = ''r1''" "outbox (connect 0 False) = []"
    by code_simp+
  show ?thesis
    using finish_session_messages [of "Returned (Some sample_dest) None" 0 sample_task 0 "TellReq sample_tr" "connect 0 False"]
    unfolding d(2-) by (auto simp: d(1))
qed


section \<open>Bookkeeping of sessions\<close>

lemma map_of_sweep:
  assumes "wf_map m"
  shows "map_of (sweep_cache m) k =
    (case map_of m k of Some e \<Rightarrow> if pc_used e then Some (e\<lparr>pc_used := False\<rparr>) else None | None \<Rightarrow> None)"
  using assms
proof (induction m arbitrary: k)
  case (Cons p m)
  have "map_of m (fst p) = None"
    using Cons.prems by (cases p) (simp add: wf_map_def map_of_eq_None_iff)
  then have "map_of (sweep_cache m) (fst p) = None"
    using Cons.IH [of "fst p"] Cons.prems by (simp add: wf_map_def)
  moreover have "sweep_cache (p # m) = (case sweep_entry p of Some q \<Rightarrow> q # sweep_cache m | None \<Rightarrow> sweep_cache m)"
    by (simp add: sweep_cache_def map_filter_simps split: option.split)
  ultimately show ?case
    using Cons by (cases p) (auto simp: sweep_entry_def wf_map_def split: option.splits)
qed (simp add: sweep_cache_def map_filter_simps)

text \<open>The pass of the collector over the placement cache keeps exactly the entries used since the last pass,
  so that one that is not used in between is gone after two; and a cache that agreed with the store and
  named live nodes only still does.\<close>

theorem sweep_cache_spec:
  assumes "wf_map (session2NodeCache st)"
  shows "dom (map_of (sweep_cache (session2NodeCache st))) =
      {k. \<exists>e. map_of (session2NodeCache st) k = Some e \<and> pc_used e} \<and>
    sweep_cache (sweep_cache (session2NodeCache st)) = [] \<and>
    (cache_coherent sc v st \<longrightarrow> cache_coherent sc v (st\<lparr>session2NodeCache := sweep_cache (session2NodeCache st)\<rparr>))"
proof (intro conjI impI)
  show "dom (map_of (sweep_cache (session2NodeCache st))) = {k. \<exists>e. map_of (session2NodeCache st) k = Some e \<and> pc_used e}"
    by (auto simp: map_of_sweep [OF assms] split: option.splits if_splits)
  show "sweep_cache (sweep_cache (session2NodeCache st)) = []"
    by (induction "session2NodeCache st") (auto simp: sweep_cache_def map_filter_def sweep_entry_def)
next
  assume "cache_coherent sc v st"
  then show "cache_coherent sc v (st\<lparr>session2NodeCache := sweep_cache (session2NodeCache st)\<rparr>)"
    by (auto simp: cache_coherent_def map_of_sweep [OF assms] split: option.splits if_splits)
qed

theorem sweep_cache_spec_witness:
  "dom (map_of (sweep_cache (session2NodeCache (sample_st\<lparr>session2NodeCache :=
     [(''a'', \<lparr>pc_node = ''n1'', pc_used = True\<rparr>), (''b'', \<lparr>pc_node = ''n2'', pc_used = False\<rparr>)]\<rparr>)))) = {''a''}"
proof -
  let ?st = "sample_st\<lparr>session2NodeCache :=
     [(''a'', \<lparr>pc_node = ''n1'', pc_used = True\<rparr>), (''b'', \<lparr>pc_node = ''n2'', pc_used = False\<rparr>)]\<rparr>"
  have "wf_map (session2NodeCache ?st)"
    by (simp add: wf_map_def)
  from sweep_cache_spec [OF this] show ?thesis
    by (auto split: if_splits)
qed

lemma group_active_spec:
  "d \<in> set (mget [] (group_active name ins es m) n) \<longleftrightarrow>
     d \<in> set (mget [] m n) \<or> (\<exists>k i. (k, i) \<in> set es \<and> valid (ins i) \<and> Activated (ins i) \<and>
       (name = '''' \<or> in_Name (ins i) = name) \<and> in_Name (ins i) = n \<and> in_ID (ins i) = d)"
  by (induction name ins es m rule: group_active.induct) (auto simp: Let_def)

text \<open>\<^verbatim>\<open>getLocalActivatedSessions\<close> lists, in every reachable state and whatever the order of the table, exactly
  the activated sessions of the table, of the type asked for, or of every type if none is given.\<close>

theorem getLocalActivatedSessions_spec:
  assumes "reachable s" "range_order rng"
  shows "d \<in> set (mget [] (getLocalActivatedSessions rng name s) n) \<longleftrightarrow>
    (name = '''' \<or> n = name) \<and> (\<exists>i. (((n, d), i) \<in> set (sessionTable s)) \<and> Activated (insts s i))"
proof -
  have tab: "map_of (sessionTable s) k = Some x \<longleftrightarrow>
    x < ninst s \<and> valid (insts s x) \<and> (in_Name (insts s x), in_ID (insts s x)) = k" for x k
    using reachable_inv [OF assms(1)] unfolding sess_inv_def table_inv_def by blast
  have "wf_map (sessionTable s)"
    using reachable_inv [OF assms(1)] by (simp add: sess_inv_def table_inv_def)
  then have "(k, i) \<in> set (sessionTable s) \<longleftrightarrow> map_of (sessionTable s) k = Some i" for k i
    by (simp add: wf_map_def)
  with tab show ?thesis
    by (auto simp: getLocalActivatedSessions_def group_active_spec range_order_set [OF assms(2)])
qed


theorem getLocalActivatedSessions_spec_witness:
  "''1'' \<in> set (mget [] (getLocalActivatedSessions (\<lambda>xs. xs) ''A''
     (sample_run (sample_two @ [EReturn 0 True (Returned None None) 0]))) ''A'')"
proof -
  let ?s = "sample_run (sample_two @ [EReturn 0 True (Returned None None) 0])"
  have "sessionTable ?s = [((''A'', ''1''), 0)]" "Activated (insts ?s 0)"
    by code_simp+
  then show ?thesis
    using getLocalActivatedSessions_spec [OF sample_reachable range_order_id, of "''1''" "''A''" _ "''A''"] by auto
qed

section \<open>Recovery of nested calls\<close>

text \<open>
  A request and a nested request of the same flow are sent again after a failure; both had a nested call
  outstanding, so both wait for it: \<^verbatim>\<open>r1\<close> with the token, \<^verbatim>\<open>r2\<close> as a re-entrant task.  Then the call of \<^verbatim>\<open>r2\<close> is
  answered.
\<close>

definition recovered_nested :: "event list" where
  "recovered_nested =
     [EAccept 0 '''' (sample_request ''r1'' ''f'' '''' ''c1''), ETurn '''' 0,
      EAccept 0 '''' (sample_request ''r2'' ''f'' '''' ''c2''),
      EAccept 0 '''' (Resp (sample_response\<lparr>rs_RequestID := ''c2''\<rparr>)), EChild 1, EStart [] 0 1]"

definition nested_again :: event where
  "nested_again = EAccept 0 '''' (sample_request ''r3'' ''f'' '''' '''')"

text \<open>When the re-entrant task resumes, the flow of the instance is released although the other task of the
  flow still has the token; a further nested request of that flow is therefore queued behind the token, and
  not let in as it would have been just before.\<close>

theorem recovered_nested_call_queues:
  "reachable (sample_run recovered_nested) \<and>
   runs_exclusively (sample_run recovered_nested) 0 (''A'', ''1'') \<and>
   map_option t_pc (tasks (sample_run recovered_nested) 1) = Some PRunning \<and>
   ActiveFlow (insts (sample_run recovered_nested) 0) = releasedFlow \<and>
   map_option t_pc (tasks (sample_run (recovered_nested @ [nested_again])) 2) = Some PBefore \<and>
   map_option t_pc (tasks (sample_run (take 4 recovered_nested @ [nested_again])) 2) = Some PStart"
proof (intro conjI)
  show "reachable (sample_run recovered_nested)"
    by (rule sample_reachable)
qed code_simp+

end
