(* ===== verification/Reminder_Queue.thy ===== *)
theory Reminder_Queue
  imports KAR_Prelude
begin

text \<open>
  \<^verbatim>\<open>src/core/internal/runtime/reminder_queue.go\<close>: the priority queue of reminders, a binary heap in a
  slice, with the operations of Go's \<^verbatim>\<open>container/heap\<close> it is used through.  The two gauges are part of the
  state.  Shown here: the heap order and the stored indices are kept, no reminder is lost or duplicated,
  and \<^verbatim>\<open>nextReminderBefore\<close> returns an earliest reminder that is due and not cancelled.
\<close>

section \<open>Data\<close>

record Actor =
  Type :: string
  ID :: string

record Reminder =
  r_Actor :: Actor
  r_ID :: string
  r_key :: string
  r_Path :: string
  r_TargetTime :: time
  r_Period :: int
  r_EncodedData :: string

record reminderEntry =
  re_r :: Reminder
  re_cancelled :: bool
  re_index :: int

type_synonym reminderQueue = "reminderEntry list"

definition Less :: "reminderQueue \<Rightarrow> nat \<Rightarrow> nat \<Rightarrow> bool" where
  "Less rq i j \<longleftrightarrow> r_TargetTime (re_r (rq ! i)) < r_TargetTime (re_r (rq ! j))"

definition Swap :: "reminderQueue \<Rightarrow> nat \<Rightarrow> nat \<Rightarrow> reminderQueue" where
  "Swap rq i j =
     (let rq1 = rq[i := rq ! j, j := rq ! i];
          rq2 = rq1[i := (rq1 ! i)\<lparr>re_index := int i\<rparr>]
      in rq2[j := (rq2 ! j)\<lparr>re_index := int j\<rparr>])"

definition Push :: "reminderQueue \<Rightarrow> reminderEntry \<Rightarrow> reminderQueue" where
  "Push rq x = rq @ [x\<lparr>re_index := int (length rq)\<rparr>]"

text \<open>The queue is not empty.\<close>

definition Pop :: "reminderQueue \<Rightarrow> reminderEntry \<times> reminderQueue" where
  "Pop rq = ((last rq)\<lparr>re_index := -1\<rparr>, butlast rq)"

section \<open>The heap operations of the Go library\<close>

text \<open>\<^verbatim>\<open>up(h, j)\<close>: in Go \<^verbatim>\<open>(j - 1) / 2\<close> is 0 for \<^verbatim>\<open>j = 0\<close>, as it is here.\<close>

function up :: "reminderQueue \<Rightarrow> nat \<Rightarrow> reminderQueue" where
  "up rq j =
     (let i = (j - 1) div 2
      in if i = j \<or> \<not> Less rq j i then rq else up (Swap rq i j) i)"
  by pat_completeness auto
termination
  by (relation "measure snd") auto

text \<open>\<^verbatim>\<open>down(h, i, n)\<close>\<close>

function down :: "reminderQueue \<Rightarrow> nat \<Rightarrow> nat \<Rightarrow> reminderQueue" where
  "down rq i n =
     (let j1 = 2 * i + 1
      in if j1 \<ge> n then rq
         else (let j = (if j1 + 1 < n \<and> Less rq (j1 + 1) j1 then j1 + 1 else j1)
               in if \<not> Less rq j i then rq else down (Swap rq i j) j n))"
  by pat_completeness auto
termination
  by (relation "measure (\<lambda>(rq, i, n). n - i)") (auto simp: Let_def)

declare up.simps [simp del] down.simps [simp del]

definition heap_Push :: "reminderQueue \<Rightarrow> reminderEntry \<Rightarrow> reminderQueue" where
  "heap_Push rq x = (let rq1 = Push rq x in up rq1 (length rq1 - 1))"

definition heap_Pop :: "reminderQueue \<Rightarrow> reminderEntry \<times> reminderQueue" where
  "heap_Pop rq = (let n = length rq - 1 in Pop (down (Swap rq 0 n) 0 n))"

section \<open>Operations\<close>

record reminders =
  queue :: reminderQueue
  activeGauge :: int
  cancelledGauge :: int

definition rq_add :: "Reminder \<Rightarrow> reminders \<Rightarrow> (int \<times> err option) \<times> reminders" where
  "rq_add b s =
     ((200, None), s\<lparr>queue := heap_Push (queue s) \<lparr>re_r = b, re_cancelled = False, re_index = 0\<rparr>,
        activeGauge := activeGauge s + 1\<rparr>)"

definition rq_selects :: "Actor \<Rightarrow> string \<Rightarrow> reminderEntry \<Rightarrow> bool" where
  "rq_selects actor i e \<longleftrightarrow> \<not> re_cancelled e \<and> r_Actor (re_r e) = actor \<and> (i = '''' \<or> r_ID (re_r e) = i)"

fun cancel_loop :: "Actor \<Rightarrow> string \<Rightarrow> reminderQueue \<Rightarrow> Reminder list \<Rightarrow> int \<Rightarrow> reminderQueue \<times> Reminder list \<times> int" where
  "cancel_loop actor i [] found n = ([], found, n)"
| "cancel_loop actor i (e # es) found n =
     (if rq_selects actor i e then
        (case cancel_loop actor i es (found @ [re_r e]) (n + 1) of
           (es', found', n') \<Rightarrow> (e\<lparr>re_cancelled := True\<rparr> # es', found', n'))
      else (case cancel_loop actor i es found n of (es', found', n') \<Rightarrow> (e # es', found', n')))"

definition rq_cancel :: "Actor \<Rightarrow> string \<Rightarrow> reminders \<Rightarrow> Reminder list \<times> reminders" where
  "rq_cancel actor i s =
     (case cancel_loop actor i (queue s) [] 0 of
        (q, found, n) \<Rightarrow>
          (found, s\<lparr>queue := q, activeGauge := activeGauge s - n, cancelledGauge := cancelledGauge s + n\<rparr>))"

definition rq_find :: "Actor \<Rightarrow> string \<Rightarrow> reminders \<Rightarrow> Reminder list" where
  "rq_find actor i s = map re_r (filter (rq_selects actor i) (queue s))"

text \<open>\<^verbatim>\<open>nextReminderBefore\<close>; the loop pops one entry per round.\<close>

lemma length_Swap [simp]: "length (Swap rq i j) = length rq"
  by (simp add: Swap_def Let_def)

lemma length_up [simp]: "length (up rq j) = length rq"
  by (induction rq j rule: up.induct) (subst up.simps, simp add: Let_def)

lemma length_down [simp]: "length (down rq i n) = length rq"
  by (induction rq i n rule: down.induct) (subst down.simps, simp add: Let_def)

lemma length_heap_Push [simp]: "length (heap_Push rq x) = Suc (length rq)"
  by (simp add: heap_Push_def Push_def)

lemma length_heap_Pop [simp]: "length (snd (heap_Pop rq)) = length rq - 1"
  by (simp add: heap_Pop_def Pop_def Let_def)

lemma heap_Pop_shorter: "(re, q) = heap_Pop rq \<Longrightarrow> rq \<noteq> [] \<Longrightarrow> length q < length rq"
  by (metis diff_less length_greater_0_conv length_heap_Pop less_one snd_conv)

function nextReminderBefore :: "time \<Rightarrow> reminders \<Rightarrow> Reminder option \<times> reminders" where
  "nextReminderBefore t s =
     (if length (queue s) > 0 \<and> r_TargetTime (re_r (queue s ! 0)) < t then
        (case heap_Pop (queue s) of
           (re, q) \<Rightarrow>
             (if re_cancelled re then
                nextReminderBefore t (s\<lparr>queue := q, cancelledGauge := cancelledGauge s - 1\<rparr>)
              else (Some (re_r re), s\<lparr>queue := q, activeGauge := activeGauge s - 1\<rparr>)))
      else (None, s))"
  by pat_completeness auto
termination
  by (relation "measure (\<lambda>(t, s). length (queue s))") (auto dest: heap_Pop_shorter)

declare nextReminderBefore.simps [simp del]

section \<open>Heap order\<close>

text \<open>The heap order, and the two states in which one place may be out of order, over the keys by place.\<close>

definition par :: "nat \<Rightarrow> nat" where
  "par k = (k - 1) div 2"

definition is_heap :: "(nat \<Rightarrow> int) \<Rightarrow> nat \<Rightarrow> bool" where
  "is_heap f n \<longleftrightarrow> (\<forall>k. 0 < k \<and> k < n \<longrightarrow> f (par k) \<le> f k)"

definition heap_but_up :: "(nat \<Rightarrow> int) \<Rightarrow> nat \<Rightarrow> nat \<Rightarrow> bool" where
  "heap_but_up f n j \<longleftrightarrow>
     (\<forall>k. 0 < k \<and> k < n \<and> k \<noteq> j \<longrightarrow> f (par k) \<le> f k) \<and>
     (\<forall>k. 0 < k \<and> k < n \<and> par k = j \<and> 0 < j \<longrightarrow> f (par j) \<le> f k)"

definition heap_but_down :: "(nat \<Rightarrow> int) \<Rightarrow> nat \<Rightarrow> nat \<Rightarrow> bool" where
  "heap_but_down f n i \<longleftrightarrow>
     (\<forall>k. 0 < k \<and> k < n \<and> par k \<noteq> i \<longrightarrow> f (par k) \<le> f k) \<and>
     (\<forall>k. 0 < k \<and> k < n \<and> par k = i \<and> 0 < i \<longrightarrow> f (par i) \<le> f k)"

lemma par_less: "0 < k \<Longrightarrow> par k < k"
  by (auto simp: par_def)

lemma par_neq: "0 < k \<Longrightarrow> par k \<noteq> k"
  using par_less [of k] by simp

lemma heap_but_up_swap:
  assumes h: "heap_but_up f n j" and j: "0 < j" "j < n" and less: "f j < f (par j)"
  shows "heap_but_up (f(par j := f j, j := f (par j))) n (par j)" (is "heap_but_up ?f n ?i")
  unfolding heap_but_up_def
proof (intro conjI allI impI; elim conjE)
  have a: "\<And>k. 0 < k \<Longrightarrow> k < n \<Longrightarrow> k \<noteq> j \<Longrightarrow> f (par k) \<le> f k"
    and b: "\<And>k. 0 < k \<Longrightarrow> k < n \<Longrightarrow> par k = j \<Longrightarrow> f (par j) \<le> f k"
    using h j(1) unfolding heap_but_up_def by blast+
  have i: "?i < j" "?i < n"
    using par_less [OF j(1)] j by simp_all
  fix k
  assume k: "0 < k" "k < n"
  show "?f (par k) \<le> ?f k" if "k \<noteq> ?i"
  proof (cases "k = j")
    case False
    have "f (par k) \<le> f k"
      using a [OF k False] .
    then show ?thesis
      using that False less b [OF k] par_neq [OF k(1)] i by auto
  qed (use less i in auto)
  show "?f (par ?i) \<le> ?f k" if "par k = ?i" "0 < ?i"
  proof -
    have "par ?i < ?i" "f (par ?i) \<le> f ?i"
      using par_less [OF that(2)] a [OF that(2)] i by auto
    then show ?thesis
      using a [OF k] that i par_neq [OF k(1)] by (cases "k = j") auto
  qed
qed

lemma heap_but_up_done:
  "heap_but_up f n j \<Longrightarrow> j = 0 \<or> f (par j) \<le> f j \<Longrightarrow> is_heap f n"
  unfolding heap_but_up_def is_heap_def by (metis less_irrefl)

lemma par_child: "0 < k \<Longrightarrow> par k = i \<longleftrightarrow> k = 2 * i + 1 \<or> k = 2 * i + 2"
  by (auto simp: par_def)

lemma heap_but_down_swap:
  assumes h: "heap_but_down f n i" and j: "par j = i" "0 < j" "j < n" and less: "f j < f i"
    and least: "\<And>k. 0 < k \<Longrightarrow> k < n \<Longrightarrow> par k = i \<Longrightarrow> f j \<le> f k"
  shows "heap_but_down (f(i := f j, j := f i)) n j" (is "heap_but_down ?f n j")
  unfolding heap_but_down_def
proof (intro conjI allI impI; elim conjE)
  have a: "\<And>k. 0 < k \<Longrightarrow> k < n \<Longrightarrow> par k \<noteq> i \<Longrightarrow> f (par k) \<le> f k"
    and b: "\<And>k. 0 < k \<Longrightarrow> k < n \<Longrightarrow> par k = i \<Longrightarrow> 0 < i \<Longrightarrow> f (par i) \<le> f k"
    using h unfolding heap_but_down_def by blast+
  have ij: "i < j"
    using par_less [OF j(2)] j(1) by simp
  fix k
  assume k: "0 < k" "k < n"
  show "?f (par k) \<le> ?f k" if "par k \<noteq> j"
  proof (cases "par k = i")
    case True
    then show ?thesis
      using least [OF k True] less ij par_neq [OF k(1)] by auto
  next
    case False
    then show ?thesis
      using a [OF k False] that b [of j] j ij par_less [of i] False k by (cases "k = i") auto
  qed
  show "?f (par j) \<le> ?f k" if "par k = j" "0 < j"
    using a [OF k] that j ij par_less [OF k(1)] by auto
qed

lemma heap_but_down_done:
  assumes "heap_but_down f n i" "\<And>k. 0 < k \<Longrightarrow> k < n \<Longrightarrow> par k = i \<Longrightarrow> f i \<le> f k"
  shows "is_heap f n"
  using assms unfolding heap_but_down_def is_heap_def by blast

lemma is_heap_root: "is_heap f n \<Longrightarrow> k < n \<Longrightarrow> f 0 \<le> f k"
proof (induction k rule: less_induct)
  case (less k)
  show ?case
  proof (cases "k = 0")
    case False
    then have "f 0 \<le> f (par k)" "f (par k) \<le> f k"
      using less par_less [of k] by (auto simp: is_heap_def)
    then show ?thesis
      by simp
  qed simp
qed


section \<open>The queue as a heap\<close>

definition due_at :: "reminderQueue \<Rightarrow> nat \<Rightarrow> int" where
  "due_at rq k = r_TargetTime (re_r (rq ! k))"

abbreviation pay :: "reminderEntry \<Rightarrow> Reminder \<times> bool" where
  "pay e \<equiv> (re_r e, re_cancelled e)"

text \<open>What the queue holds, and the invariant of the queue.\<close>

definition held :: "reminderQueue \<Rightarrow> (Reminder \<times> bool) multiset" where
  "held rq = image_mset pay (mset rq)"

definition indexed :: "reminderQueue \<Rightarrow> bool" where
  "indexed rq \<longleftrightarrow> (\<forall>k < length rq. re_index (rq ! k) = int k)"

definition rq_inv :: "reminderQueue \<Rightarrow> bool" where
  "rq_inv rq \<longleftrightarrow> is_heap (due_at rq) (length rq) \<and> indexed rq"

lemma Less_due: "Less rq i j \<longleftrightarrow> due_at rq i < due_at rq j"
  by (simp add: Less_def due_at_def)

lemma nth_Swap:
  assumes "i < length rq" "j < length rq" "k < length rq"
  shows "Swap rq i j ! k = (if k = j then (rq ! i)\<lparr>re_index := int j\<rparr> else if k = i then (rq ! j)\<lparr>re_index := int i\<rparr> else rq ! k)"
  using assms by (auto simp: Swap_def Let_def nth_list_update)

lemma due_at_Swap:
  assumes "i < length rq" "j < length rq" "k < length rq"
  shows "due_at (Swap rq i j) k = ((due_at rq)(i := due_at rq j, j := due_at rq i)) k"
  using assms by (simp add: due_at_def nth_Swap)

lemma held_Swap:
  assumes "i < length rq" "j < length rq"
  shows "held (Swap rq i j) = held rq"
proof -
  have "map pay (Swap rq i j) = (map pay rq)[i := map pay rq ! j, j := map pay rq ! i]"
    using assms by (intro nth_equalityI) (auto simp: nth_Swap nth_list_update)
  moreover have "mset ((map pay rq)[i := map pay rq ! j, j := map pay rq ! i]) = mset (map pay rq)"
    by (rule mset_swap) (use assms in simp_all)
  ultimately have "mset (map pay (Swap rq i j)) = mset (map pay rq)"
    by simp
  then show ?thesis
    by (simp add: held_def)
qed

lemma indexed_Swap:
  "i < length rq \<Longrightarrow> j < length rq \<Longrightarrow> indexed rq \<Longrightarrow> indexed (Swap rq i j)"
  by (auto simp: indexed_def nth_Swap)

lemma heap_cong:
  assumes "\<And>k. k < n \<Longrightarrow> f k = g k"
  shows "is_heap f n = is_heap g n" "j < n \<Longrightarrow> heap_but_up f n j = heap_but_up g n j"
    "j < n \<Longrightarrow> heap_but_down f n j = heap_but_down g n j"
proof -
  have p: "par k < n" if "k < n" for k
    using that by (auto simp: par_def)
  show "is_heap f n = is_heap g n"
    unfolding is_heap_def using assms p by auto
  show "heap_but_up f n j = heap_but_up g n j" if "j < n"
    unfolding heap_but_up_def using assms p that by auto
  show "heap_but_down f n j = heap_but_down g n j" if "j < n"
    unfolding heap_but_down_def using assms p that by auto
qed

lemma up_correct:
  assumes "heap_but_up (due_at rq) (length rq) j" "j < length rq" "indexed rq"
  shows "rq_inv (up rq j) \<and> held (up rq j) = held rq"
  using assms
proof (induction rq j rule: up.induct)
  case (1 rq j)
  let ?i = "(j - 1) div 2"
  have i: "?i = par j" "?i < length rq"
    using 1(3) by (auto simp: par_def)
  show ?case
  proof (cases "?i = j \<or> \<not> Less rq j ?i")
    case True
    then have "j = 0 \<or> due_at rq (par j) \<le> due_at rq j"
      using par_neq [of j] unfolding i(1) Less_due by auto
    then show ?thesis
      using True heap_but_up_done [OF 1(2)] 1(4) by (subst (1 2) up.simps) (simp add: rq_inv_def Let_def)
  next
    case False
    then have j: "0 < j" "due_at rq j < due_at rq (par j)"
      unfolding i(1) Less_due by (auto simp: par_def intro: gr0I)
    have "heap_but_up (due_at (Swap rq ?i j)) (length (Swap rq ?i j)) ?i"
      using heap_but_up_swap [OF 1(2) j(1) 1(3) j(2)] i(2)
        heap_cong(2) [where f = "due_at (Swap rq ?i j)" and n = "length rq", OF due_at_Swap, OF i(2) 1(3)]
      unfolding i(1) length_Swap by blast
    then have "rq_inv (up (Swap rq ?i j) ?i) \<and> held (up (Swap rq ?i j) ?i) = held (Swap rq ?i j)"
      using 1(1) [OF refl False] i 1(3,4) by (simp add: indexed_Swap)
    then show ?thesis
      using False held_Swap [OF i(2) 1(3)] by (subst (1 2) up.simps) (simp add: Let_def)
  qed
qed

lemma down_correct:
  assumes "heap_but_down (due_at rq) n i" "i < n" "n \<le> length rq" "indexed rq"
  shows "is_heap (due_at (down rq i n)) n \<and> indexed (down rq i n) \<and> held (down rq i n) = held rq \<and>
    (\<forall>k. n \<le> k \<and> k < length rq \<longrightarrow> down rq i n ! k = rq ! k)"
  using assms
proof (induction rq i n rule: down.induct)
  case (1 rq i n)
  define j where "j = (if 2 * i + 1 + 1 < n \<and> Less rq (2 * i + 1 + 1) (2 * i + 1) then 2 * i + 1 + 1 else 2 * i + 1)"
  have down: "down rq i n = (if 2 * i + 1 \<ge> n \<or> \<not> Less rq j i then rq else down (Swap rq i j) j n)"
    by (subst down.simps) (simp add: Let_def j_def)
  have kids: "par k = i \<longleftrightarrow> k = 2 * i + 1 \<or> k = 2 * i + 2" if "0 < k" for k
    using par_child [OF that] .
  have least: "due_at rq j \<le> due_at rq k" if "0 < k" "k < n" "par k = i" for k
    using that kids [of k] by (auto simp: j_def Less_due)
  show ?case
  proof (cases "2 * i + 1 \<ge> n \<or> \<not> Less rq j i")
    case True
    have "due_at rq i \<le> due_at rq k" if "0 < k" "k < n" "par k = i" for k
      using True least [OF that] kids [OF that(1)] that by (auto simp: Less_due)
    then have "is_heap (due_at rq) n"
      by (rule heap_but_down_done [OF 1(2)])
    then show ?thesis
      using True 1(5) by (simp add: down)
  next
    case False
    then have j: "j < n" "0 < j" "par j = i" "due_at rq j < due_at rq i" "i < length rq" "j < length rq" "i < j"
      using 1(3,4) kids [of j] by (auto simp: j_def Less_due)
    have "heap_but_down (due_at (Swap rq i j)) n j = heap_but_down ((due_at rq)(i := due_at rq j, j := due_at rq i)) n j"
      by (rule heap_cong(3) [OF due_at_Swap [OF j(5,6)] j(1)]) (use 1(4) in simp)
    then have "heap_but_down (due_at (Swap rq i j)) n j"
      using heap_but_down_swap [OF 1(2) j(3,2,1,4) least] by blast
    then have "is_heap (due_at (down (Swap rq i j) j n)) n \<and> indexed (down (Swap rq i j) j n) \<and>
      held (down (Swap rq i j) j n) = held (Swap rq i j) \<and>
      (\<forall>k. n \<le> k \<and> k < length (Swap rq i j) \<longrightarrow> down (Swap rq i j) j n ! k = Swap rq i j ! k)"
      using False 1(4,5) j by (intro 1(1) [OF refl _ j_def]) (simp_all add: indexed_Swap)
    then show ?thesis
      using False held_Swap [OF j(5,6)] j 1(3,4) by (auto simp: down nth_Swap)
  qed
qed

lemma heap_Push_correct:
  assumes "rq_inv rq"
  shows "rq_inv (heap_Push rq x) \<and> held (heap_Push rq x) = add_mset (pay x) (held rq)"
proof -
  let ?rq = "Push rq x"
  have d: "due_at ?rq k = due_at rq k" if "k < length rq" for k
    using that by (simp add: due_at_def Push_def nth_append)
  have "heap_but_up (due_at ?rq) (length ?rq) (length rq)"
    unfolding heap_but_up_def
  proof (intro conjI allI impI; elim conjE)
    fix k
    assume k: "0 < k" "k < length ?rq"
    show "due_at ?rq (par k) \<le> due_at ?rq k" if "k \<noteq> length rq"
      using that k assms par_less [OF k(1)] d [of k] d [of "par k"]
      by (auto simp: rq_inv_def is_heap_def Push_def less_Suc_eq)
    show "due_at ?rq (par (length rq)) \<le> due_at ?rq k" if "par k = length rq" "0 < length rq"
      using that k par_less [OF k(1)] by (simp add: Push_def)
  qed
  moreover have "indexed ?rq"
    using assms by (auto simp: rq_inv_def indexed_def Push_def nth_append less_Suc_eq)
  moreover have "held ?rq = add_mset (pay x) (held rq)"
    by (simp add: held_def Push_def)
  ultimately show ?thesis
    using up_correct [of ?rq "length rq"] by (simp add: heap_Push_def Push_def)
qed

lemma heap_Pop_correct:
  assumes inv: "rq_inv rq" and ne: "rq \<noteq> []" and pop: "heap_Pop rq = (e, q)"
  shows "rq_inv q" "pay e = pay (rq ! 0)" "held rq = add_mset (pay e) (held q)"
proof -
  let ?n = "length rq - 1"
  let ?s = "Swap rq 0 ?n"
  let ?d = "down ?s 0 ?n"
  have n: "?n < length rq" "0 < length rq"
    using ne by simp_all
  have e: "e = (last ?d)\<lparr>re_index := -1\<rparr>" "q = butlast ?d"
    using pop by (simp_all add: heap_Pop_def Pop_def Let_def)
  have ix: "indexed ?s" "held ?s = held rq"
    using inv n by (simp_all add: rq_inv_def indexed_Swap held_Swap)
  have d: "is_heap (due_at ?d) ?n \<and> indexed ?d \<and> held ?d = held ?s \<and> ?d ! ?n = ?s ! ?n"
  proof (cases "?n = 0")
    case True
    then show ?thesis
      using ix by (subst (1 2 3 4) down.simps) (simp add: Let_def is_heap_def)
  next
    case False
    have "heap_but_down (due_at ?s) ?n 0"
      unfolding heap_but_down_def
    proof (intro conjI allI impI; elim conjE)
      fix k
      assume k: "0 < k" "k < ?n" "par k \<noteq> 0"
      then have "k < length rq" "par k < length rq" "par k \<noteq> ?n"
        using par_less [OF k(1)] by linarith+
      then show "due_at ?s (par k) \<le> due_at ?s k"
        using inv k n due_at_Swap [of 0 rq ?n k] due_at_Swap [of 0 rq ?n "par k"]
        by (simp add: rq_inv_def is_heap_def)
    qed simp
    then show ?thesis
      using down_correct [of ?s ?n 0] False ix n by simp
  qed
  have len: "length ?d = Suc ?n" "?d \<noteq> []"
    using n by (simp_all flip: length_greater_0_conv)
  have lst: "last ?d = ?d ! ?n"
    using len by (simp add: last_conv_nth)
  show "pay e = pay (rq ! 0)"
    using e lst d n by (simp add: nth_Swap)
  have "held ?d = add_mset (pay (last ?d)) (held (butlast ?d))"
    by (subst (1) append_butlast_last_id [OF len(2), symmetric]) (simp add: held_def)
  then show "held rq = add_mset (pay e) (held q)"
    using d ix e by simp
  show "rq_inv q"
    using d len by (auto simp: e rq_inv_def indexed_def is_heap_def due_at_def nth_butlast par_def)
qed

section \<open>The reminders that are active\<close>

text \<open>The abstract queue: the multiset of the reminders that are not cancelled.\<close>

definition active :: "reminders \<Rightarrow> Reminder multiset" where
  "active s = image_mset fst (filter_mset (\<lambda>p. \<not> snd p) (held (queue s)))"

definition reminders_inv :: "reminders \<Rightarrow> bool" where
  "reminders_inv s \<longleftrightarrow> rq_inv (queue s) \<and> activeGauge s = int (size (active s)) \<and>
     cancelledGauge s = int (length (queue s)) - int (size (active s))"

lemma active_alt: "active s = mset (map re_r (filter (\<lambda>e. \<not> re_cancelled e) (queue s)))"
  by (simp add: active_def held_def filter_mset_image_mset image_mset.compositionality comp_def)

lemma rq_add_active:
  assumes "reminders_inv s" "rq_add b s = (r, s')"
  shows "reminders_inv s'" "active s' = add_mset b (active s)" "r = (200, None)"
  using assms heap_Push_correct [of "queue s" "\<lparr>re_r = b, re_cancelled = False, re_index = 0\<rparr>"]
  by (auto simp: rq_add_def reminders_inv_def active_def)

definition rq_mark :: "Actor \<Rightarrow> string \<Rightarrow> reminderEntry \<Rightarrow> reminderEntry" where
  "rq_mark actor i e = (if rq_selects actor i e then e\<lparr>re_cancelled := True\<rparr> else e)"

lemma cancel_loop_eq:
  "cancel_loop actor i q found n = (map (rq_mark actor i) q, found @ map re_r (filter (rq_selects actor i) q),
     n + int (length (filter (rq_selects actor i) q)))"
  by (induction actor i q found n rule: cancel_loop.induct) (auto simp: rq_mark_def)

definition rq_matches :: "Actor \<Rightarrow> string \<Rightarrow> Reminder \<Rightarrow> bool" where
  "rq_matches actor i r \<longleftrightarrow> r_Actor r = actor \<and> (i = '''' \<or> r_ID r = i)"

lemma rq_find_active: "mset (rq_find actor i s) = filter_mset (rq_matches actor i) (active s)"
  by (simp add: rq_find_def active_alt filter_mset_image_mset flip: mset_filter)
    (simp add: rq_selects_def rq_matches_def conj_commute)

lemma marked_active:
  "mset (map re_r (filter (\<lambda>e. \<not> re_cancelled e) (map (rq_mark actor i) q))) =
     filter_mset (\<lambda>r. \<not> rq_matches actor i r) (mset (map re_r (filter (\<lambda>e. \<not> re_cancelled e) q)))"
  by (induction q) (auto simp: rq_mark_def rq_selects_def rq_matches_def)

lemma rq_cancel_active:
  assumes inv: "reminders_inv s" and c: "rq_cancel actor i s = (found, s')"
  shows "reminders_inv s'" "mset found = filter_mset (rq_matches actor i) (active s)"
    "active s' = filter_mset (\<lambda>r. \<not> rq_matches actor i r) (active s)"
proof -
  have s': "found = rq_find actor i s" "queue s' = map (rq_mark actor i) (queue s)"
    "activeGauge s' = activeGauge s - int (length found)" "cancelledGauge s' = cancelledGauge s + int (length found)"
    using c by (auto simp: rq_cancel_def cancel_loop_eq rq_find_def)
  show found: "mset found = filter_mset (rq_matches actor i) (active s)"
    by (simp add: s' rq_find_active)
  show act: "active s' = filter_mset (\<lambda>r. \<not> rq_matches actor i r) (active s)"
    by (simp only: active_alt s' marked_active)
  have "size (active s) = length found + size (active s')"
    using found act by (metis multiset_partition size_mset size_union)
  moreover have "rq_inv (map (rq_mark actor i) (queue s))"
  proof -
    have "due_at (map (rq_mark actor i) q) k = due_at q k \<and> re_index (map (rq_mark actor i) q ! k) = re_index (q ! k)"
      if "k < length q" for q k
      using that by (simp add: due_at_def rq_mark_def)
    then show ?thesis
      using inv heap_cong(1) [of "length (queue s)" "due_at (map (rq_mark actor i) (queue s))" "due_at (queue s)"]
      by (simp add: reminders_inv_def rq_inv_def indexed_def)
  qed
  ultimately show "reminders_inv s'"
    using inv by (simp add: reminders_inv_def s')
qed

lemma nextReminderBefore_active:
  assumes "reminders_inv s" "nextReminderBefore t s = (res, s')"
  shows "reminders_inv s' \<and>
    (case res of
       Some r \<Rightarrow> active s = add_mset r (active s') \<and> r_TargetTime r < t \<and>
         (\<forall>r' \<in># active s. r_TargetTime r \<le> r_TargetTime r')
     | None \<Rightarrow> active s' = active s \<and> (\<forall>r \<in># active s. t \<le> r_TargetTime r))"
  using assms
proof (induction t s rule: nextReminderBefore.induct)
  case (1 t s)
  have inv: "rq_inv (queue s)"
    using 1(2) by (simp add: reminders_inv_def)
  have least: "r_TargetTime (re_r (queue s ! 0)) \<le> r_TargetTime r" if r: "r \<in># active s" for r
  proof -
    obtain k where "k < length (queue s)" "r = re_r (queue s ! k)"
      using r by (auto simp: active_alt in_set_conv_nth)
    then show ?thesis
      using inv is_heap_root [of "due_at (queue s)" "length (queue s)" k] by (simp add: rq_inv_def due_at_def)
  qed
  show ?case
  proof (cases "length (queue s) > 0 \<and> r_TargetTime (re_r (queue s ! 0)) < t")
    case False
    then have "res = None" "s' = s"
      using 1(3) nextReminderBefore.simps [of t s] by (simp_all only: False if_False prod.inject simp_thms)
    moreover have "t \<le> r_TargetTime r" if "r \<in># active s" for r
    proof -
      have "queue s \<noteq> []"
        using that by (auto simp: active_alt)
      then show ?thesis
        using False least [OF that] by simp
    qed
    ultimately show ?thesis
      using 1(2) by simp
  next
    case True
    obtain re q where pop: "heap_Pop (queue s) = (re, q)"
      by fastforce
    have ne: "queue s \<noteq> []"
      using True by auto
    note p = heap_Pop_correct [OF inv ne pop]
    have len: "length (queue s) = Suc (length q)"
      using length_heap_Pop [of "queue s"] pop ne by simp
    show ?thesis
    proof (cases "re_cancelled re")
      case c: True
      let ?s = "s\<lparr>queue := q, cancelledGauge := cancelledGauge s - 1\<rparr>"
      have "active ?s = active s"
        using p c by (simp add: active_def)
      moreover have "reminders_inv ?s"
        using 1(2) p(1) len calculation by (simp add: reminders_inv_def)
      moreover have "nextReminderBefore t ?s = (res, s')"
        using 1(3) nextReminderBefore.simps [of t s] by (simp only: True pop c if_True prod.case simp_thms)
      ultimately show ?thesis
        using 1(1) [OF True pop [symmetric] c] by (simp only:)
    next
      case c: False
      then have s': "res = Some (re_r re)" "s' = s\<lparr>queue := q, activeGauge := activeGauge s - 1\<rparr>"
        using 1(3) nextReminderBefore.simps [of t s] by (simp_all only: True pop if_True if_False prod.case prod.inject simp_thms)
      moreover have "active s = add_mset (re_r re) (active s')"
        using p(3) c by (simp add: active_def s')
      ultimately show ?thesis
        using 1(2) p True len least by (auto simp: reminders_inv_def)
    qed
  qed
qed

section \<open>The number of reminders that are due\<close>

text \<open>Popping takes the first entry off in any case, heap or not.\<close>

lemma held_down:
  assumes "i < n" "n \<le> length rq"
  shows "held (down rq i n) = held rq \<and> (\<forall>k. n \<le> k \<and> k < length rq \<longrightarrow> down rq i n ! k = rq ! k)"
  using assms
proof (induction rq i n rule: down.induct)
  case (1 rq i n)
  define j where "j = (if 2 * i + 1 + 1 < n \<and> Less rq (2 * i + 1 + 1) (2 * i + 1) then 2 * i + 1 + 1 else 2 * i + 1)"
  have down: "down rq i n = (if 2 * i + 1 \<ge> n \<or> \<not> Less rq j i then rq else down (Swap rq i j) j n)"
    by (subst down.simps) (simp add: Let_def j_def)
  show ?case
  proof (cases "2 * i + 1 \<ge> n \<or> \<not> Less rq j i")
    case False
    then have j: "j < n" "i < length rq" "j < length rq"
      using 1(2,3) by (auto simp: j_def)
    then have "held (down (Swap rq i j) j n) = held (Swap rq i j) \<and>
      (\<forall>k. n \<le> k \<and> k < length (Swap rq i j) \<longrightarrow> down (Swap rq i j) j n ! k = Swap rq i j ! k)"
      using False 1(3) by (intro 1(1) [OF refl _ j_def]) simp_all
    then show ?thesis
      using False held_Swap [OF j(2,3)] j 1(2,3) by (auto simp: down nth_Swap)
  qed (simp add: down)
qed

lemma held_heap_Pop:
  assumes "rq \<noteq> []" "heap_Pop rq = (e, q)"
  shows "held rq = add_mset (pay e) (held q)" "pay e = pay (rq ! 0)"
proof -
  let ?n = "length rq - 1"
  let ?d = "down (Swap rq 0 ?n) 0 ?n"
  have e: "e = (last ?d)\<lparr>re_index := -1\<rparr>" "q = butlast ?d"
    using assms(2) by (simp_all add: heap_Pop_def Pop_def Let_def)
  have d: "held ?d = held rq \<and> ?d ! ?n = Swap rq 0 ?n ! ?n"
  proof (cases "?n = 0")
    case True
    then show ?thesis
      using held_Swap [of 0 rq ?n] assms(1) by (subst (1 2) down.simps) (simp add: Let_def)
  qed (use held_down [of 0 ?n "Swap rq 0 ?n"] held_Swap [of 0 rq ?n] assms(1) in simp)
  have ne: "?d \<noteq> []"
    using assms(1) by (simp flip: length_greater_0_conv)
  have "held ?d = add_mset (pay (last ?d)) (held (butlast ?d))"
    by (subst (1) append_butlast_last_id [OF ne, symmetric]) (simp add: held_def)
  then show "held rq = add_mset (pay e) (held q)"
    using d e by simp
  have "last ?d = ?d ! ?n"
    using ne by (simp add: last_conv_nth)
  then show "pay e = pay (rq ! 0)"
    using d e assms(1) by (simp add: nth_Swap)
qed

definition due_count :: "time \<Rightarrow> reminders \<Rightarrow> nat" where
  "due_count t s = size (filter_mset (\<lambda>p. r_TargetTime (fst p) < t) (held (queue s)))"

lemma due_count_next:
  assumes "nextReminderBefore t s = (Some r, s')"
  shows "due_count t s' < due_count t s"
  using assms
proof (induction t s rule: nextReminderBefore.induct)
  case (1 t s)
  note unf = nextReminderBefore.simps [of t s]
  have front: "0 < length (queue s) \<and> r_TargetTime (re_r (queue s ! 0)) < t"
    using 1(2) unf by (metis option.distinct(1) prod.inject)
  obtain re q where pop: "heap_Pop (queue s) = (re, q)"
    by fastforce
  have h: "held (queue s) = add_mset (pay re) (held q)" "r_TargetTime (re_r re) < t"
    using held_heap_Pop [OF _ pop] front by auto
  then have less: "due_count t (s\<lparr>queue := q, cancelledGauge := g\<rparr>) < due_count t s"
    "due_count t (s\<lparr>queue := q, activeGauge := g\<rparr>) < due_count t s" for g
    by (simp_all add: due_count_def)
  show ?case
  proof (cases "re_cancelled re")
    case True
    then have "nextReminderBefore t (s\<lparr>queue := q, cancelledGauge := cancelledGauge s - 1\<rparr>) = (Some r, s')"
      using 1(2) unf by (simp only: front pop if_True prod.case simp_thms)
    from 1(1) [OF front pop [symmetric] True this] less(1) show ?thesis
      by (rule less_trans)
  next
    case False
    then have "s' = s\<lparr>queue := q, activeGauge := activeGauge s - 1\<rparr>"
      using 1(2) unf by (simp only: front pop if_True if_False prod.case prod.inject simp_thms)
    then show ?thesis
      using less(2) by simp
  qed
qed

lemma held_up: "j < length rq \<Longrightarrow> held (up rq j) = held rq"
proof (induction rq j rule: up.induct)
  case (1 rq j)
  then show ?case
    using held_Swap [of "(j - 1) div 2" rq j] by (subst up.simps) (auto simp: Let_def)
qed

lemma due_count_add: "t \<le> r_TargetTime b \<Longrightarrow> due_count t (snd (rq_add b s)) = due_count t s"
  by (simp add: due_count_def rq_add_def heap_Push_def Push_def held_up) (simp add: held_def)

end
