(* ===== verification/Actor_Calls.thy ===== *)
theory Actor_Calls
  imports Rpc_Requests Reminder_Queue
begin

text \<open>
  The sending side of \<^verbatim>\<open>src/core/internal/runtime/commands.go\<close>: calls and tells to services, actors and
  bindings as requests of the rpc layer.  \<^verbatim>\<open>encoding/json\<close> is a record of the conversions the code makes;
  clocks and uuids are arguments.
\<close>

section \<open>State and parameters\<close>

record Reply =
  StatusCode :: int
  ContentType :: string
  Payload :: string

record json =
  js_marshal :: "(string, string) gomap \<Rightarrow> err + string"           \<comment> \<open>\<^verbatim>\<open>json.Marshal(map[string]string)\<close>\<close>
  js_unmarshal :: "string \<Rightarrow> err + (string, string) gomap"
  js_reply :: "Reply \<Rightarrow> err + string"
  js_unreply :: "string \<Rightarrow> Reply \<times> err option"                     \<comment> \<open>what is in the struct, and the error\<close>

text \<open>What the encoder and the decoder of Go promise on these types.\<close>

locale json_lib =
  fixes js :: json
  assumes marshal: "wf_map m \<Longrightarrow> \<exists>b m'. js_marshal js m = Inr b \<and> js_unmarshal js b = Inr m' \<and> wf_map m' \<and> map_of m' = map_of m"
    and reply: "int64 (StatusCode r) \<Longrightarrow> \<exists>b. js_reply js r = Inr b \<and> js_unreply js b = (r, None)"

record actorSentInfo_t =
  as_Actor :: Actor
  as_ParentId :: string
  as_FlowId :: string
  as_RequestValue :: string

text \<open>The part of the package variables the callers use, and the settings.\<close>

record runtime =
  rt_requests :: "(string, nat) gomap"
  ActorSent :: "(string, actorSentInfo_t) gomap"
  isDebuggerPresent :: bool
  IsDebugMode :: bool
  MissingComponentTimeout :: int

text \<open>The parameters of one call: environment, fuel and random choice of \<^const>\<open>Send\<close>, clock, two uuids.\<close>

record ('r, 'p, 'k) ambient =
  a_env :: "('r, 'p, 'k) env"
  a_json :: json
  a_fuel :: nat
  a_rnd :: nat
  a_now :: time
  a_uuid :: string
  a_flow :: string

type_synonym ('r, 'k) proc = "runtime \<times> sess \<times> ('r, 'k) world"

definition actorEndpoint :: string where "actorEndpoint = ''handlerActor''"
definition bindingEndpoint :: string where "bindingEndpoint = ''handlerBinding''"
definition serviceEndpoint :: string where "serviceEndpoint = ''handlerService''"

definition defaultTimeout :: "time \<Rightarrow> int \<Rightarrow> time" where
  "defaultTimeout now timeout = (if timeout > 0 then now + timeout else 0)"

definition newFlowId :: "string \<Rightarrow> string" where
  "newFlowId uuid = ''flow-'' @ uuid"

definition newLockId :: "string \<Rightarrow> string" where
  "newLockId uuid = ''dl-'' @ uuid"

abbreviation to_actor :: "Actor \<Rightarrow> string \<Rightarrow> string \<Rightarrow> Destination" where
  "to_actor a fl ep \<equiv> \<lparr>d_Target = Session \<lparr>s_Name = Type a, s_ID = ID a, s_Flow = fl, s_DeferredLockID = ''''\<rparr>, d_Method = ep\<rparr>"

abbreviation to_service :: "string \<Rightarrow> Destination" where
  "to_service n \<equiv> \<lparr>d_Target = Service n, d_Method = serviceEndpoint\<rparr>"

section \<open>Messages\<close>

definition service_msg :: "string \<Rightarrow> string \<Rightarrow> string \<Rightarrow> string \<Rightarrow> string \<Rightarrow> (string, string) gomap" where
  "service_msg command path payload header meth =
     [(''command'', command), (''path'', path), (''header'', header), (''method'', meth), (''payload'', payload)]"

definition actor_msg :: "string \<Rightarrow> string \<Rightarrow> string \<Rightarrow> (string, string) gomap" where
  "actor_msg command path payload = [(''command'', command), (''path'', path), (''payload'', payload)]"

definition binding_msg ::
  "string \<Rightarrow> string \<Rightarrow> string \<Rightarrow> string \<Rightarrow> string \<Rightarrow> string \<Rightarrow> string \<Rightarrow> (string, string) gomap" where
  "binding_msg kind bindingID nilOnAbsent action payload contentType acc =
     [(''bindingId'', bindingID), (''kind'', kind), (''command'', action), (''nilOnAbsent'', nilOnAbsent),
      (''content-type'', contentType), (''accept'', acc), (''payload'', payload)]"

definition load_msg :: "string \<Rightarrow> int \<Rightarrow> string \<Rightarrow> (string, string) gomap" where
  "load_msg kind prt bindingID =
     [(''command'', ''load''), (''kind'', kind), (''partition'', itoa prt), (''bindingId'', bindingID)]"

section \<open>Tells\<close>

definition tell_to ::
  "('r, 'p, 'k) ambient \<Rightarrow> Destination \<Rightarrow> time \<Rightarrow> string \<Rightarrow> (string, string) gomap \<Rightarrow> ('r, 'k) world \<Rightarrow>
    (unit result \<times> ('r, 'k) world) option" where
  "tell_to a d dl parent msg w =
     (case js_marshal (a_json a) msg of
        Inl e \<Rightarrow> Some (Error e, w)
      | Inr b \<Rightarrow> tell (a_env a) (a_fuel a) (a_rnd a) (a_uuid a) d dl parent (Some b) w)"

definition TellService where
  "TellService a rt service path payload header meth =
     tell_to a (to_service service) (defaultTimeout (a_now a) (MissingComponentTimeout rt)) ''''
       (service_msg ''tell'' path payload header meth)"

definition TellActor where
  "TellActor a rt actor path payload parent =
     tell_to a (to_actor actor (newFlowId (a_flow a)) actorEndpoint)
       (defaultTimeout (a_now a) (MissingComponentTimeout rt)) parent (actor_msg ''tell'' path payload)"

definition DeleteActor where
  "DeleteActor a rt actor =
     tell_to a (to_actor actor ''deactivate'' actorEndpoint)
       (defaultTimeout (a_now a) (MissingComponentTimeout rt)) '''' [(''command'', ''delete'')]"

definition LoadBinding where
  "LoadBinding a kind actor prt bindingID =
     tell_to a (to_actor actor ''nonexclusive'' bindingEndpoint) 0 '''' (load_msg kind prt bindingID)"

section \<open>Calls\<close>

text \<open>The reply of a call: \<^verbatim>\<open>return nil, err\<close>, or \<^verbatim>\<open>return &reply, err\<close> with the error of the decoder.\<close>

type_synonym answer = "Reply option \<times> err option"

definition read_reply :: "json \<Rightarrow> bytes \<times> err option \<Rightarrow> answer" where
  "read_reply js r =
     (case r of
        (_, Some e) \<Rightarrow> (None, Some e)
      | (b, None) \<Rightarrow>
          (case js_unreply js (case b of None \<Rightarrow> '''' | Some x \<Rightarrow> x) of
             (y, e) \<Rightarrow> (Some y, e)))"

definition call_to ::
  "('r, 'p, 'k) ambient \<Rightarrow> Destination \<Rightarrow> time \<Rightarrow> (string, string) gomap \<Rightarrow>
    (sess \<times> ('r, 'k) world \<Rightarrow> sess \<times> ('r, 'k) world) \<Rightarrow> sess \<times> ('r, 'k) world \<Rightarrow>
    (answer result \<times> sess \<times> ('r, 'k) world) option" where
  "call_to a d dl msg meanwhile sw =
     (case js_marshal (a_json a) msg of
        Inl e \<Rightarrow> Some (Ok (None, Some e), sw)
      | Inr b \<Rightarrow>
          (case call (a_env a) (a_fuel a) (a_rnd a) (a_uuid a) d dl '''' (Some b) meanwhile sw of
             None \<Rightarrow> None
           | Some (Ok r, sw') \<Rightarrow> Some (Ok (read_reply (a_json a) r), sw')
           | Some (Error e, sw') \<Rightarrow> Some (Error e, sw')
           | Some (Panicked, sw') \<Rightarrow> Some (Panicked, sw')))"

definition CallService where
  "CallService a rt service path payload header meth =
     call_to a (to_service service) (defaultTimeout (a_now a) (MissingComponentTimeout rt))
       (service_msg ''call'' path payload header meth)"

definition Bindings where
  "Bindings a rt kind actor bindingID nilOnAbsent action payload contentType acc =
     call_to a (to_actor actor ''nonexclusive'' bindingEndpoint) (defaultTimeout (a_now a) (MissingComponentTimeout rt))
       (binding_msg kind bindingID nilOnAbsent action payload contentType acc)"

text \<open>
  \<^verbatim>\<open>CallActor\<close> waits by itself.  The deferred \<^verbatim>\<open>requests.Delete\<close> is on the map of this package, and not on the one of
  the rpc layer; \<open>meanwhile\<close> is what the rest of the process does until the \<^verbatim>\<open>select\<close> is looked at.
\<close>

definition select_result :: "nat \<Rightarrow> sess \<Rightarrow> ((bytes \<times> err option) \<times> sess) option" where
  "select_result ch s =
     (case results s ch of
        Some r \<Rightarrow> Some ((r_Value r, r_Err r), s\<lparr>results := (results s)(ch := None)\<rparr>)
      | None \<Rightarrow> if ctx_done s then Some ((None, Some ErrCtx), s) else None)"

definition track :: "string \<Rightarrow> actorSentInfo_t \<Rightarrow> runtime \<Rightarrow> runtime" where
  "track rid i rt =
     (if IsDebugMode rt \<or> isDebuggerPresent rt then rt\<lparr>ActorSent := mput rid i (ActorSent rt)\<rparr> else rt)"

definition untrack :: "string \<Rightarrow> bool \<Rightarrow> runtime \<Rightarrow> runtime" where
  "untrack rid tracked rt =
     (let rt1 = (if tracked then rt\<lparr>ActorSent := mdel rid (ActorSent rt)\<rparr> else rt)
      in rt1\<lparr>rt_requests := mdel rid (rt_requests rt1)\<rparr>)"

definition CallActor ::
  "('r, 'p, 'k) ambient \<Rightarrow> Actor \<Rightarrow> string \<Rightarrow> string \<Rightarrow> string \<Rightarrow> string \<Rightarrow>
    (('r, 'k) proc \<Rightarrow> ('r, 'k) proc) \<Rightarrow> ('r, 'k) proc \<Rightarrow> (answer result \<times> ('r, 'k) proc) option" where
  "CallActor a actor path payload flow parent meanwhile p =
     (case p of
        (rt, s, w) \<Rightarrow>
          let fl = (if flow = '''' then newFlowId (a_flow a) else flow)
          in case js_marshal (a_json a) (actor_msg ''call'' path payload) of
               Inl e \<Rightarrow> Some (Ok (None, Some e), p)
             | Inr b \<Rightarrow>
                 (case async (a_env a) (a_fuel a) (a_rnd a) (a_uuid a) (to_actor actor fl actorEndpoint)
                     (defaultTimeout (a_now a) (MissingComponentTimeout rt)) parent (Some b) (s, w) of
                    None \<Rightarrow> None
                  | Some (Error e, s1, w1) \<Rightarrow> Some (Ok (None, Some e), rt, s1, w1)
                  | Some (Panicked, s1, w1) \<Rightarrow> Some (Panicked, rt, s1, w1)
                  | Some (Ok (rid, ch), s1, w1) \<Rightarrow>
                      (let rt1 = track rid \<lparr>as_Actor = actor, as_ParentId = parent, as_FlowId = fl, as_RequestValue = b\<rparr> rt;
                           tracked = (IsDebugMode rt \<or> isDebuggerPresent rt)
                       in case meanwhile (rt1, s1, w1) of
                            (rt2, s2, w2) \<Rightarrow>
                              map_option (\<lambda>(r, s3). (Ok (read_reply (a_json a) r), untrack rid tracked rt2, s3, w2))
                                (select_result ch s2))))"

section \<open>Promises\<close>

definition promise ::
  "('r, 'p, 'k) ambient \<Rightarrow> Destination \<Rightarrow> (string, string) gomap \<Rightarrow> ('r, 'k) proc \<Rightarrow>
    ((string \<times> err option) result \<times> ('r, 'k) proc) option" where
  "promise a d msg p =
     (case p of
        (rt, s, w) \<Rightarrow>
          (case js_marshal (a_json a) msg of
             Inl e \<Rightarrow> Some (Ok ('''', Some e), p)
           | Inr b \<Rightarrow>
               (case async (a_env a) (a_fuel a) (a_rnd a) (a_uuid a) d
                   (defaultTimeout (a_now a) (MissingComponentTimeout rt)) '''' (Some b) (s, w) of
                  None \<Rightarrow> None
                | Some (Error e, s1, w1) \<Rightarrow> Some (Ok ('''', Some e), rt, s1, w1)
                | Some (Panicked, s1, w1) \<Rightarrow> Some (Panicked, rt, s1, w1)
                | Some (Ok (rid, ch), s1, w1) \<Rightarrow>
                    Some (Ok (rid, None), rt\<lparr>rt_requests := mput rid ch (rt_requests rt)\<rparr>, s1, w1))))"

definition CallPromiseService where
  "CallPromiseService a service path payload header meth =
     promise a (to_service service) (service_msg ''call'' path payload header meth)"

definition CallPromiseActor where
  "CallPromiseActor a actor path payload =
     promise a (to_actor actor (newFlowId (a_flow a)) actorEndpoint) (actor_msg ''call'' path payload)"

definition AwaitPromise ::
  "string \<Rightarrow> runtime \<times> sess \<Rightarrow> ((bytes \<times> err option) \<times> runtime \<times> sess) option" where
  "AwaitPromise rid p =
     (case p of
        (rt, s) \<Rightarrow>
          (case map_of (rt_requests rt) rid of
             Some ch \<Rightarrow>
               map_option (\<lambda>(r, s'). (r, rt\<lparr>rt_requests := mdel rid (rt_requests rt)\<rparr>, reclaim rid s')) (select_result ch s)
           | None \<Rightarrow> Some ((None, Some (ErrMsg (''unexpected request '' @ rid))), rt, s)))"

section \<open>A codec\<close>

text \<open>The JSON text of a map of strings, with quotes and backslashes escaped, and its parser.\<close>

definition escape :: "char \<Rightarrow> string" where
  "escape c = (if c = CHR 0x22 \<or> c = CHR 0x5C then [CHR 0x5C, c] else [c])"

definition quote :: "string \<Rightarrow> string" where
  "quote s = CHR 0x22 # concat (map escape s) @ [CHR 0x22]"

fun unquote :: "string \<Rightarrow> (string \<times> string) option" where
  "unquote [] = None"
| "unquote (c # cs) =
     (if c = CHR 0x22 then Some ([], cs)
      else if c = CHR 0x5C then
        (case cs of [] \<Rightarrow> None | d # ds \<Rightarrow> map_option (\<lambda>(s, r). (d # s, r)) (unquote ds))
      else map_option (\<lambda>(s, r). (c # s, r)) (unquote cs))"

fun json_fields :: "(string, string) gomap \<Rightarrow> string" where
  "json_fields [] = ''}''"
| "json_fields ((k, v) # m) = quote k @ '':'' @ quote v @ '','' @ json_fields m"

lemma unquote_quote [simp]: "unquote (concat (map escape s) @ CHR 0x22 # r) = Some (s, r)"
  by (induction s) (auto simp: escape_def)

lemma unquote_shorter: "unquote cs = Some (s, r) \<Longrightarrow> length r < length cs"
  by (induction cs arbitrary: s r rule: unquote.induct) (fastforce split: if_splits list.splits)+

fun parse_fields :: "nat \<Rightarrow> string \<Rightarrow> (string, string) gomap option" where
  "parse_fields 0 cs = None"
| "parse_fields (Suc n) cs =
     (case cs of
        [] \<Rightarrow> None
      | c # ds \<Rightarrow>
          if c = CHR 0x22 then
            (case unquote ds of
               Some (k, CHR '':'' # q # es) \<Rightarrow>
                 if q = CHR 0x22 then
                   (case unquote es of
                      Some (v, CHR '','' # rest) \<Rightarrow> map_option (\<lambda>m. (k, v) # m) (parse_fields n rest)
                    | _ \<Rightarrow> None)
                 else None
             | _ \<Rightarrow> None)
          else if cs = ''}'' then Some [] else None)"

lemma parse_json_fields: "length m < n \<Longrightarrow> parse_fields n (json_fields m) = Some m"
proof (induction m arbitrary: n)
  case Nil
  then show ?case
    by (cases n) simp_all
next
  case (Cons p m)
  then obtain n' where "n = Suc n'" "length m < n'"
    by (cases n) auto
  then show ?case
    using Cons.IH [of n'] by (cases p) (simp add: quote_def)
qed

definition reply_fields :: "Reply \<Rightarrow> (string, string) gomap" where
  "reply_fields r = [(''StatusCode'', itoa (StatusCode r)), (''ContentType'', ContentType r), (''Payload'', Payload r)]"

definition read_fields :: "(string, string) gomap \<Rightarrow> Reply" where
  "read_fields m = \<lparr>StatusCode = fst (parse_int (mget '''' m ''StatusCode'')), ContentType = mget '''' m ''ContentType'',
     Payload = mget '''' m ''Payload''\<rparr>"

definition plain_json :: json where
  "plain_json = \<lparr>js_marshal = (\<lambda>m. Inr (json_fields m)),
     js_unmarshal = (\<lambda>s. case parse_fields (length s) s of Some m \<Rightarrow> Inr m | None \<Rightarrow> Inl (ErrMsg ''invalid'')),
     js_reply = (\<lambda>r. Inr (json_fields (reply_fields r))),
     js_unreply = (\<lambda>s. case parse_fields (length s) s of
        Some m \<Rightarrow> (read_fields m, None)
      | None \<Rightarrow> (\<lparr>StatusCode = 0, ContentType = '''', Payload = ''''\<rparr>, Some (ErrMsg ''invalid'')))\<rparr>"

lemma length_json_fields: "length m < length (json_fields m)"
  by (induction m rule: json_fields.induct) (auto simp: quote_def)

interpretation plain: json_lib plain_json
proof
  show "\<exists>b m'. js_marshal plain_json m = Inr b \<and> js_unmarshal plain_json b = Inr m' \<and> wf_map m' \<and> map_of m' = map_of m"
    if "wf_map m" for m
    using that by (simp add: plain_json_def parse_json_fields [OF length_json_fields])
  show "\<exists>b. js_reply plain_json r = Inr b \<and> js_unreply plain_json b = (r, None)" if "int64 (StatusCode r)" for r
  proof -
    have "read_fields (reply_fields r) = r"
      using that by (simp add: read_fields_def reply_fields_def mget_def)
    then show ?thesis
      by (simp add: plain_json_def parse_json_fields [OF length_json_fields])
  qed
qed


section \<open>Properties\<close>

context json_lib
begin

lemma tell_to_sends:
  assumes "a_json a = js" "wf_map msg"
  shows "\<exists>b m'. js_unmarshal js b = Inr m' \<and> map_of m' = map_of msg \<and>
    tell_to a d dl parent msg w =
      Send (a_env a) (a_fuel a) (a_rnd a) (tell_request False (newRequestId (a_uuid a)) d dl parent (Some b)) w"
proof -
  obtain b m' where "js_marshal js msg = Inr b" "js_unmarshal js b = Inr m'" "map_of m' = map_of msg"
    using marshal [OF assms(2)] by blast
  then show ?thesis
    using assms(1) by (intro exI [of _ b] exI [of _ m']) (simp add: tell_to_def tell_def)
qed

end

lemma wf_msgs [simp]:
  "wf_map (actor_msg c p b)" "wf_map (service_msg c p b h m)" "wf_map (binding_msg k i n ac b ct acc)"
  "wf_map (load_msg k prt i)"
  by (simp_all add: wf_map_def actor_msg_def service_msg_def binding_msg_def load_msg_def)

text \<open>A tell to an actor is one \<^const>\<open>Send\<close> of a tell request to the session of that actor, under a new flow, for the
  actor endpoint, with the default deadline; and what the receiver decodes from its value is the command,
  the path and the payload.\<close>

theorem TellActor_sends:
  assumes "json_lib (a_json a)"
  shows "\<exists>b m'. js_unmarshal (a_json a) b = Inr m' \<and>
    map_of m' ''command'' = Some ''tell'' \<and> map_of m' ''path'' = Some path \<and> map_of m' ''payload'' = Some payload \<and>
    TellActor a rt actor path payload parent w =
      Send (a_env a) (a_fuel a) (a_rnd a) (Req (TellReq \<lparr>tr_RequestID = ''req-'' @ a_uuid a, tr_Value = Some b,
        tr_Deadline = (if MissingComponentTimeout rt > 0 then a_now a + MissingComponentTimeout rt else 0),
        tr_Target = Session \<lparr>s_Name = Type actor, s_ID = ID actor, s_Flow = ''flow-'' @ a_flow a, s_DeferredLockID = ''''\<rparr>,
        tr_Method = ''handlerActor'', tr_Sequence = 0, tr_ChildID = '''', tr_ParentID = parent, tr_IsEdited = False\<rparr>)) w"
proof -
  obtain b m' where b: "js_unmarshal (a_json a) b = Inr m'" "map_of m' = map_of (actor_msg ''tell'' path payload)"
    "tell_to a (to_actor actor (newFlowId (a_flow a)) actorEndpoint) (defaultTimeout (a_now a) (MissingComponentTimeout rt))
       parent (actor_msg ''tell'' path payload) w =
      Send (a_env a) (a_fuel a) (a_rnd a) (tell_request False (newRequestId (a_uuid a))
        (to_actor actor (newFlowId (a_flow a)) actorEndpoint) (defaultTimeout (a_now a) (MissingComponentTimeout rt)) parent (Some b)) w"
    using json_lib.tell_to_sends [OF assms refl wf_msgs(1)] by blast
  then show ?thesis
    unfolding TellActor_def
    by (intro exI [of _ b] exI [of _ m'])
      (simp add: actor_msg_def tell_request_def newRequestId_def newFlowId_def defaultTimeout_def actorEndpoint_def)
qed

text \<open>A promise and its awaiting: if the request of \<^verbatim>\<open>CallPromiseActor\<close> is sent and its response arrives, \<^verbatim>\<open>AwaitPromise\<close>
  returns the value and the error of the response and leaves no entry in either table of requests; awaited a
  second time it reports an unexpected request.\<close>

theorem promise_awaited:
  assumes "promise a d msg (rt, s, w) = Some (Ok (rid, None), rt1, s1, w1)"
    and "map_of (pending s2) rid = Some (the (map_of (rt_requests rt1) rid))" "rs_RequestID m = rid"
  shows "\<exists>rt2 s3. AwaitPromise rid (rt1, accept_response m s2) =
      Some ((rs_Value m, if rs_ErrMsg m = '''' then None else Some (ErrMsg (rs_ErrMsg m))), rt2, s3) \<and>
    map_of (pending s3) = (map_of (pending s2))(rid := None) \<and> map_of (rt_requests rt2) = (map_of (rt_requests rt1))(rid := None) \<and>
    AwaitPromise rid (rt2, s3) = Some ((None, Some (ErrMsg (''unexpected request '' @ rid))), rt2, s3)"
proof -
  obtain ch where ch: "map_of (rt_requests rt1) rid = Some ch"
    using assms(1) by (auto simp: promise_def split: sum.splits option.splits result.splits)
  then show ?thesis
    using assms(2,3) by (auto simp: AwaitPromise_def select_result_def accept_response_def reclaim_def)
qed

text \<open>\<^verbatim>\<open>CallActor\<close> when the process is cancelled before the response arrives: the error of the context is
  returned, but the entry of the request stays in the table of the rpc layer (a call of the rpc layer
  removes it): what is deleted is an entry of the table of promises, where the request never was.\<close>

theorem CallActor_cancelled:
  assumes "js_marshal (a_json a) (actor_msg ''call'' path payload) = Inr b"
    and "d = to_actor actor (if flow = '''' then newFlowId (a_flow a) else flow) actorEndpoint"
    and "dl = defaultTimeout (a_now a) (MissingComponentTimeout rt)"
    and "Send (a_env a) (a_fuel a) (a_rnd a)
      (call_request False (newRequestId (a_uuid a)) d dl parent (Some b)) w = Some (Ok (), w1)"
  shows "(\<exists>rt' s'. CallActor a actor path payload flow parent (\<lambda>(rt, s, w). (rt, s\<lparr>ctx_done := True\<rparr>, w)) (rt, s, w) =
        Some (Ok (None, Some ErrCtx), rt', s', w1) \<and>
      map_of (pending s') (newRequestId (a_uuid a)) = Some (nresult s)) \<and>
    (\<exists>s'. call (a_env a) (a_fuel a) (a_rnd a) (a_uuid a) d dl parent (Some b) (\<lambda>(s, w). (s\<lparr>ctx_done := True\<rparr>, w)) (s, w) =
        Some (Ok (None, Some ErrCtx), s', w1) \<and>
      map_of (pending s') (newRequestId (a_uuid a)) = None)"
proof -
  have a: "async (a_env a) (a_fuel a) (a_rnd a) (a_uuid a) d dl parent (Some b) (s, w) =
      Some (Ok (newRequestId (a_uuid a), nresult s), store_request (newRequestId (a_uuid a)) s, w1)"
    using assms(4) by (simp add: async_def issue_def)
  show ?thesis
    using a assms(1) unfolding assms(2,3)
    by (simp add: CallActor_def call_def await_def Let_def select_result_def read_reply_def store_request_def
        call_wait_def reclaim_def)
qed

section \<open>Sample executions\<close>

definition sample_ambient :: "(mem, reply, ProducerMessage list) ambient" where
  "sample_ambient = \<lparr>a_env = sample_env, a_json = plain_json, a_fuel = Suc (Suc 0), a_rnd = 0, a_now = 0, a_uuid = ''u'', a_flow = ''f''\<rparr>"

definition sample_runtime :: runtime where
  "sample_runtime = \<lparr>rt_requests = [], ActorSent = [], isDebuggerPresent = False, IsDebugMode = False, MissingComponentTimeout = 0\<rparr>"

definition sample_actor :: Actor where
  "sample_actor = \<lparr>Type = ''Fork'', ID = ''7''\<rparr>"

theorem TellActor_sends_witness:
  "\<exists>m b m'. TellActor sample_ambient sample_runtime sample_actor ''put'' ''[1]'' '''' sample_w =
      Send sample_env (Suc (Suc 0)) 0 (Req (TellReq m)) sample_w \<and> tr_RequestID m = ''req-u'' \<and> tr_Value m = Some b \<and>
    js_unmarshal plain_json b = Inr m' \<and> map_of m' ''path'' = Some ''put'' \<and> map_of m' ''payload'' = Some ''[1]''"
proof -
  have s: "a_json sample_ambient = plain_json" "a_env sample_ambient = sample_env" "a_fuel sample_ambient = Suc (Suc 0)"
    "a_rnd sample_ambient = 0" "a_uuid sample_ambient = ''u''"
    by (simp_all add: sample_ambient_def)
  have "json_lib (a_json sample_ambient)"
    by (simp add: s plain.json_lib_axioms)
  from TellActor_sends [OF this, of "''put''" "''[1]''" sample_runtime sample_actor "''''" sample_w] show ?thesis
    unfolding s by force
qed

lemma sample_call_sent:
  "\<exists>w'. Send sample_env (Suc (Suc 0)) 0 (call_request False (newRequestId ''u'')
     (to_actor sample_actor (newFlowId ''f'') actorEndpoint) 0 '''' (Some (json_fields (actor_msg ''call'' ''put'' '''')))) sample_w =
     Some (Ok (), w')"
proof -
  have "map_option fst (Send sample_env (Suc (Suc 0)) 0 (call_request False (newRequestId ''u'')
     (to_actor sample_actor (newFlowId ''f'') actorEndpoint) 0 '''' (Some (json_fields (actor_msg ''call'' ''put'' '''')))) sample_w) =
     Some (Ok ())"
    by code_simp
  then show ?thesis
    unfolding map_option_eq_Some by (metis prod.collapse)
qed

theorem CallActor_cancelled_witness:
  "\<exists>rt' s' w'. CallActor sample_ambient sample_actor ''put'' '''' '''' '''' (\<lambda>(rt, s, w). (rt, s\<lparr>ctx_done := True\<rparr>, w))
       (sample_runtime, connect 0 False, sample_w) = Some (Ok (None, Some ErrCtx), rt', s', w') \<and>
     map_of (pending s') ''req-u'' = Some 0"
proof -
  let ?a = sample_ambient
  obtain w' where w: "Send sample_env (Suc (Suc 0)) 0 (call_request False (newRequestId ''u'')
     (to_actor sample_actor (newFlowId ''f'') actorEndpoint) 0 '''' (Some (json_fields (actor_msg ''call'' ''put'' '''')))) sample_w =
     Some (Ok (), w')"
    using sample_call_sent by blast
  have m: "js_marshal (a_json ?a) (actor_msg ''call'' ''put'' '''') = Inr (json_fields (actor_msg ''call'' ''put'' ''''))"
    by (simp add: sample_ambient_def plain_json_def)
  have d: "defaultTimeout (a_now ?a) (MissingComponentTimeout sample_runtime) = 0"
    by code_simp
  have "Send (a_env ?a) (a_fuel ?a) (a_rnd ?a) (call_request False (newRequestId (a_uuid ?a))
      (to_actor sample_actor (if '''' = '''' then newFlowId (a_flow ?a) else '''') actorEndpoint)
      (defaultTimeout (a_now ?a) (MissingComponentTimeout sample_runtime)) ''''
      (Some (json_fields (actor_msg ''call'' ''put'' '''')))) sample_w = Some (Ok (), w')"
    using w unfolding d by (simp add: sample_ambient_def)
  from CallActor_cancelled [OF m refl refl this, of "connect 0 False"] show ?thesis
    by (auto simp: sample_ambient_def newRequestId_def connect_def)
qed

theorem promise_awaited_witness:
  "\<exists>rt1 s1 w1 rt2 s3. promise sample_ambient (to_actor sample_actor (newFlowId ''f'') actorEndpoint) (actor_msg ''call'' ''put'' '''')
       (sample_runtime, connect 0 False, sample_w) = Some (Ok (''req-u'', None), rt1, s1, w1) \<and>
     AwaitPromise ''req-u'' (rt1, accept_response (sample_response\<lparr>rs_RequestID := ''req-u''\<rparr>) s1) = Some ((Some ''v'', None), rt2, s3)"
proof -
  let ?p = "promise sample_ambient (to_actor sample_actor (newFlowId ''f'') actorEndpoint) (actor_msg ''call'' ''put'' '''')
       (sample_runtime, connect 0 False, sample_w)"
  obtain w' where w: "Send sample_env (Suc (Suc 0)) 0 (call_request False (newRequestId ''u'')
     (to_actor sample_actor (newFlowId ''f'') actorEndpoint) 0 '''' (Some (json_fields (actor_msg ''call'' ''put'' '''')))) sample_w =
     Some (Ok (), w')"
    using sample_call_sent by blast
  have p: "?p = Some (Ok (''req-u'', None), sample_runtime\<lparr>rt_requests := [(''req-u'', 0)]\<rparr>,
      store_request ''req-u'' (connect 0 False), w')"
    using w by (simp add: promise_def sample_ambient_def plain_json_def async_def issue_def newRequestId_def
        defaultTimeout_def sample_runtime_def connect_def)
  have "map_of (pending (store_request ''req-u'' (connect 0 False))) ''req-u'' =
      Some (the (map_of (rt_requests (sample_runtime\<lparr>rt_requests := [(''req-u'', 0)]\<rparr>)) ''req-u''))"
    "rs_RequestID (sample_response\<lparr>rs_RequestID := ''req-u''\<rparr>) = ''req-u''"
    by code_simp+
  from promise_awaited [OF p this] show ?thesis
    using p by (auto simp: sample_response_def)
qed

end
