(* ===== verification/Bindings.thy ===== *)
theory Bindings
  imports Actor_Calls
begin

text \<open>
  \<^verbatim>\<open>src/core/internal/runtime/bindings.go\<close>: bindings of actors (reminders, subscriptions), kept in Redis and in a
  collection in memory.  The Go interface \<^verbatim>\<open>bindings\<close> is a record of its methods; the locale \<open>bindings\<close> is what
  the code of this file relies on of an implementation, over the multiset of the bindings a collection
  holds, and its lemmas are what the operations of this file give.  Each operation holds the mutex of its
  kind from its first to its last statement and is one step.
\<close>

section \<open>Keys\<close>

definition Separator :: char where
  "Separator = CHR ''_''"

definition bindingKey :: "string \<Rightarrow> Actor \<Rightarrow> string \<Rightarrow> string \<Rightarrow> string" where
  "bindingKey kind actor prt i =
     ''binding'' @ [Separator] @ prt @ [Separator] @ kind @ [Separator] @ Type actor @ [Separator] @ ID actor @ [Separator] @ i"

definition bindingPattern :: "string \<Rightarrow> string" where
  "bindingPattern prt = ''binding'' @ [Separator] @ prt @ [Separator] @ ''*''"

text \<open>\<^verbatim>\<open>keyBinding\<close>; \<^const>\<open>None\<close>: the process ends, by \<^verbatim>\<open>logger.Fatal\<close> or an index out of range.\<close>

definition int32 :: "int \<Rightarrow> bool" where
  "int32 n \<longleftrightarrow> - (2 ^ 31) \<le> n \<and> n < 2 ^ 31"

definition keyBinding :: "string \<Rightarrow> (string \<times> Actor \<times> int \<times> string) option" where
  "keyBinding key =
     (let parts = split_on Separator key
      in if length parts \<le> 1 then None
         else (case parse_int (parts ! 1) of
                 (p, ok) \<Rightarrow>
                   if \<not> ok \<or> \<not> int32 p \<or> length parts \<le> 5 then None
                   else Some (parts ! 2, \<lparr>Type = parts ! 3, ID = parts ! 4\<rparr>, p, parts ! 5)))"

definition BindingPartition :: int where
  "BindingPartition = 0"

section \<open>The interface of collections\<close>

record ('b, 'c) bindings_ops =
  b_add :: "'b \<Rightarrow> 'c \<Rightarrow> (int \<times> err option) \<times> 'c"
  b_cancel :: "Actor \<Rightarrow> string \<Rightarrow> 'c \<Rightarrow> 'b list \<times> 'c"
  b_find :: "Actor \<Rightarrow> string \<Rightarrow> 'c \<Rightarrow> 'b list"
  b_parse :: "Actor \<Rightarrow> string \<Rightarrow> string \<Rightarrow> string \<Rightarrow> err + ('b \<times> (string, string) gomap)"
  b_load :: "Actor \<Rightarrow> string \<Rightarrow> string \<Rightarrow> (string, string) gomap \<Rightarrow> err + 'b"
  b_k :: "'b \<Rightarrow> string"

section \<open>Operations\<close>

definition loadBinding ::
  "('r, 'p) redigo \<Rightarrow> StoreConfig \<Rightarrow> ('b, 'c) bindings_ops \<Rightarrow> string \<Rightarrow> Actor \<Rightarrow> string \<Rightarrow> string \<Rightarrow> 'c \<times> 'r \<Rightarrow>
    err option result \<times> 'c \<times> 'r" where
  "loadBinding api sc ops kind actor prt i cr =
     (case cr of
        (c, r) \<Rightarrow>
          let key = bindingKey kind actor prt i
          in if length (b_find ops actor i c) > 0 then (Ok None, c, r)
             else (case HGetAll api sc key r of
                     (Error e, r') \<Rightarrow> (Ok (Some e), c, r')
                   | (Panicked, r') \<Rightarrow> (Panicked, c, r')
                   | (Ok data, r') \<Rightarrow>
                       if length data = 0 then (Ok None, c, r')
                       else (case b_load ops actor i key data of
                               Inl e \<Rightarrow> (Ok (Some e), c, r')
                             | Inr b \<Rightarrow> (case b_add ops b c of ((_, e), c') \<Rightarrow> (Ok e, c', r')))))"

fun del_keys :: "('r, 'p) redigo \<Rightarrow> StoreConfig \<Rightarrow> string list \<Rightarrow> 'r \<Rightarrow> unit result \<times> 'r" where
  "del_keys api sc [] r = (Ok (), r)"
| "del_keys api sc (k # ks) r =
     (case store_Del api sc k r of (Panicked, r') \<Rightarrow> (Panicked, r') | (_, r') \<Rightarrow> del_keys api sc ks r')"

definition deleteBindings ::
  "('r, 'p) redigo \<Rightarrow> StoreConfig \<Rightarrow> ('b, 'c) bindings_ops \<Rightarrow> Actor \<Rightarrow> string \<Rightarrow> 'c \<times> 'r \<Rightarrow> nat result \<times> 'c \<times> 'r" where
  "deleteBindings api sc ops actor i cr =
     (case cr of
        (c, r) \<Rightarrow>
          (case b_cancel ops actor i c of
             (found, c') \<Rightarrow>
               (case del_keys api sc (map (b_k ops) found) r of
                  (Ok _, r') \<Rightarrow> (Ok (length found), c', r')
                | (_, r') \<Rightarrow> (Panicked, c', r'))))"

definition getBindings :: "('b, 'c) bindings_ops \<Rightarrow> Actor \<Rightarrow> string \<Rightarrow> 'c \<Rightarrow> 'b list" where
  "getBindings ops actor i c = b_find ops actor i c"

text \<open>The key of the binding if it is stored already, under whatever partition, or else a new one.\<close>

definition binding_target ::
  "('r, 'p) redigo \<Rightarrow> StoreConfig \<Rightarrow> string \<Rightarrow> Actor \<Rightarrow> string \<Rightarrow> 'r \<Rightarrow> (string \<times> int) result \<times> 'r" where
  "binding_target api sc kind actor i r =
     (case store_Keys api sc (bindingKey kind actor ''*'' i) r of
        (Panicked, r') \<Rightarrow> (Panicked, r')
      | (Ok (k # ks), r') \<Rightarrow> (Ok (k, 200), r')
      | (_, r') \<Rightarrow> (Ok (bindingKey kind actor (itoa BindingPartition) i, 204), r'))"

definition putBinding ::
  "('r, 'p) redigo \<Rightarrow> StoreConfig \<Rightarrow> ((string, string) gomap \<Rightarrow> (string, string) gomap) \<Rightarrow> ('b, 'c) bindings_ops \<Rightarrow>
    string \<Rightarrow> Actor \<Rightarrow> string \<Rightarrow> string \<Rightarrow> 'c \<times> 'r \<Rightarrow> (int \<times> err option) result \<times> 'c \<times> 'r" where
  "putBinding api sc rng ops kind actor i payload cr =
     (case cr of
        (c, r) \<Rightarrow>
          (case binding_target api sc kind actor i r of
             (Panicked, r1) \<Rightarrow> (Panicked, c, r1)
           | (Error e, r1) \<Rightarrow> (Error e, c, r1)
           | (Ok (key, successCode), r1) \<Rightarrow>
               (case b_parse ops actor i key payload of
                  Inl e \<Rightarrow> (Ok (400, Some e), c, r1)
                | Inr (b, m) \<Rightarrow>
                    (case b_cancel ops actor i c of
                       (_, c1) \<Rightarrow>
                         (case b_add ops b c1 of
                            ((code, Some e), c2) \<Rightarrow> (Ok (code, Some e), c2, r1)
                          | ((code, None), c2) \<Rightarrow>
                              (case HSetMultiple api sc rng key m r1 of
                                 (Panicked, r2) \<Rightarrow> (Panicked, c2, r2)
                               | (_, r2) \<Rightarrow> (Ok (successCode, None), c2, r2)))))))"

text \<open>
  \<^verbatim>\<open>loadBindings\<close>: the keys of one partition are sent to the sidecars of their actors; the \<open>n\<close>-th tell uses
  \<open>amb n\<close>.  An error of a tell ends the loading without an error.
\<close>

datatype load_end = Loaded nat | Stopped | Failed_load err | Fatal | NoFuel

fun load_keys :: "(nat \<Rightarrow> ('r, 'p, 'k) ambient) \<Rightarrow> nat \<Rightarrow> string list \<Rightarrow> ('r, 'k) world \<Rightarrow> load_end \<times> ('r, 'k) world" where
  "load_keys amb n [] w = (Loaded n, w)"
| "load_keys amb n (key # ks) w =
     (case keyBinding key of
        None \<Rightarrow> (Fatal, w)
      | Some (kind, actor, p, i) \<Rightarrow>
          (case LoadBinding (amb n) kind actor p i w of
             None \<Rightarrow> (NoFuel, w)
           | Some (Ok _, w') \<Rightarrow> load_keys amb (Suc n) ks w'
           | Some (Error e, w') \<Rightarrow> (Stopped, w')
           | Some (Panicked, w') \<Rightarrow> (Fatal, w')))"

fun loadBindings ::
  "(nat \<Rightarrow> ('r, 'p, 'k) ambient) \<Rightarrow> ('r, 'p, 'k) env \<Rightarrow> nat \<Rightarrow> int list \<Rightarrow> ('r, 'k) world \<Rightarrow> load_end \<times> ('r, 'k) world" where
  "loadBindings amb env n [] w = (Loaded n, w)"
| "loadBindings amb env n (p # ps) w =
     (case store_Keys (e_redis env) (e_sc env) (bindingPattern (itoa p)) (w_redis w) of
        (Error e, r) \<Rightarrow> (Failed_load e, w\<lparr>w_redis := r\<rparr>)
      | (Panicked, r) \<Rightarrow> (Fatal, w\<lparr>w_redis := r\<rparr>)
      | (Ok ks, r) \<Rightarrow>
          (case load_keys amb n ks (w\<lparr>w_redis := r\<rparr>) of
             (Loaded n', w') \<Rightarrow> loadBindings amb env n' ps w'
           | (e, w') \<Rightarrow> (e, w')))"

section \<open>What a collection promises\<close>

definition same_binding :: "('b \<Rightarrow> Actor) \<Rightarrow> ('b \<Rightarrow> string) \<Rightarrow> Actor \<Rightarrow> string \<Rightarrow> 'b \<Rightarrow> bool" where
  "same_binding act bid a i b \<longleftrightarrow> act b = a \<and> (i = '''' \<or> bid b = i)"

locale bindings =
  fixes ops :: "('b, 'c) bindings_ops"
    and inv :: "'c \<Rightarrow> bool"
    and content :: "'c \<Rightarrow> 'b multiset"
    and act :: "'b \<Rightarrow> Actor"
    and bid :: "'b \<Rightarrow> string"
  assumes find_law: "inv c \<Longrightarrow> mset (b_find ops a i c) = filter_mset (same_binding act bid a i) (content c)"
    and cancel_law: "inv c \<Longrightarrow> b_cancel ops a i c = (found, c') \<Longrightarrow>
      inv c' \<and> mset found = filter_mset (same_binding act bid a i) (content c) \<and>
      content c' = filter_mset (\<lambda>b. \<not> same_binding act bid a i b) (content c)"
    and add_law: "inv c \<Longrightarrow> filter_mset (\<lambda>b'. act b' = act b \<and> bid b' = bid b) (content c) = {#} \<Longrightarrow>
      b_add ops b c = ((code, e), c') \<Longrightarrow>
      inv c' \<and> content c' = (if e = None then add_mset b (content c) else content c)"
    and parse_law: "b_parse ops a i k payload = Inr (b, m) \<Longrightarrow> act b = a \<and> bid b = i \<and> b_k ops b = k"
begin

lemma putBinding_content:
  assumes "inv c" "i \<noteq> ''''" "putBinding api sc rng ops kind a i payload (c, r) = (Ok (code, None), c', r')"
  shows "inv c' \<and> (\<exists>b. act b = a \<and> bid b = i \<and> content c' = add_mset b (filter_mset (\<lambda>b. \<not> same_binding act bid a i b) (content c)))"
proof -
  obtain key sc' r1 b m where p: "b_parse ops a i key payload = Inr (b, m)"
    and t: "binding_target api sc kind a i r = (Ok (key, sc'), r1)"
    using assms(3) by (auto simp: putBinding_def split: prod.splits result.splits sum.splits)
  obtain found c1 where cancel: "b_cancel ops a i c = (found, c1)"
    by fastforce
  obtain code1 c2 where add: "b_add ops b c1 = ((code1, None), c2)" "c' = c2"
    using assms(3) p t cancel by (auto simp: putBinding_def split: prod.splits result.splits option.splits)
  have b: "act b = a" "bid b = i"
    using parse_law [OF p] by simp_all
  note c1 = cancel_law [OF assms(1) cancel]
  have "filter_mset (\<lambda>b'. act b' = act b \<and> bid b' = bid b) (content c1) = {#}"
    using c1 b by (auto simp: filter_filter_mset same_binding_def filter_mset_eq_conv intro!: filter_mset_False)
  from add_law [OF conjunct1 [OF c1] this add(1)] show ?thesis
    using b c1 add(2) by auto
qed

lemma putBinding_rejected:
  assumes "inv c" "putBinding api sc rng ops kind a i payload (c, r) = (Ok (code, Some e), c', r')"
  shows "inv c' \<and> (content c' = content c \<or> content c' = filter_mset (\<lambda>b. \<not> same_binding act bid a i b) (content c))"
proof -
  obtain key sc' r1 where t: "binding_target api sc kind a i r = (Ok (key, sc'), r1)"
    using assms(2) by (auto simp: putBinding_def split: prod.splits result.splits)
  show ?thesis
  proof (cases "b_parse ops a i key payload")
    case (Inl e')
    then show ?thesis
      using assms t by (auto simp: putBinding_def)
  next
    case (Inr bm)
    then obtain b m where p: "b_parse ops a i key payload = Inr (b, m)"
      by (cases bm) simp
    obtain found c1 where cancel: "b_cancel ops a i c = (found, c1)"
      by fastforce
    obtain code1 e1 c2 where add: "b_add ops b c1 = ((code1, Some e1), c2)" "c' = c2"
      using assms(2) p t cancel by (auto simp: putBinding_def split: prod.splits result.splits option.splits)
    note c1 = cancel_law [OF assms(1) cancel]
    have "filter_mset (\<lambda>b'. act b' = act b \<and> bid b' = bid b) (content c1) = {#}"
      using c1 parse_law [OF p]
      by (auto simp: filter_filter_mset same_binding_def filter_mset_eq_conv intro!: filter_mset_False)
    from add_law [OF conjunct1 [OF c1] this add(1)] show ?thesis
      using c1 add(2) by auto
  qed
qed

lemma deleteBindings_content:
  assumes "inv c" "deleteBindings api sc ops a i (c, r) = (Ok n, c', r')"
  shows "inv c' \<and> n = size (filter_mset (same_binding act bid a i) (content c)) \<and>
    content c' = filter_mset (\<lambda>b. \<not> same_binding act bid a i b) (content c) \<and> b_find ops a i c' = []"
proof -
  obtain found where cancel: "b_cancel ops a i c = (found, c')" "n = length found"
    using assms(2) by (auto simp: deleteBindings_def split: prod.splits result.splits)
  note c1 = cancel_law [OF assms(1) cancel(1)]
  moreover have "mset (b_find ops a i c') = {#}"
    using c1 by (simp add: find_law filter_filter_mset)
  ultimately show ?thesis
    using cancel(2) by (auto simp flip: size_mset)
qed

text \<open>At most one binding for an actor and an id.\<close>

definition one_each :: "'c \<Rightarrow> bool" where
  "one_each c \<longleftrightarrow> (\<forall>a i. size (filter_mset (\<lambda>b. act b = a \<and> bid b = i) (content c)) \<le> 1)"

lemma one_each_put:
  assumes "inv c" "one_each c" "i \<noteq> ''''" "putBinding api sc rng ops kind a i payload (c, r) = (Ok (code, None), c', r')"
  shows "one_each c'"
  unfolding one_each_def
proof (intro allI)
  fix a' i'
  obtain b where b: "act b = a" "bid b = i" "content c' = add_mset b (filter_mset (\<lambda>b. \<not> same_binding act bid a i b) (content c))"
    using putBinding_content [OF assms(1,3,4)] by blast
  let ?Q = "\<lambda>b. act b = a' \<and> bid b = i'"
  have le: "size (filter_mset ?Q (filter_mset P (content c))) \<le> 1" for P
  proof -
    have "filter_mset ?Q (filter_mset P (content c)) = filter_mset P (filter_mset ?Q (content c))"
      by (simp only: filter_filter_mset conj_commute)
    also have "size \<dots> \<le> size (filter_mset ?Q (content c))"
      by (rule size_mset_mono [OF multiset_filter_subset])
    also have "\<dots> \<le> 1"
      using assms(2) unfolding one_each_def by blast
    finally show ?thesis .
  qed
  show "size (filter_mset (\<lambda>b. act b = a' \<and> bid b = i') (content c')) \<le> 1"
  proof (cases "a' = a \<and> i' = i")
    case True
    have "filter_mset (\<lambda>b. act b = a' \<and> bid b = i') (filter_mset (\<lambda>b. \<not> same_binding act bid a i b) (content c)) = {#}"
      using True assms(3) by (auto simp: filter_filter_mset same_binding_def intro!: filter_mset_False)
    then show ?thesis
      using b True by simp
  next
    case False
    then show ?thesis
      using b le by auto
  qed
qed

lemma loadBinding_content:
  assumes "inv c" "one_each c" "i \<noteq> ''''" "loadBinding api sc ops kind a prt i (c, r) = (Ok e, c', r')"
    and load: "\<And>k m b. b_load ops a i k m = Inr b \<Longrightarrow> act b = a \<and> bid b = i"
  shows "inv c' \<and> one_each c' \<and> content c \<subseteq># content c' \<and>
    filter_mset (\<lambda>b. \<not> same_binding act bid a i b) (content c') = filter_mset (\<lambda>b. \<not> same_binding act bid a i b) (content c) \<and>
    (b_find ops a i c \<noteq> [] \<longrightarrow> c' = c \<and> r' = r)"
proof (cases "b_find ops a i c = []")
  case False
  then show ?thesis
    using assms by (auto simp: loadBinding_def)
next
  case True
  have none: "filter_mset (same_binding act bid a i) (content c) = {#}"
    using find_law [OF assms(1), of a i] True by simp
  show ?thesis
  proof (cases "c' = c")
    case False
    then obtain data r1 b code where l: "b_load ops a i (bindingKey kind a prt i) data = Inr b"
      and add: "b_add ops b c = ((code, e), c')"
      using assms(4) True
      by (auto simp: loadBinding_def Let_def split: prod.splits result.splits sum.splits if_splits)
    have b: "act b = a" "bid b = i"
      using load [OF l] by simp_all
    have n: "filter_mset (\<lambda>b'. act b' = act b \<and> bid b' = bid b) (content c) = {#}"
      using none b assms(3) by (simp add: same_binding_def)
    have "inv c' \<and> content c' = (if e = None then add_mset b (content c) else content c)"
      by (rule add_law [OF assms(1) n add])
    moreover have "one_each c'" if "content c' = add_mset b (content c)"
      using assms(2) n b that by (auto simp: one_each_def)
    moreover have "one_each c'" if "content c' = content c"
      using assms(2) that by (simp add: one_each_def)
    ultimately show ?thesis
      using b True assms(3) by (auto simp: same_binding_def split: if_splits)
  qed (use assms True in auto)
qed

end

section \<open>Keys, round trip\<close>

text \<open>The key of a binding gives kind, actor, partition and id back exactly when none of kind, actor type, actor
  id and binding id contains an underscore.\<close>

theorem keyBinding_bindingKey:
  assumes "int32 p"
  shows "keyBinding (bindingKey kind actor (itoa p) i) = Some (kind, actor, p, i) \<longleftrightarrow>
    (\<forall>s \<in> {kind, Type actor, ID actor, i}. CHR ''_'' \<notin> set s)"
proof
  assume "\<forall>s \<in> {kind, Type actor, ID actor, i}. CHR ''_'' \<notin> set s"
  then have "split_on CHR ''_'' (bindingKey kind actor (itoa p) i) = [''binding'', itoa p, kind, Type actor, ID actor, i]"
    by (simp add: bindingKey_def Separator_def split_on_append split_on_absent)
  moreover have "int64 p"
    using assms by (simp add: int32_def int64_def)
  ultimately show "keyBinding (bindingKey kind actor (itoa p) i) = Some (kind, actor, p, i)"
    using assms by (simp add: keyBinding_def Separator_def)
next
  define parts where "parts = split_on CHR ''_'' (bindingKey kind actor (itoa p) i)"
  assume "keyBinding (bindingKey kind actor (itoa p) i) = Some (kind, actor, p, i)"
  then have "5 < length parts \<and> kind = parts ! 2 \<and> actor = \<lparr>Type = parts ! 3, ID = parts ! 4\<rparr> \<and> i = parts ! 5"
    unfolding keyBinding_def Separator_def parts_def [symmetric] by (auto simp: Let_def split: if_splits prod.splits)
  then have "{kind, Type actor, ID actor, i} \<subseteq> set parts"
    by simp
  then show "\<forall>s \<in> {kind, Type actor, ID actor, i}. CHR ''_'' \<notin> set s"
    using split_on_free unfolding parts_def by blast
qed

theorem keyBinding_bindingKey_witness:
  "keyBinding (bindingKey ''reminders'' sample_actor (itoa 0) ''r1'') = Some (''reminders'', sample_actor, 0, ''r1'') \<and>
   keyBinding (bindingKey ''reminders'' sample_actor (itoa 0) ''r_1'') \<noteq> Some (''reminders'', sample_actor, 0, ''r_1'')"
proof -
  have p: "int32 0"
    by (simp add: int32_def)
  show ?thesis
    unfolding keyBinding_bindingKey [OF p] by (simp add: sample_actor_def)
qed

end
