(* ===== verification/Reminders.thy ===== *)
theory Reminders
  imports Bindings
begin

text \<open>
  \<^verbatim>\<open>src/core/internal/runtime/reminders.go\<close>: reminders as bindings, and their firing.  The textual forms of times and
  durations (\<^verbatim>\<open>MarshalText\<close>, \<^verbatim>\<open>ParseDuration\<close>, \<dots>) and the decoding of the request body are parameters.
\<close>

section \<open>Persistence\<close>

record texts =
  tx_time :: "time \<Rightarrow> string"
  tx_untime :: "string \<Rightarrow> err + time"
  tx_duration :: "int \<Rightarrow> string"
  tx_unduration :: "string \<Rightarrow> err + int"

locale time_texts =
  fixes tx :: texts
  assumes time_law: "int64 t \<Longrightarrow> tx_untime tx (tx_time tx t) = Inr t"
    and duration_law: "int64 d \<Longrightarrow> tx_unduration tx (tx_duration tx d) = Inr d"

text \<open>The body of a request; the data as \<^verbatim>\<open>json.Marshal\<close> gives it back.\<close>

record scheduleReminderPayload =
  sp_Path :: string
  sp_TargetTime :: time
  sp_Period :: string
  sp_Data :: "(err + string) option"

definition persistReminder :: "texts \<Rightarrow> Reminder \<Rightarrow> (string, string) gomap" where
  "persistReminder tx r =
     (let m = [(''actorType'', Type (r_Actor r)), (''actorId'', ID (r_Actor r)), (''id'', r_ID r), (''path'', r_Path r),
               (''targetTime'', tx_time tx (r_TargetTime r))];
          m = (if r_Period r > 0 then mput ''period'' (tx_duration tx (r_Period r)) m else m)
      in if r_EncodedData r \<noteq> '''' then mput ''encodedData'' (r_EncodedData r) m else m)"

definition persistTargetTime ::
  "('r, 'p) redigo \<Rightarrow> StoreConfig \<Rightarrow> texts \<Rightarrow> string \<Rightarrow> time \<Rightarrow> 'r \<Rightarrow> int result \<times> 'r" where
  "persistTargetTime api sc tx key t r = HSet api sc key ''targetTime'' (tx_time tx t) r"

definition rq_load :: "texts \<Rightarrow> Actor \<Rightarrow> string \<Rightarrow> string \<Rightarrow> (string, string) gomap \<Rightarrow> err + Reminder" where
  "rq_load tx actor i key m =
     (case tx_untime tx (mget '''' m ''targetTime'') of
        Inl e \<Rightarrow> Inl e
      | Inr t \<Rightarrow>
          (case (case map_of m ''period'' of Some ps \<Rightarrow> tx_unduration tx ps | None \<Rightarrow> Inr 0) of
             Inl e \<Rightarrow> Inl e
           | Inr d \<Rightarrow>
               Inr \<lparr>r_Actor = \<lparr>Type = mget '''' m ''actorType'', ID = mget '''' m ''actorId''\<rparr>, r_ID = mget '''' m ''id'',
                 r_key = key, r_Path = mget '''' m ''path'', r_TargetTime = t, r_Period = d,
                 r_EncodedData = mget '''' m ''encodedData''\<rparr>))"

definition rq_parse ::
  "texts \<Rightarrow> (string \<Rightarrow> err + scheduleReminderPayload) \<Rightarrow> Actor \<Rightarrow> string \<Rightarrow> string \<Rightarrow> string \<Rightarrow>
    err + (Reminder \<times> (string, string) gomap)" where
  "rq_parse tx body actor i key payload =
     (case body payload of
        Inl e \<Rightarrow> Inl e
      | Inr data \<Rightarrow>
          (case (if sp_Period data \<noteq> '''' then tx_unduration tx (sp_Period data) else Inr 0) of
             Inl e \<Rightarrow> Inl e
           | Inr d \<Rightarrow>
               (case sp_Data data of
                  Some (Inl e) \<Rightarrow> Inl e
                | v \<Rightarrow>
                    (let r = \<lparr>r_Actor = actor, r_ID = i, r_key = key, r_Path = sp_Path data, r_TargetTime = sp_TargetTime data,
                              r_Period = d, r_EncodedData = (case v of Some (Inr s) \<Rightarrow> s | _ \<Rightarrow> '''')\<rparr>
                     in Inr (r, persistReminder tx r)))))"

definition reminder_ops :: "texts \<Rightarrow> (string \<Rightarrow> err + scheduleReminderPayload) \<Rightarrow> (Reminder, reminders) bindings_ops" where
  "reminder_ops tx body = \<lparr>b_add = rq_add, b_cancel = rq_cancel, b_find = rq_find, b_parse = rq_parse tx body,
     b_load = rq_load tx, b_k = r_key\<rparr>"

text \<open>The queue of reminders is a collection of bindings.\<close>

interpretation rem: bindings "reminder_ops tx body" reminders_inv active r_Actor r_ID for tx body
proof
  have m: "rq_matches a i = same_binding r_Actor r_ID a i" for a i
    by (simp add: fun_eq_iff rq_matches_def same_binding_def)
  fix c :: reminders and a i
  show "mset (b_find (reminder_ops tx body) a i c) = filter_mset (same_binding r_Actor r_ID a i) (active c)"
    by (simp add: reminder_ops_def rq_find_active m)
  show "reminders_inv c' \<and> mset found = filter_mset (same_binding r_Actor r_ID a i) (active c) \<and>
      active c' = filter_mset (\<lambda>b. \<not> same_binding r_Actor r_ID a i b) (active c)"
    if "reminders_inv c" "b_cancel (reminder_ops tx body) a i c = (found, c')" for found c'
    using rq_cancel_active [OF that(1), of a i found c'] that(2) by (simp add: reminder_ops_def m)
  show "reminders_inv c' \<and> active c' = (if e = None then add_mset b (active c) else active c)"
    if "reminders_inv c" "b_add (reminder_ops tx body) b c = ((code, e), c')" for b code e c'
    using rq_add_active [OF that(1), of b "(code, e)" c'] that(2) by (simp add: reminder_ops_def)
  show "r_Actor b = a \<and> r_ID b = i \<and> b_k (reminder_ops tx body) b = k"
    if "b_parse (reminder_ops tx body) a i k payload = Inr (b, m)" for k payload b m
    using that by (auto simp: reminder_ops_def rq_parse_def Let_def split: sum.splits option.splits if_splits)
qed

section \<open>Firing\<close>

text \<open>
  \<^verbatim>\<open>processReminders\<close> at time \<open>t\<close>: the \<open>n\<close>-th tell uses \<open>amb n\<close>; \<^const>\<open>None\<close> is running out of the fuel of \<^const>\<open>Send\<close>.
\<close>

definition after_fire ::
  "('r, 'p, 'k) ambient \<Rightarrow> texts \<Rightarrow> time \<Rightarrow> Reminder \<Rightarrow> ('r, 'k) world \<Rightarrow> bool \<times> ('r, 'k) world" where
  "after_fire a tx t r w =
     (case (if r_Period r > 0
            then persistTargetTime (e_redis (a_env a)) (e_sc (a_env a)) tx (r_key r) (t + r_Period r) (w_redis w)
            else store_Del (e_redis (a_env a)) (e_sc (a_env a)) (r_key r) (w_redis w)) of
        (res, x) \<Rightarrow> (res \<noteq> Panicked, w\<lparr>w_redis := x\<rparr>))"

definition put_back :: "time \<Rightarrow> Reminder \<Rightarrow> reminders \<Rightarrow> reminders" where
  "put_back t r q = (if r_Period r > 0 then snd (rq_add (r\<lparr>r_TargetTime := t + r_Period r\<rparr>) q) else q)"

function processReminders ::
  "(nat \<Rightarrow> ('r, 'p, 'k) ambient) \<Rightarrow> texts \<Rightarrow> runtime \<Rightarrow> time \<Rightarrow> nat \<Rightarrow> reminders \<Rightarrow> ('r, 'k) world \<Rightarrow>
    (unit result \<times> reminders \<times> ('r, 'k) world) option" where
  "processReminders amb tx rt t n q w =
     (case nextReminderBefore t q of
        (None, q1) \<Rightarrow> Some (Ok (), q1, w)
      | (Some r, q1) \<Rightarrow>
          (case TellActor (amb n) rt (r_Actor r) (r_Path r) (r_EncodedData r) '''' w of
             None \<Rightarrow> None
           | Some (Panicked, w1) \<Rightarrow> Some (Panicked, q1, w1)
           | Some (Error e, w1) \<Rightarrow> Some (Ok (), snd (rq_add r q1), w1)
           | Some (Ok _, w1) \<Rightarrow>
               (case after_fire (amb n) tx t r w1 of
                  (True, w2) \<Rightarrow> processReminders amb tx rt t (Suc n) (put_back t r q1) w2
                | (False, w2) \<Rightarrow> Some (Panicked, put_back t r q1, w2))))"
  by pat_completeness auto
termination
  by (relation "measure (\<lambda>(amb, tx, rt, t, n, q, w). due_count t q)")
    (auto simp: put_back_def due_count_add dest!: due_count_next [OF sym])

declare processReminders.simps [simp del]

text \<open>Times and durations as decimal numbers.\<close>

definition un_itoa :: "string \<Rightarrow> err + int" where
  "un_itoa s = (case parse_int s of (n, ok) \<Rightarrow> if ok then Inr n else Inl (ErrMsg s))"

definition plain_texts :: texts where
  "plain_texts = \<lparr>tx_time = itoa, tx_untime = un_itoa, tx_duration = itoa, tx_unduration = un_itoa\<rparr>"

interpretation plain_texts: time_texts plain_texts
  by unfold_locales (simp_all add: plain_texts_def un_itoa_def)

section \<open>Properties\<close>

definition due_now :: "time \<Rightarrow> reminders \<Rightarrow> Reminder multiset" where
  "due_now t q = filter_mset (\<lambda>r. r_TargetTime r < t) (active q)"

definition later :: "time \<Rightarrow> reminders \<Rightarrow> Reminder multiset" where
  "later t q = filter_mset (\<lambda>r. t \<le> r_TargetTime r) (active q)"

text \<open>The specification of a round: fire the given reminders one after the other, updating the store after each.\<close>

fun fire_all ::
  "(nat \<Rightarrow> ('r, 'p, 'k) ambient) \<Rightarrow> texts \<Rightarrow> runtime \<Rightarrow> time \<Rightarrow> nat \<Rightarrow> Reminder list \<Rightarrow> ('r, 'k) world \<Rightarrow> ('r, 'k) world option" where
  "fire_all amb tx rt t n [] w = Some w"
| "fire_all amb tx rt t n (r # rs) w =
     (case TellActor (amb n) rt (r_Actor r) (r_Path r) (r_EncodedData r) '''' w of
        Some (Ok _, w1) \<Rightarrow>
          (case after_fire (amb n) tx t r w1 of
             (True, w2) \<Rightarrow> fire_all amb tx rt t (Suc n) rs w2
           | (False, _) \<Rightarrow> None)
      | _ \<Rightarrow> None)"

definition next_round :: "time \<Rightarrow> Reminder \<Rightarrow> Reminder" where
  "next_round t r = r\<lparr>r_TargetTime := t + r_Period r\<rparr>"

definition periodic :: "time \<Rightarrow> Reminder list \<Rightarrow> Reminder multiset" where
  "periodic t rs = image_mset (next_round t) (filter_mset (\<lambda>r. 0 < r_Period r) (mset rs))"

lemma put_back_active:
  assumes "reminders_inv q"
  shows "reminders_inv (put_back t r q)" "active (put_back t r q) = periodic t [r] + active q"
  using rq_add_active [OF assms, of "next_round t r"] assms
  by (cases "rq_add (next_round t r) q"; simp add: put_back_def periodic_def next_round_def)+

lemma periodic_later:
  "filter_mset (\<lambda>r. r_TargetTime r < t) (periodic t rs) = {#}"
  "filter_mset (\<lambda>r. t \<le> r_TargetTime r) (periodic t rs) = periodic t rs"
  by (induction rs) (auto simp: periodic_def next_round_def)

text \<open>What a round is to do: the due reminders in the order of their times, \<open>fired\<close> up to the first that cannot be told;
  those fired are gone, or back for their next period, and all others are still there.\<close>

definition round_ok ::
  "(nat \<Rightarrow> ('r, 'p, 'k) ambient) \<Rightarrow> texts \<Rightarrow> runtime \<Rightarrow> time \<Rightarrow> nat \<Rightarrow> reminders \<Rightarrow> ('r, 'k) world \<Rightarrow> Reminder multiset \<Rightarrow>
    ('r, 'k) world \<Rightarrow> bool" where
  "round_ok amb tx rt t n q w act w' \<longleftrightarrow>
     (\<exists>fired rest w1. mset (fired @ rest) = due_now t q \<and> sorted (map r_TargetTime (fired @ rest)) \<and>
        act = later t q + mset rest + periodic t fired \<and> fire_all amb tx rt t n fired w = Some w1 \<and>
        (case rest of
           [] \<Rightarrow> w' = w1
         | r # _ \<Rightarrow> \<exists>e. TellActor (amb (n + length fired)) rt (r_Actor r) (r_Path r) (r_EncodedData r) '''' w1 = Some (Error e, w')))"

lemma round_okI:
  assumes "mset (fired @ rest) = due_now t q" "sorted (map r_TargetTime (fired @ rest))"
    and "act = later t q + mset rest + periodic t fired" "fire_all amb tx rt t n fired w = Some w1"
    and "case rest of
           [] \<Rightarrow> w' = w1
         | r # _ \<Rightarrow> \<exists>e. TellActor (amb (n + length fired)) rt (r_Actor r) (r_Path r) (r_EncodedData r) '''' w1 = Some (Error e, w')"
  shows "round_ok amb tx rt t n q w act w'"
  using assms unfolding round_ok_def by blast

lemma active_split: "active q = later t q + due_now t q"
  unfolding later_def due_now_def by (subst (1) multiset_partition [of _ "\<lambda>r. t \<le> r_TargetTime r"]) (simp add: not_le)

lemma round_end:
  assumes "\<forall>r \<in># active q. t \<le> r_TargetTime r"
  shows "round_ok amb tx rt t n q w (active q) w"
proof (rule round_okI [of "[]" "[]"])
  show "mset ([] @ []) = due_now t q"
    using assms by (auto simp: due_now_def intro!: filter_mset_False [symmetric])
  then show "active q = later t q + mset [] + periodic t []"
    using active_split [of q t] by (simp add: periodic_def)
qed simp_all

lemma round_stop:
  assumes act: "active q = add_mset r (active q1)" and due: "r_TargetTime r < t"
    and least: "\<forall>r' \<in># active q. r_TargetTime r \<le> r_TargetTime r'"
    and tell: "TellActor (amb n) rt (r_Actor r) (r_Path r) (r_EncodedData r) '''' w = Some (Error e, w')"
  shows "round_ok amb tx rt t n q w (active q) w'"
proof -
  obtain ys where ys: "mset ys = due_now t q1"
    using ex_mset by blast
  have "r_TargetTime r \<le> r_TargetTime r'" if "r' \<in> set ys" for r'
  proof -
    have "r' \<in># due_now t q1"
      using that ys by (metis set_mset_mset)
    then show ?thesis
      using least act by (simp add: due_now_def)
  qed
  then have "sorted (map r_TargetTime ([] @ r # sort_key r_TargetTime ys))"
    by simp
  moreover have "due_now t q = add_mset r (due_now t q1)"
    using act due by (simp add: due_now_def)
  ultimately show ?thesis
    using tell ys active_split [of q t]
    by (intro round_okI [of "[]" "r # sort_key r_TargetTime ys" _ _ _ _ _ _ _ _ w]) (auto simp: periodic_def)
qed

lemma round_step:
  assumes act: "active q = add_mset r (active q1)" and due: "r_TargetTime r < t" and inv: "reminders_inv q1"
    and least: "\<forall>r' \<in># active q. r_TargetTime r \<le> r_TargetTime r'"
    and tell: "TellActor (amb n) rt (r_Actor r) (r_Path r) (r_EncodedData r) '''' w = Some (Ok u, w1)"
    and fire: "after_fire (amb n) tx t r w1 = (True, w2)"
    and rest: "round_ok amb tx rt t (Suc n) (put_back t r q1) w2 a w'"
  shows "round_ok amb tx rt t n q w a w'"
proof -
  obtain fired rest w3 where f: "mset (fired @ rest) = due_now t (put_back t r q1)" "sorted (map r_TargetTime (fired @ rest))"
    "a = later t (put_back t r q1) + mset rest + periodic t fired" "fire_all amb tx rt t (Suc n) fired w2 = Some w3"
    "case rest of
           [] \<Rightarrow> w' = w3
         | r # _ \<Rightarrow> \<exists>e. TellActor (amb (Suc n + length fired)) rt (r_Actor r) (r_Path r) (r_EncodedData r) '''' w3 = Some (Error e, w')"
    using rest unfolding round_ok_def by blast
  have dn: "due_now t (put_back t r q1) = due_now t q1" "later t (put_back t r q1) = periodic t [r] + later t q1"
    unfolding due_now_def later_def put_back_active(2) [OF inv] by (simp_all add: periodic_later)
  have q: "due_now t q = add_mset r (due_now t q1)" "later t q = later t q1"
    using act due by (simp_all add: due_now_def later_def)
  have "r_TargetTime r \<le> r_TargetTime r'" if "r' \<in> set (fired @ rest)" for r'
  proof -
    have "r' \<in># due_now t q1"
      using that f(1) dn(1) by (metis set_mset_mset)
    then show ?thesis
      using least act by (simp add: due_now_def)
  qed
  then have "sorted (map r_TargetTime ((r # fired) @ rest))"
    using f(2) by auto
  moreover have "a = later t q + mset rest + periodic t (r # fired)"
    using f(3) dn(2) q(2) by (simp add: periodic_def)
  ultimately show ?thesis
    using f q dn(1) tell fire by (intro round_okI [of "r # fired" rest]) (simp_all cong: list.case_cong)
qed

lemma processReminders_round:
  assumes "reminders_inv q" "processReminders amb tx rt t n q w = Some (Ok (), q', w')"
  shows "reminders_inv q' \<and> round_ok amb tx rt t n q w (active q') w'"
  using assms
proof (induction amb tx rt t n q w rule: processReminders.induct)
  case (1 amb tx rt t n q w)
  note unf = processReminders.simps [of amb tx rt t n q w]
  obtain res q1 where nxt: "nextReminderBefore t q = (res, q1)"
    by fastforce
  note spec = nextReminderBefore_active [OF 1(2) nxt]
  show ?case
  proof (cases res)
    case None
    then show ?thesis
      using 1(3) unf nxt spec round_end [of q t] by auto
  next
    case (Some r)
    then have r: "reminders_inv q1" "active q = add_mset r (active q1)" "r_TargetTime r < t"
        "\<forall>r' \<in># active q. r_TargetTime r \<le> r_TargetTime r'"
      using spec by simp_all
    obtain tres w1 where tell: "TellActor (amb n) rt (r_Actor r) (r_Path r) (r_EncodedData r) '''' w = Some (tres, w1)"
      using 1(3) unf nxt Some by (auto split: option.splits)
    show ?thesis
    proof (cases tres)
      case (Error e)
      then have q': "q' = snd (rq_add r q1)" "w' = w1"
        using 1(3) unf nxt Some tell by simp_all
      then have "reminders_inv q'" "active q' = active q"
        using rq_add_active [OF r(1), of r] r(2) by (metis prod.collapse)+
      then show ?thesis
        using round_stop [OF r(2,3,4)] tell Error q' by simp
    next
      case (Ok u)
      obtain ok w2 where af: "after_fire (amb n) tx t r w1 = (ok, w2)"
        by fastforce
      have ok: "ok"
        using 1(3) unf nxt Some tell Ok af by (cases ok) simp_all
      have rec: "processReminders amb tx rt t (Suc n) (put_back t r q1) w2 = Some (Ok (), q', w')"
        using 1(3) unf nxt Some tell Ok af ok by simp
      have "reminders_inv q' \<and> round_ok amb tx rt t (Suc n) (put_back t r q1) w2 (active q') w'"
        using 1(1) [OF nxt [symmetric] Some tell refl Ok af [symmetric] _ put_back_active(1) [OF r(1)] rec] ok by blast
      then show ?thesis
        using round_step [OF r(2,3,1,4), where amb = amb and n = n, OF tell [unfolded Ok] af [unfolded eqTrueI [OF ok]]] by blast
    qed (use 1(3) unf nxt Some tell in simp)
  qed
qed



text \<open>C21 \<^verbatim>\<open>nextReminderBefore\<close> is the removal of an earliest reminder from the multiset of the reminders not cancelled, if
  one is due, and nothing otherwise.  Queue order, indices and gauges stay consistent.\<close>

theorem nextReminderBefore_spec:
  assumes "reminders_inv s"
  shows "case nextReminderBefore t s of
    (res, s') \<Rightarrow> reminders_inv s' \<and>
      (case res of
         Some r \<Rightarrow> active s = add_mset r (active s') \<and> r_TargetTime r < t \<and>
           (\<forall>r' \<in># active s. r_TargetTime r \<le> r_TargetTime r')
       | None \<Rightarrow> active s' = active s \<and> (\<forall>r \<in># active s. t \<le> r_TargetTime r))"
  using nextReminderBefore_active [OF assms, of t] by (cases "nextReminderBefore t s") simp




section \<open>Sample executions\<close>

definition sample_reminder :: "string \<Rightarrow> time \<Rightarrow> int \<Rightarrow> Reminder" where
  "sample_reminder i t d = \<lparr>r_Actor = sample_actor, r_ID = i, r_key = i, r_Path = ''ring'', r_TargetTime = t, r_Period = d,
     r_EncodedData = ''''\<rparr>"

definition no_reminders :: reminders where
  "no_reminders = \<lparr>queue = [], activeGauge = 0, cancelledGauge = 0\<rparr>"

definition sample_reminders :: reminders where
  "sample_reminders = snd (rq_add (sample_reminder ''b'' 1 3) (snd (rq_add (sample_reminder ''a'' 2 0) no_reminders)))"

lemma no_reminders_inv: "reminders_inv no_reminders"
  by (simp add: no_reminders_def reminders_inv_def rq_inv_def is_heap_def indexed_def active_alt)

lemma sample_reminders_inv: "reminders_inv sample_reminders"
  unfolding sample_reminders_def
  by (intro rq_add_active(1) [OF _ prod.collapse [symmetric]] no_reminders_inv)

theorem nextReminderBefore_spec_witness:
  "case nextReminderBefore 3 sample_reminders of
     (res, s') \<Rightarrow> res = Some (sample_reminder ''b'' 1 3) \<and> active s' = {# sample_reminder ''a'' 2 0 #} \<and> reminders_inv s'"
proof -
  have res: "fst (nextReminderBefore 3 sample_reminders) = Some (sample_reminder ''b'' 1 3)"
    by code_simp
  have act: "active sample_reminders = {# sample_reminder ''b'' 1 3, sample_reminder ''a'' 2 0 #}"
    unfolding active_alt by code_simp
  show ?thesis
    using nextReminderBefore_spec [OF sample_reminders_inv, of 3] res
    by (cases "nextReminderBefore 3 sample_reminders") (simp add: act)
qed



definition sample_body :: "string \<Rightarrow> err + scheduleReminderPayload" where
  "sample_body s = Inr \<lparr>sp_Path = ''ring'', sp_TargetTime = 1, sp_Period = '''', sp_Data = Some (Inr ''7'')\<rparr>"



end
