(* ===== verification/Rpc_Topics.thy ===== *)
theory Rpc_Topics
  imports Rpc_Requests
begin

text \<open>
  \<^verbatim>\<open>src/core/pkg/rpc/topics.go\<close>: topics, publishing, and subscriptions, which turn the events of a topic into tells.
  The Kafka client library is a record of the calls made; the sessions of a consumer group, and the
  records each of them delivers, are arguments.
\<close>

section \<open>Topics\<close>

record TopicDetail =
  NumPartitions :: int
  ReplicationFactor :: int
  ConfigEntries :: "(string, string) gomap"

record 'k sarama_admin =
  ad_New :: "'k \<Rightarrow> err option \<times> 'k"
  ad_CreateTopic :: "string \<Rightarrow> TopicDetail \<Rightarrow> 'k \<Rightarrow> err option \<times> 'k"
  ad_DeleteTopic :: "string \<Rightarrow> 'k \<Rightarrow> err option \<times> 'k"
  ad_Close :: "'k \<Rightarrow> 'k"
  ad_detail :: "string \<Rightarrow> err + TopicDetail"        \<comment> \<open>\<^verbatim>\<open>json.Unmarshal\<close> of the parameters\<close>
  ad_unknownTopic :: err                            \<comment> \<open>\<^verbatim>\<open>sarama.ErrUnknownTopicOrPartition\<close>\<close>

definition plain_detail :: "int \<Rightarrow> TopicDetail" where
  "plain_detail rf = \<lparr>NumPartitions = 1, ReplicationFactor = rf, ConfigEntries = []\<rparr>"

text \<open>A first attempt and, if it fails, a second one.\<close>

definition create_twice :: "'k sarama_admin \<Rightarrow> string \<Rightarrow> TopicDetail \<Rightarrow> TopicDetail \<Rightarrow> 'k \<Rightarrow> err option \<times> 'k" where
  "create_twice ad topic d1 d2 k =
     (case ad_CreateTopic ad topic d1 k of
        (None, k1) \<Rightarrow> (None, k1)
      | (Some e, k1) \<Rightarrow> ad_CreateTopic ad topic d2 k1)"

definition createTopic :: "'k sarama_admin \<Rightarrow> string \<Rightarrow> string \<Rightarrow> 'k \<Rightarrow> err option \<times> 'k" where
  "createTopic ad topic parameters k =
     (case (if parameters \<noteq> '''' then ad_detail ad parameters else Inr (plain_detail 0)) of
        Inl e \<Rightarrow> (Some e, k)
      | Inr params \<Rightarrow>
          (case ad_New ad k of
             (Some e, k1) \<Rightarrow> (Some e, k1)
           | (None, k1) \<Rightarrow>
               (case (if parameters = '''' then create_twice ad topic (plain_detail 3) (plain_detail 1) k1
                      else create_twice ad topic params (params\<lparr>ReplicationFactor := 3\<rparr>) k1) of
                  (e, k2) \<Rightarrow> (e, ad_Close ad k2))))"

definition deleteTopic :: "'k sarama_admin \<Rightarrow> string \<Rightarrow> 'k \<Rightarrow> err option \<times> 'k" where
  "deleteTopic ad topic k =
     (case ad_New ad k of
        (Some e, k1) \<Rightarrow> (Some e, k1)
      | (None, k1) \<Rightarrow>
          (case ad_DeleteTopic ad topic k1 of
             (e, k2) \<Rightarrow> (if e = Some (ad_unknownTopic ad) then None else e, ad_Close ad k2)))"

text \<open>\<^verbatim>\<open>Publish\<close>: a record with no headers for any partition.\<close>

definition Publish :: "(string \<Rightarrow> bytes \<Rightarrow> 'k \<Rightarrow> err option \<times> 'k) \<Rightarrow> string \<Rightarrow> bytes \<Rightarrow> 'k \<Rightarrow> err option \<times> 'k" where
  "Publish producer topic v k = producer topic v k"

section \<open>Subscriptions\<close>

text \<open>
  The subscriber of one consumer session: \<^verbatim>\<open>Setup\<close> closes \<open>ready\<close> and puts a new channel in the subscriber's own
  field; \<^verbatim>\<open>ConsumeClaim\<close> tells the target of every event, in order, and marks those told.
\<close>

record subscriber =
  su_topic :: string
  su_dest :: Destination
  su_transform :: "bytes \<Rightarrow> err + bytes"
  su_ready :: cell

definition subscriber_Setup :: "subscriber \<Rightarrow> (cell \<times> subscriber) chan_op" where
  "subscriber_Setup s =
     (case chan_close (su_ready s) of
        Goes x \<Rightarrow> Goes (x, s\<lparr>su_ready := Empty\<rparr>)
      | Blocks \<Rightarrow> Blocks
      | Panics \<Rightarrow> Panics)"

text \<open>What is sent for an event: a transformation that fails is logged, and nil is sent.\<close>

definition transformed :: "subscriber \<Rightarrow> bytes \<Rightarrow> bytes" where
  "transformed s v = (case su_transform s v of Inl e \<Rightarrow> None | Inr x \<Rightarrow> x)"

text \<open>The events of a claim with their offsets; \<open>tel n\<close> is the tell of the \<open>n\<close>-th event.\<close>

fun consume_events ::
  "(nat \<Rightarrow> Destination \<Rightarrow> bytes \<Rightarrow> 'w \<Rightarrow> (unit result \<times> 'w) option) \<Rightarrow> subscriber \<Rightarrow> nat \<Rightarrow> (int \<times> bytes) list \<Rightarrow> int list \<Rightarrow>
    'w \<Rightarrow> (int list result \<times> 'w) option" where
  "consume_events tel s n [] marked w = Some (Ok marked, w)"
| "consume_events tel s n ((off, v) # ms) marked w =
     (case tel n (su_dest s) (transformed s v) w of
        None \<Rightarrow> None
      | Some (Panicked, w1) \<Rightarrow> Some (Panicked, w1)
      | Some (Error e, w1) \<Rightarrow> consume_events tel s (Suc n) ms marked w1
      | Some (Ok _, w1) \<Rightarrow> consume_events tel s (Suc n) ms (marked @ [off]) w1)"

text \<open>\<^verbatim>\<open>ConsumeClaim\<close> with the tells of the rpc layer, which have no deadline; the \<open>n\<close>-th uses uuid \<open>ids n\<close>.\<close>

definition subscriber_ConsumeClaim ::
  "('r, 'p, 'k) env \<Rightarrow> nat \<Rightarrow> nat \<Rightarrow> (nat \<Rightarrow> string) \<Rightarrow> subscriber \<Rightarrow> (int \<times> bytes) list \<Rightarrow> ('r, 'k) world \<Rightarrow>
    (int list result \<times> ('r, 'k) world) option" where
  "subscriber_ConsumeClaim env fuel rnd ids s ms w =
     consume_events (\<lambda>n d v. tell env fuel rnd (ids n) d 0 '''' v) s 0 ms [] w"

text \<open>
  The loop of \<^verbatim>\<open>subscribe\<close> around \<^verbatim>\<open>cg.Consume\<close>, one entry of the list per consumer session: whether \<^verbatim>\<open>Consume\<close>
  returned an error after the session, and whether the context was cancelled then.  Every round makes a
  subscriber with the same channel \<open>ready\<close>.  The result is the state of \<open>ready\<close> when the loop ends (its
  \<^verbatim>\<open>closed\<close> is closed then), or \<^const>\<open>Panics\<close>; \<^const>\<open>Blocks\<close> if the loop still runs.
\<close>

fun subscribe_loop :: "subscriber \<Rightarrow> (bool \<times> bool) list \<Rightarrow> cell chan_op" where
  "subscribe_loop s [] = Blocks"
| "subscribe_loop s ((failed, cancelled) # rest) =
     (case subscriber_Setup s of
        Goes (ready, _) \<Rightarrow> if failed \<or> cancelled then Goes ready else subscribe_loop (s\<lparr>su_ready := ready\<rparr>) rest
      | Blocks \<Rightarrow> Blocks
      | Panics \<Rightarrow> Panics)"

text \<open>\<^verbatim>\<open>subscribe\<close> up to the start of its loop; \<open>newcg\<close> is \<^verbatim>\<open>sarama.NewConsumerGroup\<close>, with the initial offset.\<close>

definition rpc_subscribe ::
  "(string \<Rightarrow> bool \<Rightarrow> 'k \<Rightarrow> err option \<times> 'k) \<Rightarrow> string \<Rightarrow> string \<Rightarrow> bool \<Rightarrow> Destination \<Rightarrow> (bytes \<Rightarrow> err + bytes) \<Rightarrow> 'k \<Rightarrow>
    (err + subscriber) \<times> 'k" where
  "rpc_subscribe newcg topic grp oldest d tr k =
     (case newcg grp oldest k of
        (Some e, k') \<Rightarrow> (Inl e, k')
      | (None, k') \<Rightarrow> (Inr \<lparr>su_topic = topic, su_dest = d, su_transform = tr, su_ready = Empty\<rparr>, k'))"

section \<open>Properties\<close>

lemma consume_events_spec:
  assumes "consume_events tel s n ms marked w = Some (Ok marked', w')"
  shows "\<exists>ws. length ws = Suc (length ms) \<and> hd ws = w \<and> last ws = w' \<and>
    (\<forall>k < length ms. \<exists>r. tel (n + k) (su_dest s) (transformed s (snd (ms ! k))) (ws ! k) = Some (r, ws ! Suc k) \<and> r \<noteq> Panicked) \<and>
    marked' = marked @ map fst (map fst (filter (\<lambda>(m, k). \<exists>w1. tel (n + k) (su_dest s) (transformed s (snd m)) (ws ! k) = Some (Ok (), w1))
      (zip ms [0..<length ms])))"
  using assms
proof (induction ms arbitrary: n marked w)
  case Nil
  then show ?case
    by (intro exI [of _ "[w]"]) simp
next
  case (Cons m ms)
  obtain off v where m: "m = (off, v)"
    by fastforce
  obtain r w1 where r: "tel n (su_dest s) (transformed s v) w = Some (r, w1)" "r \<noteq> Panicked"
    using Cons.prems m by (auto split: option.splits result.splits)
  define marked1 where "marked1 = (if r = Ok () then marked @ [off] else marked)"
  have rec: "consume_events tel s (Suc n) ms marked1 w1 = Some (Ok marked', w')"
    using Cons.prems m r by (cases r) (auto simp: marked1_def)
  from Cons.IH [OF rec] obtain ws where ws: "length ws = Suc (length ms)" "hd ws = w1" "last ws = w'"
    "\<forall>k < length ms. \<exists>r. tel (Suc n + k) (su_dest s) (transformed s (snd (ms ! k))) (ws ! k) = Some (r, ws ! Suc k) \<and> r \<noteq> Panicked"
    "marked' = marked1 @ map fst (map fst (filter (\<lambda>(m, k). \<exists>w1. tel (Suc n + k) (su_dest s) (transformed s (snd m)) (ws ! k) = Some (Ok (), w1))
      (zip ms [0..<length ms])))"
    by blast
  have z: "zip (m # ms) [0..<Suc (length ms)] = (m, 0) # map (\<lambda>(m, k). (m, Suc k)) (zip ms [0..<length ms])"
    by (simp add: upt_conv_Cons map_Suc_upt [symmetric] zip_map2 del: upt_Suc)
  show ?case
  proof (intro exI [of _ "w # ws"] conjI)
    show "\<forall>k < length (m # ms). \<exists>r. tel (n + k) (su_dest s) (transformed s (snd ((m # ms) ! k))) ((w # ws) ! k) =
        Some (r, (w # ws) ! Suc k) \<and> r \<noteq> Panicked"
      using r m ws(1,2,4) by (cases ws) (auto simp: nth_Cons split: nat.splits)
    show "marked' = marked @ map fst (map fst (filter (\<lambda>(ma, k). \<exists>w1. tel (n + k) (su_dest s) (transformed s (snd ma)) ((w # ws) ! k) =
        Some (Ok (), w1)) (zip (m # ms) [0..<length (m # ms)])))"
      using ws(5) r m by (cases r) (auto simp: z [unfolded m] marked1_def filter_map comp_def case_prod_unfold simp del: upt_Suc)
  qed (use ws in auto)
qed

text \<open>C25 A subscription tells its target of every event of a claim, once and in their order, each with what the
  transformation made of it, and marks exactly the events whose tell succeeded.\<close>

theorem events_told_and_marked:
  assumes "subscriber_ConsumeClaim env fuel rnd ids s ms w = Some (Ok marked, w')"
  shows "\<exists>ws. length ws = Suc (length ms) \<and> hd ws = w \<and> last ws = w' \<and>
    (\<forall>k < length ms. \<exists>r. r \<noteq> Panicked \<and>
       Send env fuel rnd (tell_request False (newRequestId (ids k)) (su_dest s) 0 '''' (transformed s (snd (ms ! k)))) (ws ! k) =
         Some (r, ws ! Suc k)) \<and>
    marked = map fst (map fst (filter (\<lambda>(m, k). \<exists>w1.
       Send env fuel rnd (tell_request False (newRequestId (ids k)) (su_dest s) 0 '''' (transformed s (snd m))) (ws ! k) = Some (Ok (), w1))
      (zip ms [0..<length ms])))"
  using consume_events_spec [OF assms [unfolded subscriber_ConsumeClaim_def]]
  unfolding tell_def by (auto simp: conj_commute)

definition sample_subscriber :: subscriber where
  "sample_subscriber = \<lparr>su_topic = ''t'', su_dest = \<lparr>d_Target = Session \<lparr>s_Name = ''Fork'', s_ID = ''7'', s_Flow = ''f'',
     s_DeferredLockID = ''''\<rparr>, d_Method = ''m''\<rparr>, su_transform = Inr, su_ready = Empty\<rparr>"

theorem events_told_and_marked_witness:
  "\<exists>w' ws. subscriber_ConsumeClaim sample_env (Suc (Suc 0)) 0 (\<lambda>n. ''u'') sample_subscriber [(4, Some ''a''), (5, Some ''b'')] sample_w =
     Some (Ok [4, 5], w') \<and> length ws = Suc (Suc (Suc 0)) \<and> last ws = w'"
proof -
  let ?x = "subscriber_ConsumeClaim sample_env (Suc (Suc 0)) 0 (\<lambda>n. ''u'') sample_subscriber [(4, Some ''a''), (5, Some ''b'')] sample_w"
  have "map_option fst ?x = Some (Ok [4, 5])"
    by code_simp
  then obtain w' where x: "?x = Some (Ok [4, 5], w')"
    unfolding map_option_eq_Some by (metis prod.collapse)
  obtain ws where "length ws = Suc (Suc (Suc 0))" "last ws = w'"
    using events_told_and_marked [OF x] by auto
  with x show ?thesis
    by blast
qed

text \<open>A subscription whose consumer group is rebalanced panics: the second session closes the channel \<^verbatim>\<open>ready\<close>
  that the first has closed, because every session gets a subscriber with the same channel.\<close>

theorem resubscribe_panics:
  assumes "su_ready s = Empty"
  shows "subscribe_loop s ((False, False) # x # rest) = Panics \<and>
    (\<exists>r. subscribe_loop s ((failed, True) # rest) = Goes r) \<and> subscribe_loop s [(False, False)] = Blocks"
  using assms by (cases x) (simp add: subscriber_Setup_def)

theorem resubscribe_panics_witness:
  "subscribe_loop sample_subscriber [(False, False), (False, True)] = Panics"
proof -
  have "su_ready sample_subscriber = Empty"
    by code_simp
  from resubscribe_panics [OF this] show ?thesis
    by blast
qed

end
