(* ===== verification/Events.thy ===== *)
theory Events
  imports Bindings Rpc_Topics
begin

text \<open>
  \<^verbatim>\<open>src/core/internal/runtime/events.go\<close>: subscriptions of actors to topics as bindings.  The collection is a map of
  maps, by actor and id; adding a subscription starts a consumer group, cancelling it stops the group.
\<close>

section \<open>Data\<close>

record source =
  so_Actor :: Actor
  so_ID :: string
  so_key :: string
  so_Path :: string
  so_Topic :: string
  so_Group :: string
  so_ContentType :: string
  so_OffsetOldest :: bool

type_synonym sources = "(Actor, (string, source) gomap) gomap"

text \<open>The parameters: the JSON encoders, the Kafka client, the stopping of a consumer group, the range order, a uuid.\<close>

record 'k event_env =
  ev_json :: json
  ev_string :: "string \<Rightarrow> err + string"             \<comment> \<open>\<^verbatim>\<open>json.Marshal\<close> of a string\<close>
  ev_newcg :: "string \<Rightarrow> bool \<Rightarrow> 'k \<Rightarrow> err option \<times> 'k"
  ev_stop :: "source \<Rightarrow> 'k \<Rightarrow> 'k"                     \<comment> \<open>\<^verbatim>\<open>b.cancel(); <-b.closed\<close>\<close>
  ev_rng :: "(string, source) gomap \<Rightarrow> (string, source) gomap"
  ev_uuid :: string

section \<open>Subscribing\<close>

definition is_json_type :: "string \<Rightarrow> bool" where
  "is_json_type ct \<longleftrightarrow> ct = '''' \<or> ct = ''text/json'' \<or> ct = ''application/json'' \<or>
     (length ct \<ge> 5 \<and> drop (length ct - 5) ct = ''+json'')"

definition raw_event_to_tell :: "'k event_env \<Rightarrow> source \<Rightarrow> bytes \<Rightarrow> err + bytes" where
  "raw_event_to_tell ev s v =
     (let arg0 = (case v of None \<Rightarrow> '''' | Some x \<Rightarrow> x)
      in case (if is_json_type (so_ContentType s) then Inr arg0 else ev_string ev arg0) of
           Inl e \<Rightarrow> Inl e
         | Inr arg \<Rightarrow>
             (case js_marshal (ev_json ev)
                 [(''command'', ''tell''), (''path'', so_Path s), (''payload'', ''['' @ arg @ '']'')] of
                Inl e \<Rightarrow> Inl e
              | Inr b \<Rightarrow> Inr (Some b)))"

definition event_group :: "source \<Rightarrow> string" where
  "event_group s = (if so_Group s = '''' then so_ID s else so_Group s)"

definition start_source :: "'k event_env \<Rightarrow> source \<Rightarrow> 'k \<Rightarrow> (err + subscriber) \<times> 'k" where
  "start_source ev s k =
     rpc_subscribe (ev_newcg ev) (so_Topic s) (event_group s) (so_OffsetOldest s)
       (to_actor (so_Actor s) (newFlowId (ev_uuid ev)) actorEndpoint) (raw_event_to_tell ev s) k"

definition subscribe :: "'k event_env \<Rightarrow> source \<Rightarrow> 'k \<Rightarrow> (int \<times> err option) \<times> 'k" where
  "subscribe ev s k =
     (case start_source ev s k of
        (Inr _, k') \<Rightarrow> ((200, None), k')
      | (Inl e, k') \<Rightarrow> ((if e = ErrCtx then 503 else 500, Some e), k'))"

section \<open>The collection\<close>

definition src_add :: "'k event_env \<Rightarrow> source \<Rightarrow> sources \<times> 'k \<Rightarrow> (int \<times> err option) \<times> sources \<times> 'k" where
  "src_add ev s ck =
     (case ck of
        (c, k) \<Rightarrow>
          let c1 = (if map_of c (so_Actor s) = None then mput (so_Actor s) [] c else c)
          in case subscribe ev s k of
               ((code, Some e), k') \<Rightarrow> ((code, Some e), c1, k')
             | ((code, None), k') \<Rightarrow>
                 ((200, None), mput (so_Actor s) (mput (so_ID s) s (mget [] c1 (so_Actor s))) c1, k'))"

definition src_find :: "'k event_env \<Rightarrow> Actor \<Rightarrow> string \<Rightarrow> sources \<times> 'k \<Rightarrow> source list" where
  "src_find ev actor i ck =
     (if i \<noteq> '''' then
        (case map_of (mget [] (fst ck) actor) i of Some b \<Rightarrow> [b] | None \<Rightarrow> [])
      else map snd (ev_rng ev (mget [] (fst ck) actor)))"

definition src_cancel :: "'k event_env \<Rightarrow> Actor \<Rightarrow> string \<Rightarrow> sources \<times> 'k \<Rightarrow> source list \<times> sources \<times> 'k" where
  "src_cancel ev actor i ck =
     (case ck of
        (c, k) \<Rightarrow>
          if i \<noteq> '''' then
            (case map_of (mget [] c actor) i of
               Some b \<Rightarrow> ([b], mput actor (mdel i (mget [] c actor)) c, ev_stop ev b k)
             | None \<Rightarrow> ([], c, k))
          else (let a = map snd (ev_rng ev (mget [] c actor))
                in (a, mdel actor c, fold (ev_stop ev) a k)))"

definition src_load :: "Actor \<Rightarrow> string \<Rightarrow> string \<Rightarrow> (string, string) gomap \<Rightarrow> err + source" where
  "src_load actor i key m = Inr \<lparr>so_Actor = actor, so_ID = i, so_key = key, so_Path = mget '''' m ''path'',
     so_Topic = mget '''' m ''topic'', so_Group = mget '''' m ''group'', so_ContentType = mget '''' m ''contentType'',
     so_OffsetOldest = (mget '''' m ''offsetOldest'' = ''true'')\<rparr>"

definition src_parse :: "'k event_env \<Rightarrow> Actor \<Rightarrow> string \<Rightarrow> string \<Rightarrow> string \<Rightarrow> err + (source \<times> (string, string) gomap)" where
  "src_parse ev actor i key payload =
     (case js_unmarshal (ev_json ev) payload of
        Inl e \<Rightarrow> Inl e
      | Inr m \<Rightarrow> (case src_load actor i key m of Inl e \<Rightarrow> Inl e | Inr b \<Rightarrow> Inr (b, m)))"

definition source_ops :: "'k event_env \<Rightarrow> (source, sources \<times> 'k) bindings_ops" where
  "source_ops ev = \<lparr>b_add = src_add ev, b_cancel = src_cancel ev, b_find = src_find ev, b_parse = src_parse ev,
     b_load = src_load, b_k = so_key\<rparr>"

section \<open>The collection keeps the contract\<close>

definition src_at :: "sources \<Rightarrow> Actor \<Rightarrow> string \<Rightarrow> source option" where
  "src_at c a = map_of (mget [] c a)"

definition src_set :: "sources \<Rightarrow> source set" where
  "src_set c = {s. src_at c (so_Actor s) (so_ID s) = Some s}"

definition src_content :: "sources \<times> 'k \<Rightarrow> source multiset" where
  "src_content ck = mset_set (src_set (fst ck))"

definition src_inv :: "sources \<times> 'k \<Rightarrow> bool" where
  "src_inv ck \<longleftrightarrow> (\<forall>a. wf_map (mget [] (fst ck) a)) \<and> (\<forall>a i s. src_at (fst ck) a i = Some s \<longrightarrow> so_Actor s = a \<and> so_ID s = i)"

lemma src_at_mput [simp]: "src_at (mput a m c) = (src_at c)(a := map_of m)"
  by (auto simp: src_at_def)

lemma src_at_mdel [simp]: "src_at (mdel a c) = (src_at c)(a := Map.empty)"
  by (auto simp: src_at_def)

lemma finite_src_set [simp]: "finite (src_set c)"
proof (rule finite_subset)
  show "src_set c \<subseteq> (\<Union>a \<in> fst ` set c. snd ` set (mget [] c a))"
  proof
    fix s
    assume "s \<in> src_set c"
    then have "(so_ID s, s) \<in> set (mget [] c (so_Actor s))"
      by (simp add: src_set_def src_at_def map_of_SomeD)
    moreover from this have "so_Actor s \<in> fst ` set c"
      by (cases "map_of c (so_Actor s)") (auto simp: mget_def domI simp flip: dom_map_of_conv_image_fst)
    ultimately show "s \<in> (\<Union>a \<in> fst ` set c. snd ` set (mget [] c a))"
      by (metis UN_I image_eqI snd_conv)
  qed
qed simp

lemma filter_src_content [simp]: "filter_mset P (src_content ck) = mset_set {s \<in> src_set (fst ck). P s}"
  by (simp add: src_content_def)

text \<open>The values of the inner map of an actor are its subscriptions, each once.\<close>

lemma src_values:
  assumes "src_inv (c, k)" "range_order rng"
  shows "mset (map snd (rng (mget [] c a))) = mset_set {s \<in> src_set c. so_Actor s = a}"
proof -
  have wf: "wf_map (mget [] c a)"
    using assms(1) by (simp add: src_inv_def)
  have at: "(i, s) \<in> set (mget [] c a) \<longleftrightarrow> src_at c a i = Some s" for i s
    using wf by (simp add: src_at_def wf_map_map_of)
  have key: "so_Actor s = a \<and> so_ID s = i" if "(i, s) \<in> set (mget [] c a)" for i s
    using that assms(1) at by (simp add: src_inv_def)
  have "distinct (map snd (mget [] c a))"
    using wf unfolding wf_map_def distinct_map inj_on_def by (metis key prod.collapse)
  then have "mset (map snd (mget [] c a)) = mset_set (snd ` set (mget [] c a))"
    by (metis mset_set_set set_map)
  moreover have "snd ` set (mget [] c a) = {s \<in> src_set c. so_Actor s = a}"
  proof (intro set_eqI iffI)
    fix s
    assume "s \<in> snd ` set (mget [] c a)"
    then obtain i where "(i, s) \<in> set (mget [] c a)"
      by force
    then show "s \<in> {s \<in> src_set c. so_Actor s = a}"
      using key [of i s] at [of i s] by (simp add: src_set_def)
  next
    fix s
    assume "s \<in> {s \<in> src_set c. so_Actor s = a}"
    then have "(so_ID s, s) \<in> set (mget [] c a)"
      by (simp add: at) (auto simp: src_set_def)
    then show "s \<in> snd ` set (mget [] c a)"
      by (metis image_eqI snd_conv)
  qed
  moreover have "mset (rng (mget [] c a)) = mset (mget [] c a)"
    using assms(2) wf by (simp add: range_order_def)
  ultimately show ?thesis
    by simp
qed

lemma src_find_law:
  assumes "range_order (ev_rng ev)" "src_inv ck"
  shows "mset (src_find ev a i ck) = filter_mset (same_binding so_Actor so_ID a i) (src_content ck)"
proof (cases "i = ''''")
  case True
  then show ?thesis
    using src_values [of "fst ck" "snd ck" "ev_rng ev" a] assms by (simp add: src_find_def same_binding_def)
next
  case False
  have "{s \<in> src_set (fst ck). so_Actor s = a \<and> so_ID s = i} = set_option (src_at (fst ck) a i)"
    using assms(2) by (auto simp: src_set_def src_inv_def)
  then show ?thesis
    using False by (cases "src_at (fst ck) a i") (simp_all add: src_find_def same_binding_def src_at_def mset_set_empty_iff)
qed

lemma src_cancel_found: "fst (src_cancel ev a i ck) = src_find ev a i ck"
  by (auto simp: src_cancel_def src_find_def Let_def split: prod.splits option.splits)

lemma src_cancel_at:
  assumes "src_cancel ev a i (c, k) = (found, c', k')"
  shows "src_at c' = (src_at c)(a := if i = '''' then Map.empty else (src_at c a)(i := None))"
  using assms by (auto simp: src_cancel_def Let_def src_at_def fun_eq_iff split: if_splits option.splits)

lemma src_cancel_law:
  assumes "range_order (ev_rng ev)" "src_inv ck" "src_cancel ev a i ck = (found, ck')"
  shows "src_inv ck' \<and> mset found = filter_mset (same_binding so_Actor so_ID a i) (src_content ck) \<and>
    src_content ck' = filter_mset (\<lambda>b. \<not> same_binding so_Actor so_ID a i b) (src_content ck)"
proof (intro conjI)
  obtain c k c' k' where ck: "ck = (c, k)" "ck' = (c', k')"
    by fastforce
  note at = src_cancel_at [OF assms(3) [unfolded ck]]
  have "wf_map (mget [] c' b)" for b
    using assms(2,3) by (auto simp: ck src_cancel_def src_inv_def Let_def wf_map_mdel split: if_splits option.splits)
  then show "src_inv ck'"
    using assms(2) by (auto simp: ck src_inv_def at split: if_splits)
  show "mset found = filter_mset (same_binding so_Actor so_ID a i) (src_content ck)"
    using src_cancel_found [of ev a i ck] src_find_law [OF assms(1,2), of a i] assms(3) by simp
  have "src_set c' = {s \<in> src_set c. \<not> same_binding so_Actor so_ID a i s}"
    by (auto simp: src_set_def at same_binding_def)
  then show "src_content ck' = filter_mset (\<lambda>b. \<not> same_binding so_Actor so_ID a i b) (src_content ck)"
    by (simp add: ck) (simp add: src_content_def)
qed

lemma src_add_law:
  assumes "src_inv ck" "filter_mset (\<lambda>b'. so_Actor b' = so_Actor b \<and> so_ID b' = so_ID b) (src_content ck) = {#}"
    "src_add ev b ck = ((code, e), ck')"
  shows "src_inv ck' \<and> src_content ck' = (if e = None then add_mset b (src_content ck) else src_content ck)"
proof -
  obtain c k c' k' where ck: "ck = (c, k)" "ck' = (c', k')"
    by fastforce
  have inner: "mget [] (if map_of c a = None then mput a [] c else c) = mget [] c" for a
    by (auto simp: mget_def fun_eq_iff split: option.splits)
  have wf: "wf_map (mget [] c' x)" for x
    using assms(1,3) inner [of "so_Actor b"] by (auto simp: ck src_inv_def src_add_def Let_def wf_map_mput
      split: prod.splits option.splits if_splits)
  have at: "src_at c' = (if e = None then (src_at c)(so_Actor b := (src_at c (so_Actor b))(so_ID b \<mapsto> b)) else src_at c)"
    using assms(3) inner [of "so_Actor b"] by (auto simp: ck src_add_def Let_def src_at_def fun_eq_iff mget_def
      split: prod.splits option.splits if_splits)
  have none: "src_at c (so_Actor b) (so_ID b) = None"
  proof (rule ccontr)
    assume "src_at c (so_Actor b) (so_ID b) \<noteq> None"
    then obtain s where "src_at c (so_Actor b) (so_ID b) = Some s"
      by blast
    then have "s \<in> {s \<in> src_set c. so_Actor s = so_Actor b \<and> so_ID s = so_ID b}"
      using assms(1) by (auto simp: ck src_inv_def src_set_def)
    then show False
      using assms(2) by (auto simp: ck mset_set_empty_iff)
  qed
  have "src_set c' = (if e = None then insert b (src_set c) else src_set c)" "b \<notin> src_set c"
    using none by (auto simp: src_set_def at)
  then show ?thesis
    using assms(1) wf at by (auto simp: ck src_inv_def src_content_def split: if_splits)
qed

lemma src_parse_law: "src_parse ev a i key payload = Inr (b, m) \<Longrightarrow> so_Actor b = a \<and> so_ID b = i \<and> so_key b = key"
  by (auto simp: src_parse_def src_load_def split: sum.splits)
text \<open>The sources are a second collection of bindings.\<close>

locale go_ranges =
  fixes ev :: "'k event_env"
  assumes rng: "range_order (ev_rng ev)"

sublocale go_ranges \<subseteq> src: bindings "source_ops ev" src_inv src_content so_Actor so_ID
proof
  fix c a i
  show "mset (b_find (source_ops ev) a i c) = filter_mset (same_binding so_Actor so_ID a i) (src_content c)" if "src_inv c"
    using src_find_law [OF rng that] by (simp add: source_ops_def)
  show "src_inv c' \<and> mset found = filter_mset (same_binding so_Actor so_ID a i) (src_content c) \<and>
      src_content c' = filter_mset (\<lambda>b. \<not> same_binding so_Actor so_ID a i b) (src_content c)"
    if "src_inv c" "b_cancel (source_ops ev) a i c = (found, c')" for found c'
    using src_cancel_law [OF rng that(1), of a i found c'] that(2) by (simp add: source_ops_def)
  show "src_inv c' \<and> src_content c' = (if e = None then add_mset b (src_content c) else src_content c)"
    if "src_inv c" "filter_mset (\<lambda>b'. so_Actor b' = so_Actor b \<and> so_ID b' = so_ID b) (src_content c) = {#}"
      "b_add (source_ops ev) b c = ((code, e), c')" for b code e c'
    using src_add_law [OF that(1,2), of ev code e c'] that(3) by (simp add: source_ops_def)
  show "so_Actor b = a \<and> so_ID b = i \<and> b_k (source_ops ev) b = key"
    if "b_parse (source_ops ev) a i key payload = Inr (b, m)" for key payload b m
    using src_parse_law [of ev a i key payload b m] that by (simp add: source_ops_def)
qed

context go_ranges
begin

lemmas src_put = src.putBinding_content
lemmas src_delete = src.deleteBindings_content

end

interpretation in_order: go_ranges "ev\<lparr>ev_rng := \<lambda>m. m\<rparr>" for ev
  by unfold_locales simp

section \<open>Properties\<close>

text \<open>Subscribing an actor leaves exactly one subscription of that id for the actor, in place of any there was, and
  every other subscription as it was.\<close>

theorem put_subscription:
  assumes "range_order (ev_rng ev)" "src_inv c" "i \<noteq> ''''"
    and "putBinding api sc rng (source_ops ev) kind a i payload (c, r) = (Ok (code, None), c', r')"
  shows "src_inv c' \<and>
    (\<exists>b. so_Actor b = a \<and> so_ID b = i \<and> src_find ev a i c' = [b] \<and>
      src_set (fst c') = insert b {s \<in> src_set (fst c). \<not> (so_Actor s = a \<and> so_ID s = i)})"
proof -
  have loc: "go_ranges ev"
    using assms(1) by unfold_locales
  obtain b where b: "src_inv c'" "so_Actor b = a" "so_ID b = i"
    "src_content c' = add_mset b (filter_mset (\<lambda>b. \<not> (so_Actor b = a \<and> so_ID b = i)) (src_content c))"
    using go_ranges.src_put [OF loc assms(2-4)] assms(3) by (auto simp: same_binding_def)
  then have "mset (src_find ev a i c') = {#b#}"
    using assms(3) by (simp only: src_find_law [OF assms(1) b(1)] b(4)) (auto simp: same_binding_def b mset_set_empty_iff)
  moreover have "set_mset (src_content c') = src_set (fst c')"
    by (simp add: src_content_def)
  ultimately show ?thesis
    using b by auto
qed


section \<open>Samples\<close>

definition sample_ev :: "nat event_env" where
  "sample_ev = \<lparr>ev_json = plain_json, ev_string = Inr, ev_newcg = (\<lambda>grp oldest k. (None, Suc k)), ev_stop = (\<lambda>s k. Suc k),
     ev_rng = (\<lambda>m. m), ev_uuid = ''f''\<rparr>"

definition sample_source :: source where
  "sample_source = \<lparr>so_Actor = sample_actor, so_ID = ''s'', so_key = ''k'', so_Path = ''put'', so_Topic = ''t'', so_Group = '''',
     so_ContentType = ''application/cloudevents+json'', so_OffsetOldest = False\<rparr>"

theorem put_subscription_witness:
  "\<exists>c' r' b. putBinding mem_redis sample_sc (\<lambda>xs. xs) (source_ops sample_ev) ''subscriptions'' sample_actor ''s''
       (json_fields [(''path'', ''put''), (''topic'', ''t'')]) (([], 0), []) = (Ok (204, None), c', r') \<and>
     src_find sample_ev sample_actor ''s'' c' = [b]"
proof -
  let ?x = "putBinding mem_redis sample_sc (\<lambda>xs. xs) (source_ops sample_ev) ''subscriptions'' sample_actor ''s''
       (json_fields [(''path'', ''put''), (''topic'', ''t'')]) (([], 0), [])"
  have "fst ?x = Ok (204, None)"
    by code_simp
  then have x: "?x = (Ok (204, None), fst (snd ?x), snd (snd ?x))"
    by (simp only: prod_eq_iff fst_conv snd_conv simp_thms)
  have h: "range_order (ev_rng sample_ev)" "src_inv ([], 0 :: nat)" "''s'' \<noteq> []"
    by (simp_all add: sample_ev_def src_inv_def src_at_def)
  from put_subscription [OF h x] obtain b where "src_find sample_ev sample_actor ''s'' (fst (snd ?x)) = [b]"
    by blast
  with x show ?thesis
    by (intro exI conjI)
qed


end
