(* ===== verification/Debug_Conditions.thy ===== *)
theory Debug_Conditions
  imports Rpc_Store Complex_Main
begin

text \<open>
  \<^verbatim>\<open>src/core/internal/runtime/debug-parser.go\<close>: the conditions of breakpoints and the edits of responses, evaluated on
  JSON values.  The two grammars are those of a parser generator, a parameter that gives the parsed lists; so is the
  matching of regular expressions.
\<close>

section \<open>Values\<close>

text \<open>
  What a variable of type \<^verbatim>\<open>interface{}\<close> holds here.  \<^verbatim>\<open>encoding/json\<close> makes every number a \<^verbatim>\<open>float64\<close>; an \<^verbatim>\<open>int\<close> comes
  from a literal.  JSON has neither infinities nor NaN, so that a \<^verbatim>\<open>float64\<close> is the number it stands for.
\<close>

datatype jval =
    JNull
  | JBool bool
  | JInt int
  | JFloat rat
  | JStr string
  | JArr "jval list"
  | JObj "(string, jval) gomap"

text \<open>The conversion \<^verbatim>\<open>float64(i)\<close>: 53 significant bits, ties to even.\<close>

fun bit_len :: "nat \<Rightarrow> nat" where
  "bit_len n = (if n = 0 then 0 else Suc (bit_len (n div 2)))"

declare bit_len.simps [simp del]

definition round_bits :: "nat \<Rightarrow> nat \<Rightarrow> nat" where
  "round_bits k n =
     (let q = n div 2 ^ k; r = n mod 2 ^ k; half = 2 ^ (k - 1)
      in (if r < half \<or> (r = half \<and> even q) then q else q + 1) * 2 ^ k)"

definition float64_of_int :: "int \<Rightarrow> rat" where
  "float64_of_int i =
     (let n = nat \<bar>i\<bar>
      in if bit_len n \<le> 53 then of_int i else of_int (sgn i * int (round_bits (bit_len n - 53) n)))"

text \<open>Comparison of interfaces with \<^verbatim>\<open>==\<close> panics when both hold slices or both hold maps.\<close>

fun go_eq :: "jval \<Rightarrow> jval \<Rightarrow> bool result" where
  "go_eq (JArr _) (JArr _) = Panicked"
| "go_eq (JObj _) (JObj _) = Panicked"
| "go_eq x y = Ok (x = y)"

section \<open>Access and replacement\<close>

text \<open>An array index out of range above is an error; a negative one is a run-time panic.\<close>

definition arr_at :: "jval list \<Rightarrow> string \<Rightarrow> nat result" where
  "arr_at xs q =
     (case parse_int q of
        (_, False) \<Rightarrow> Error (ErrMsg ''Array accessor must be an int literal'')
      | (i, True) \<Rightarrow>
          if i \<ge> int (length xs) then Error (ErrMsg (''Array accessor out of bounds''))
          else if i < 0 then Panicked
          else Ok (nat i))"

definition child :: "jval \<Rightarrow> string \<Rightarrow> jval result" where
  "child obj q =
     (case obj of
        JArr xs \<Rightarrow> (case arr_at xs q of Ok i \<Rightarrow> Ok (xs ! i) | Error e \<Rightarrow> Error e | Panicked \<Rightarrow> Panicked)
      | JObj m \<Rightarrow> (case map_of m q of Some v \<Rightarrow> Ok v | None \<Rightarrow> Error (ErrMsg (''Key '' @ q @ '' not found in map'')))
      | _ \<Rightarrow> Error (ErrMsg (''Attempted to access property '' @ q @ '' of a non-map/non-array'')))"

fun access :: "jval \<Rightarrow> string list \<Rightarrow> jval result" where
  "access obj [] = Ok obj"
| "access obj (q # qs) =
     (case child obj q of
        Ok v \<Rightarrow> access v qs
      | Error e \<Rightarrow> Error e
      | Panicked \<Rightarrow> Panicked)"

text \<open>The first loop of \<^verbatim>\<open>replace\<close> collects the objects along the query.\<close>

fun replace_down :: "jval \<Rightarrow> string list \<Rightarrow> jval list result" where
  "replace_down obj [] = Ok [obj]"
| "replace_down obj (q # qs) =
     (case child obj q of
        Ok v \<Rightarrow> (case replace_down v qs of Ok os \<Rightarrow> Ok (obj # os) | Error e \<Rightarrow> Error e | Panicked \<Rightarrow> Panicked)
      | Error e \<Rightarrow> Error e
      | Panicked \<Rightarrow> Panicked)"

definition set_child :: "jval \<Rightarrow> string \<Rightarrow> jval \<Rightarrow> jval result" where
  "set_child obj q v =
     (case obj of
        JArr xs \<Rightarrow> (case arr_at xs q of Ok i \<Rightarrow> Ok (JArr (xs[i := v])) | Error e \<Rightarrow> Error e | Panicked \<Rightarrow> Panicked)
      | JObj m \<Rightarrow> (if map_of m q = None then Error (ErrMsg (''Key '' @ q @ '' not found in map'')) else Ok (JObj (mput q v m)))
      | _ \<Rightarrow> Error (ErrMsg (''Attempted to access property '' @ q @ '' of a non-map/non-array'')))"

text \<open>The second loop writes them back from the last query to the first; \<open>v\<close> is \<^verbatim>\<open>objList[i+1]\<close>.\<close>

fun replace_up :: "(jval \<times> string) list \<Rightarrow> jval \<Rightarrow> jval result" where
  "replace_up [] v = Ok v"
| "replace_up ((obj, q) # rest) v =
     (case set_child obj q v of
        Ok obj' \<Rightarrow> replace_up rest obj'
      | Error e \<Rightarrow> Error e
      | Panicked \<Rightarrow> Panicked)"

definition replace :: "jval \<Rightarrow> string list \<Rightarrow> jval \<Rightarrow> jval result" where
  "replace obj query newVal =
     (case replace_down obj query of
        Ok objList \<Rightarrow> replace_up (rev (zip (butlast objList) query)) newVal
      | Error e \<Rightarrow> Error e
      | Panicked \<Rightarrow> Panicked)"

section \<open>Conditions\<close>

record Expr_p =
  e_Int :: "int option"
  e_Float :: "rat option"
  e_String :: "string option"
  e_Accessor :: "string list option"

record Cond_p =
  c_LHS :: Expr_p
  c_Op :: string
  c_RHS :: Expr_p

record CondList_p =
  cl_Head :: "Cond_p list option"
  cl_Tail :: Cond_p

text \<open>The assignments are made one after the other, the accessor last.\<close>

definition cond_literal :: "Expr_p \<Rightarrow> jval" where
  "cond_literal e =
     (case e_Float e of Some f \<Rightarrow> JFloat f
      | None \<Rightarrow> (case e_String e of Some s \<Rightarrow> JStr s
      | None \<Rightarrow> (case e_Int e of Some i \<Rightarrow> JInt i
      | None \<Rightarrow> JNull)))"

definition operand :: "jval \<Rightarrow> Expr_p \<Rightarrow> jval result" where
  "operand obj e = (case e_Accessor e of Some l \<Rightarrow> access obj l | None \<Rightarrow> Ok (cond_literal e))"

fun contains :: "string \<Rightarrow> string \<Rightarrow> bool" where
  "contains [] sub \<longleftrightarrow> sub = []"
| "contains (x # xs) sub \<longleftrightarrow> take (length sub) (x # xs) = sub \<or> contains xs sub"

definition ordered :: "string \<Rightarrow> 'a::linorder \<Rightarrow> 'a \<Rightarrow> bool" where
  "ordered op x y =
     (if op = ''<='' then x \<le> y else if op = ''>='' then x \<ge> y else if op = ''<'' then x < y else if op = ''>'' then x > y else False)"

text \<open>
  The switch on the type of the left side.  The values are JSON values or literals, so that none is a \<^verbatim>\<open>[]int\<close>,
  a \<^verbatim>\<open>[]float64\<close> or a \<^verbatim>\<open>[]string\<close>: the tests of \<^verbatim>\<open>IN\<close> for these types fail, and their loops run over a nil slice.
\<close>

fun compare_values :: "(string \<Rightarrow> string \<Rightarrow> bool) \<Rightarrow> string \<Rightarrow> jval \<Rightarrow> jval \<Rightarrow> bool" where
  "compare_values re op (JInt l) (JInt r) = (if op = ''IN'' then False else ordered op l r)"
| "compare_values re op (JFloat l) (JFloat r) = (if op = ''IN'' then False else ordered op l r)"
| "compare_values re op (JStr l) (JStr r) = (if op = ''LIKE'' then re r l else if op = ''IN'' then contains r l else False)"
| "compare_values re op (JStr l) (JObj m) = (if op = ''IN'' then map_of m l \<noteq> None else False)"
| "compare_values re op _ _ = False"

definition widen :: "jval \<Rightarrow> jval \<Rightarrow> jval \<times> jval" where
  "widen l r =
     (case (l, r) of
        (JFloat _, JInt i) \<Rightarrow> (l, JFloat (float64_of_int i))
      | (JInt i, JFloat _) \<Rightarrow> (JFloat (float64_of_int i), r)
      | _ \<Rightarrow> (l, r))"

definition compare_op :: "(string \<Rightarrow> string \<Rightarrow> bool) \<Rightarrow> string \<Rightarrow> jval \<Rightarrow> jval \<Rightarrow> bool result" where
  "compare_op re op l r =
     (if l = JNull \<or> r = JNull then Ok False
      else if op = ''=='' then go_eq l r
      else if op = ''!='' then (case go_eq l r of Ok b \<Rightarrow> Ok (\<not> b) | Error e \<Rightarrow> Error e | Panicked \<Rightarrow> Panicked)
      else (case widen l r of (l', r') \<Rightarrow> Ok (compare_values re op l' r')))"

definition cond :: "(string \<Rightarrow> string \<Rightarrow> bool) \<Rightarrow> jval \<Rightarrow> Cond_p \<Rightarrow> bool result" where
  "cond re obj c =
     (case operand obj (c_LHS c) of
        Panicked \<Rightarrow> Panicked
      | Error _ \<Rightarrow> Ok False
      | Ok l \<Rightarrow>
          (case operand obj (c_RHS c) of
             Panicked \<Rightarrow> Panicked
           | Error _ \<Rightarrow> Ok False
           | Ok r \<Rightarrow> compare_op re (c_Op c) l r))"

fun all_conds :: "(string \<Rightarrow> string \<Rightarrow> bool) \<Rightarrow> jval \<Rightarrow> Cond_p list \<Rightarrow> bool result" where
  "all_conds re obj [] = Ok True"
| "all_conds re obj (c # cs) =
     (case cond re obj c of
        Ok True \<Rightarrow> all_conds re obj cs
      | r \<Rightarrow> r)"

definition runConds :: "(string \<Rightarrow> string \<Rightarrow> bool) \<Rightarrow> (string \<Rightarrow> err + CondList_p) \<Rightarrow> jval \<Rightarrow> string \<Rightarrow> bool result" where
  "runConds re parser obj conds =
     (case parser conds of
        Inl _ \<Rightarrow> Ok False
      | Inr cl \<Rightarrow> all_conds re obj ((case cl_Head cl of None \<Rightarrow> [] | Some cs \<Rightarrow> cs) @ [cl_Tail cl]))"

section \<open>Edits\<close>

record Edit_p =
  ed_Accessor :: "string list"
  ed_Value :: Expr_p

record EditList_p =
  el_Head :: "Edit_p list option"
  el_Tail :: Edit_p

text \<open>As \<^const>\<open>cond_literal\<close>, with string and float the other way round and no accessor.\<close>

definition edit_literal :: "Expr_p \<Rightarrow> jval" where
  "edit_literal e =
     (case e_String e of Some s \<Rightarrow> JStr s
      | None \<Rightarrow> (case e_Float e of Some f \<Rightarrow> JFloat f
      | None \<Rightarrow> (case e_Int e of Some i \<Rightarrow> JInt i
      | None \<Rightarrow> JNull)))"

text \<open>
  The loop over the edits.  \<^verbatim>\<open>replace\<close> changes arrays and maps in place, so that \<^verbatim>\<open>originalObj\<close>, returned when a value is
  missing or an edit fails, has the edits made before; the grammar has no empty accessor.
\<close>

fun edit_loop :: "jval \<Rightarrow> Edit_p list \<Rightarrow> (jval \<times> err option) result" where
  "edit_loop obj [] = Ok (obj, None)"
| "edit_loop obj (e # es) =
     (if edit_literal (ed_Value e) = JNull then Ok (obj, None)
      else case replace obj (ed_Accessor e) (edit_literal (ed_Value e)) of
             Ok obj' \<Rightarrow> edit_loop obj' es
           | Error er \<Rightarrow> Ok (obj, Some er)
           | Panicked \<Rightarrow> Panicked)"

definition doEdits :: "(string \<Rightarrow> err + EditList_p) \<Rightarrow> jval \<Rightarrow> string \<Rightarrow> (jval \<times> err option) result" where
  "doEdits parser obj edit =
     (case parser edit of
        Inl e \<Rightarrow> Ok (obj, Some e)
      | Inr el \<Rightarrow> edit_loop obj ((case el_Head el of None \<Rightarrow> [] | Some es \<Rightarrow> es) @ [el_Tail el]))"

section \<open>Lemmas on replacement\<close>

text \<open>Replacement by recursion on the query.\<close>

fun replace_at :: "jval \<Rightarrow> string list \<Rightarrow> jval \<Rightarrow> jval result" where
  "replace_at obj [] v = Ok v"
| "replace_at obj (q # qs) v =
     (case child obj q of
        Ok c \<Rightarrow> (case replace_at c qs v of Ok c' \<Rightarrow> set_child obj q c' | Error e \<Rightarrow> Error e | Panicked \<Rightarrow> Panicked)
      | Error e \<Rightarrow> Error e
      | Panicked \<Rightarrow> Panicked)"

lemma replace_up_append:
  "replace_up (xs @ ys) v = (case replace_up xs v of Ok v' \<Rightarrow> replace_up ys v' | Error e \<Rightarrow> Error e | Panicked \<Rightarrow> Panicked)"
  by (induction xs v rule: replace_up.induct) (simp_all split: result.split)

lemma replace_down_Nil [simp]: "replace_down obj qs \<noteq> Ok []"
  by (cases qs) (auto split: result.splits)

lemma replace_eq: "replace obj qs v = replace_at obj qs v"
  unfolding replace_def
proof (induction qs arbitrary: obj)
  case (Cons q qs)
  show ?case
  proof (cases "child obj q")
    case (Ok c)
    show ?thesis
    proof (cases "replace_down c qs")
      case os: (Ok os)
      then have "os \<noteq> []"
        by auto
      then show ?thesis
        using Cons.IH [of c] Ok os by (simp add: replace_up_append split: result.split)
    qed (use Cons.IH [of c, symmetric] Ok in \<open>simp_all\<close>)
  qed simp_all
qed simp

text \<open>Two accessors that denote neither the same key nor the same index.\<close>

definition apart :: "string \<Rightarrow> string \<Rightarrow> bool" where
  "apart a b \<longleftrightarrow> a \<noteq> b \<and> \<not> (snd (parse_int a) \<and> snd (parse_int b) \<and> fst (parse_int a) = fst (parse_int b))"

fun diverge :: "string list \<Rightarrow> string list \<Rightarrow> bool" where
  "diverge (a # as) (b # bs) \<longleftrightarrow> (if a = b then diverge as bs else apart a b)"
| "diverge _ _ \<longleftrightarrow> False"

lemma arr_at_length: "length xs = length ys \<Longrightarrow> arr_at xs q = arr_at ys q"
  by (simp add: arr_at_def split: prod.split bool.split)

lemma arr_at_Ok: "arr_at xs q = Ok i \<Longrightarrow> i < length xs \<and> parse_int q = (int i, True)"
  by (auto simp: arr_at_def split: prod.splits bool.splits if_splits)

lemma child_set_child: "set_child obj q v = Ok obj' \<Longrightarrow> child obj' q = Ok v"
  by (auto simp: set_child_def child_def arr_at_length [of "_[_ := _]"] dest: arr_at_Ok intro!: nth_list_update_eq
    split: jval.splits result.splits if_splits)

lemma child_set_child_apart:
  assumes "set_child obj q v = Ok obj'" "apart q q'"
  shows "child obj' q' = child obj q'"
proof (cases obj)
  case (JArr xs)
  then obtain i where i: "arr_at xs q = Ok i" "obj' = JArr (xs[i := v])"
    using assms(1) by (auto simp: set_child_def split: result.splits)
  have "i \<noteq> j" if "arr_at xs q' = Ok j" for j
    using arr_at_Ok [OF i(1)] arr_at_Ok [OF that] assms(2) by (auto simp: apart_def)
  then show ?thesis
    using JArr i(2) by (simp add: child_def arr_at_length [of "xs[i := v]" xs] split: result.split)
next
  case (JObj m)
  then show ?thesis
    using assms by (auto simp: set_child_def child_def apart_def split: if_splits)
qed (use assms in \<open>simp_all add: set_child_def\<close>)

lemma replace_at_Cons:
  assumes "replace_at obj (q # qs) v = Ok obj'"
  obtains c c' where "child obj q = Ok c" "replace_at c qs v = Ok c'" "set_child obj q c' = Ok obj'"
  using assms by (auto split: result.splits)

lemma access_replaced: "replace_at obj q v = Ok obj' \<Longrightarrow> access obj' (q @ p) = access v p"
proof (induction q arbitrary: obj obj')
  case (Cons a q)
  then obtain c c' where "child obj a = Ok c" "replace_at c q v = Ok c'" "set_child obj a c' = Ok obj'"
    by (rule_tac replace_at_Cons)
  then show ?case
    using Cons.IH by (simp add: child_set_child)
qed simp

lemma access_elsewhere: "replace_at obj q v = Ok obj' \<Longrightarrow> diverge q q' \<Longrightarrow> access obj' q' = access obj q'"
proof (induction q q' arbitrary: obj obj' rule: diverge.induct)
  case (1 a as b bs)
  obtain c c' where c: "child obj a = Ok c" "replace_at c as v = Ok c'" "set_child obj a c' = Ok obj'"
    using 1(2) by (rule replace_at_Cons)
  show ?case
  proof (cases "a = b")
    case True
    then show ?thesis
      using 1(1) [OF True c(2)] 1(3) c child_set_child [OF c(3)] by simp
  next
    case False
    then show ?thesis
      using 1(3) child_set_child_apart [OF c(3), of b] by simp
  qed
qed simp_all

section \<open>Properties\<close>

text \<open>An edit replaces exactly what its accessor denotes: the new value is found there afterwards, with everything
  below it, and whatever another accessor that leaves the path denotes is as before.\<close>

theorem replace_access:
  assumes "replace obj q v = Ok obj'"
  shows "access obj' (q @ p) = access v p \<and> (diverge q q' \<longrightarrow> access obj' q' = access obj q')"
  using access_replaced access_elsewhere assms by (auto simp: replace_eq)

text \<open>The number a value stands for, with the integers that a \<^verbatim>\<open>float64\<close> represents.\<close>

fun num :: "jval \<Rightarrow> rat option" where
  "num (JFloat f) = Some f"
| "num (JInt i) = (if bit_len (nat \<bar>i\<bar>) \<le> 53 then Some (of_int i) else None)"
| "num _ = None"

fun is_int_literal :: "jval \<Rightarrow> bool" where
  "is_int_literal (JInt _) = True"
| "is_int_literal _ = False"

text \<open>Conditions on numbers: the four orders compare the numbers, whether they come from the message or from a
  literal; equality does not convert, so that a number of a message never equals an integer literal and always differs
  from it; membership never holds of a number.\<close>

theorem cond_numbers:
  assumes "operand obj (c_LHS c) = Ok l" "operand obj (c_RHS c) = Ok r" "num l = Some x" "num r = Some y"
  shows "cond re obj c = Ok (
    if c_Op c = ''=='' then x = y \<and> is_int_literal l = is_int_literal r
    else if c_Op c = ''!='' then \<not> (x = y \<and> is_int_literal l = is_int_literal r)
    else if c_Op c = ''<'' then x < y else if c_Op c = ''<='' then x \<le> y
    else if c_Op c = ''>'' then x > y else if c_Op c = ''>='' then x \<ge> y else False)"
  using assms by (cases l; cases r)
    (auto simp: cond_def compare_op_def widen_def ordered_def float64_of_int_def split: if_splits)

section \<open>Samples\<close>

definition sample_obj :: jval where
  "sample_obj = JObj [(''path'', JStr ''/put''), (''payload'', JArr [JFloat 5, JStr ''x''])]"

definition sample_expr :: Expr_p where
  "sample_expr = \<lparr>e_Int = None, e_Float = None, e_String = None, e_Accessor = None\<rparr>"

definition sample_cond :: "string \<Rightarrow> Cond_p" where
  "sample_cond op = \<lparr>c_LHS = sample_expr\<lparr>e_Accessor := Some [''payload'', ''0'']\<rparr>, c_Op = op, c_RHS = sample_expr\<lparr>e_Int := Some 5\<rparr>\<rparr>"

lemma parse_int_0 [simp]: "parse_int ''0'' = (0, True)"
proof -
  have "itoa 0 = ''0''"
    by code_simp
  then show ?thesis
    using parse_int_itoa [of 0] by (simp add: int64_def)
qed

lemma parse_int_1 [simp]: "parse_int ''1'' = (1, True)"
proof -
  have "itoa 1 = ''1''"
    by code_simp
  then show ?thesis
    using parse_int_itoa [of 1] by (simp add: int64_def)
qed

theorem replace_access_witness:
  "\<exists>obj'. replace sample_obj [''payload'', ''0''] (JInt 7) = Ok obj' \<and> access obj' [''payload'', ''0''] = Ok (JInt 7) \<and>
     access obj' [''payload'', ''1''] = Ok (JStr ''x'')"
proof -
  obtain obj' where r: "replace sample_obj [''payload'', ''0''] (JInt 7) = Ok obj'"
    by (simp add: replace_eq sample_obj_def child_def set_child_def arr_at_def)
  have "access sample_obj [''payload'', ''1''] = Ok (JStr ''x'')" "diverge [''payload'', ''0''] [''payload'', ''1'']"
    by (simp_all add: sample_obj_def child_def arr_at_def apart_def)
  then show ?thesis
    using r replace_access [OF r, of "[]" "[''payload'', ''1'']"] by simp
qed

theorem cond_numbers_witness:
  "cond (\<lambda>_ _. False) sample_obj (sample_cond ''=='') = Ok False \<and> cond (\<lambda>_ _. False) sample_obj (sample_cond ''<='') = Ok True"
proof -
  have e: "operand sample_obj (c_LHS (sample_cond op)) = Ok (JFloat 5)" "operand sample_obj (c_RHS (sample_cond op)) = Ok (JInt 5)"
    "c_Op (sample_cond op) = op" for op
    by (simp_all add: sample_obj_def sample_cond_def sample_expr_def operand_def cond_literal_def child_def arr_at_def)
  have n: "num (JFloat 5) = Some 5" "num (JInt 5) = Some 5"
    by (simp_all add: bit_len.simps)
  show ?thesis
    using cond_numbers [OF e(1,2) n, of "\<lambda>_ _. False" "''==''"] cond_numbers [OF e(1,2) n, of "\<lambda>_ _. False" "''<=''"] by (simp add: e(3))
qed

end
