(* ===== verification/Debugger.thy ===== *)
theory Debugger
  imports Actor_Calls Debug_Conditions
begin

text \<open>
  The debugger of a node, \<^verbatim>\<open>src/core/internal/runtime/commands.go\<close>: breakpoints, pausing of actors and of the node, and the
  handler of the requests of debuggers.  An actor pauses by waiting on a channel that the end of the pause closes; the
  goroutines that wait are part of the state of the step relation below.  What is handed to \<^verbatim>\<open>rpc.Tell\<close> for other nodes is
  appended to \<open>tells\<close>.
\<close>

section \<open>State\<close>

record actorTuple_t =
  at_id :: string
  at_type :: string

record breakpointAttrs_t =
  ba_actorId :: string
  ba_actorType :: string
  ba_path :: string
  ba_isRequest :: string
  ba_flowId :: string

record breakpoint_t =
  bk_id :: string
  bk_type :: string
  bk_conds :: string
  bk_respConds :: string
  bk_deleteOnHit :: bool
  bk_attrs :: breakpointAttrs_t

record waitInfo_t =
  wi_ActorId :: string
  wi_ActorType :: string
  wi_BreakpointId :: string
  wi_RequestId :: string
  wi_FlowId :: string
  wi_RequestValue :: string
  wi_ResponseValue :: string
  wi_IsResponse :: string

text \<open>
  The package variables of the debugger, beside those of \<^typ>\<open>runtime\<close>.  A channel is a number; \<open>closed_chans\<close> are the channels
  that were closed, \<open>nchan\<close> the number of channels made.
\<close>

record debugger = runtime +
  breakpoints :: "(string, breakpoint_t) gomap"
  breakpointsByAttrs :: "(breakpointAttrs_t, breakpoint_t) gomap"
  isActorPaused :: "(actorTuple_t, nat) gomap"
  pausedBreaks :: "(actorTuple_t, breakpoint_t) gomap"
  isNodePaused :: bool
  nodePausedBk :: breakpoint_t
  immuneFromNodePaused :: "(actorTuple_t, unit) gomap"
  isChannelOpen :: "(nat, bool) gomap"
  closed_chans :: "nat set"
  nchan :: nat
  debuggersMap :: "(string, bool) gomap"
  waitingActors :: "(actorTuple_t, waitInfo_t) gomap"
  ActorHandling :: "(string, actorSentInfo_t) gomap"
  editResponsesMap :: "(string, string) gomap"
  tells :: "(string \<times> (string, string) gomap) list"
  unsets :: "string list"                            \<comment> \<open>goroutines that unset a breakpoint\<close>

text \<open>The zero values.\<close>

definition no_attrs :: breakpointAttrs_t where
  "no_attrs = \<lparr>ba_actorId = '''', ba_actorType = '''', ba_path = '''', ba_isRequest = '''', ba_flowId = ''''\<rparr>"

definition no_break :: breakpoint_t where
  "no_break = \<lparr>bk_id = '''', bk_type = '''', bk_conds = '''', bk_respConds = '''', bk_deleteOnHit = False, bk_attrs = no_attrs\<rparr>"

definition nodeActor :: actorTuple_t where
  "nodeActor = \<lparr>at_id = '''', at_type = ''''\<rparr>"

definition ok_reply :: Reply where
  "ok_reply = \<lparr>StatusCode = 200, ContentType = ''application/json'', Payload = ''''\<rparr>"

text \<open>The parameters: the decoders into a map, into a list and into any value, which return what was decoded and an error;
  the encoder; the parsers of conditions and edits; regular expressions; the range orders; the id of this node.\<close>

record debug_env =
  dj_map :: "string \<Rightarrow> (string, jval) gomap \<times> err option"
  dj_list :: "string \<Rightarrow> jval list \<times> err option"
  dj_val :: "string \<Rightarrow> jval \<times> err option"
  dj_marshal :: "jval \<Rightarrow> err + string"
  dj_conds :: "string \<Rightarrow> err + CondList_p"
  dj_edits :: "string \<Rightarrow> err + EditList_p"
  dj_re :: "string \<Rightarrow> string \<Rightarrow> bool"
  rng_debuggers :: "(string, bool) gomap \<Rightarrow> (string, bool) gomap"
  rng_paused :: "(actorTuple_t, nat) gomap \<Rightarrow> (actorTuple_t, nat) gomap"
  rng_waiting :: "(actorTuple_t, waitInfo_t) gomap \<Rightarrow> (actorTuple_t, waitInfo_t) gomap"
  dj_node :: string
  dj_nodes :: "string list"                          \<comment> \<open>\<^verbatim>\<open>rpc.GetNodeIDs()\<close>\<close>

section \<open>Breakpoints\<close>

definition full_attrs :: "(string, string) gomap \<Rightarrow> breakpointAttrs_t" where
  "full_attrs msg = \<lparr>ba_actorId = mget '''' msg ''actorId'', ba_actorType = mget '''' msg ''actorType'',
     ba_path = mget '''' msg ''path'', ba_isRequest = mget '''' msg ''isRequest'', ba_flowId = mget '''' msg ''flowId''\<rparr>"

definition flow_attrs :: "string \<Rightarrow> breakpointAttrs_t" where
  "flow_attrs fl = no_attrs\<lparr>ba_flowId := fl\<rparr>"

definition setBreakpoint :: "(string, string) gomap \<Rightarrow> debugger \<Rightarrow> debugger" where
  "setBreakpoint msg d =
     (let fl = mget '''' msg ''flowId'';
          attrs = (if map_of msg ''flowId'' \<noteq> None \<and> fl \<noteq> '''' then flow_attrs fl else full_attrs msg);
          bk = \<lparr>bk_id = mget '''' msg ''breakpointId'', bk_type = mget '''' msg ''breakpointType'',
            bk_conds = mget '''' msg ''conds'', bk_respConds = mget '''' msg ''respConds'',
            bk_deleteOnHit = (mget '''' msg ''deleteOnHit'' = ''true''), bk_attrs = full_attrs msg\<rparr>
      in if map_of (breakpointsByAttrs d) attrs \<noteq> None then d
         else d\<lparr>breakpoints := mput (mget '''' msg ''breakpointId'') bk (breakpoints d),
                breakpointsByAttrs := mput attrs bk (breakpointsByAttrs d)\<rparr>)"

definition unsetBreakpoint :: "(string, string) gomap \<Rightarrow> debugger \<Rightarrow> debugger" where
  "unsetBreakpoint msg d =
     (let bk = mget no_break (breakpoints d) (mget '''' msg ''breakpointId'')
      in d\<lparr>breakpoints := mdel (mget '''' msg ''breakpointId'') (breakpoints d),
           breakpointsByAttrs := mdel (flow_attrs (ba_flowId (bk_attrs bk))) (mdel (bk_attrs bk) (breakpointsByAttrs d))\<rparr>)"

definition unpackRequestValue :: "debug_env \<Rightarrow> string \<Rightarrow> (string, jval) gomap \<times> err option" where
  "unpackRequestValue e s =
     (case dj_map e s of
        (retval, er) \<Rightarrow>
          (case map_of retval ''payload'' of
             Some (JStr p) \<Rightarrow> (case dj_list e p of (l, er') \<Rightarrow> (mput ''payload'' (JArr l) retval, er'))
           | _ \<Rightarrow> (retval, er)))"

definition unpackResponseValue :: "debug_env \<Rightarrow> string \<Rightarrow> (string, jval) gomap \<times> err option" where
  "unpackResponseValue e s =
     (case dj_map e s of
        (retval, er) \<Rightarrow>
          (case map_of retval ''Payload'' of
             Some (JStr p) \<Rightarrow> (case dj_val e p of (v, er') \<Rightarrow> (mput ''payload'' v retval, er'))
           | _ \<Rightarrow> (retval, er)))"

text \<open>Whether a breakpoint is hit: \<^const>\<open>None\<close> is the early return of \<^verbatim>\<open>checkBreakpoint\<close> with no hit.\<close>

definition bk_hit ::
  "debug_env \<Rightarrow> (string, jval) gomap \<times> err option \<Rightarrow> (string, jval) gomap \<times> err option \<Rightarrow> breakpoint_t \<Rightarrow> bool option result" where
  "bk_hit e req resp bk =
     (case (if bk_conds bk = '''' then Ok (Some True)
            else if snd req \<noteq> None then Ok None
            else case runConds (dj_re e) (dj_conds e) (JObj (fst req)) (bk_conds bk) of
                   Ok b \<Rightarrow> Ok (Some b) | Error er \<Rightarrow> Error er | Panicked \<Rightarrow> Panicked) of
        Ok (Some hit) \<Rightarrow>
          if bk_respConds bk = '''' then Ok (Some hit)
          else if snd resp \<noteq> None then Ok None
          else (case runConds (dj_re e) (dj_conds e) (JObj (fst resp)) (bk_respConds bk) of
                  Ok b \<Rightarrow> Ok (Some b) | Error er \<Rightarrow> Error er | Panicked \<Rightarrow> Panicked)
      | x \<Rightarrow> x)"

text \<open>The breakpoints for the flow, for the actor and for any actor of its type are tried in turn.\<close>

fun check_attrs ::
  "debug_env \<Rightarrow> (string, jval) gomap \<times> err option \<Rightarrow> (string, jval) gomap \<times> err option \<Rightarrow> breakpointAttrs_t list \<Rightarrow> debugger \<Rightarrow>
    breakpoint_t option result" where
  "check_attrs e req resp [] d = Ok None"
| "check_attrs e req resp (a # as) d =
     (case map_of (breakpointsByAttrs d) a of
        None \<Rightarrow> check_attrs e req resp as d
      | Some bk \<Rightarrow>
          (case bk_hit e req resp bk of
             Ok None \<Rightarrow> Ok None
           | Ok (Some True) \<Rightarrow> Ok (Some bk)
           | Ok (Some False) \<Rightarrow> check_attrs e req resp as d
           | Error er \<Rightarrow> Error er
           | Panicked \<Rightarrow> Panicked))"

definition checkBreakpoint ::
  "debug_env \<Rightarrow> breakpointAttrs_t \<Rightarrow> string \<Rightarrow> string \<Rightarrow> debugger \<Rightarrow> breakpoint_t option result \<times> debugger" where
  "checkBreakpoint e attrs reqStr respStr d =
     (case check_attrs e (unpackRequestValue e reqStr) (unpackResponseValue e respStr)
         [flow_attrs (ba_flowId attrs), attrs\<lparr>ba_flowId := ''''\<rparr>, attrs\<lparr>ba_flowId := '''', ba_actorId := ''''\<rparr>] d of
        Ok (Some bk) \<Rightarrow> (Ok (Some bk), if bk_deleteOnHit bk then d\<lparr>unsets := unsets d @ [bk_id bk]\<rparr> else d)
      | x \<Rightarrow> (x, d))"

section \<open>Pausing\<close>

definition pause :: "actorTuple_t \<Rightarrow> breakpoint_t \<Rightarrow> debugger \<Rightarrow> debugger" where
  "pause info bk d =
     (if map_of (isActorPaused d) info \<noteq> None then d
      else d\<lparr>nchan := Suc (nchan d), isChannelOpen := mput (nchan d) True (isChannelOpen d),
             isActorPaused := mput info (nchan d) (isActorPaused d), pausedBreaks := mput info bk (pausedBreaks d)\<rparr>)"

definition pauseNode :: "breakpoint_t \<Rightarrow> debugger \<Rightarrow> debugger" where
  "pauseNode bk d = d\<lparr>immuneFromNodePaused := [], isNodePaused := True, nodePausedBk := bk\<rparr>"

text \<open>Closing the channel of a pause that is recorded as open; closing a closed channel panics.\<close>

definition open_up :: "nat \<Rightarrow> debugger \<Rightarrow> debugger result" where
  "open_up c d =
     (if map_of (isChannelOpen d) c = Some True then
        (if c \<in> closed_chans d then Panicked
         else Ok (d\<lparr>closed_chans := insert c (closed_chans d), isChannelOpen := mdel c (isChannelOpen d)\<rparr>))
      else Ok d)"

definition unpause :: "actorTuple_t \<Rightarrow> debugger \<Rightarrow> debugger result" where
  "unpause info d = (case map_of (isActorPaused d) info of None \<Rightarrow> Ok d | Some c \<Rightarrow> open_up c d)"

fun open_all :: "(actorTuple_t, nat) gomap \<Rightarrow> debugger \<Rightarrow> debugger result" where
  "open_all [] d = Ok d"
| "open_all ((a, c) # rest) d =
     (case open_up c (d\<lparr>immuneFromNodePaused := mput a () (immuneFromNodePaused d)\<rparr>) of
        Ok d' \<Rightarrow> open_all rest d'
      | Error er \<Rightarrow> Error er
      | Panicked \<Rightarrow> Panicked)"

definition unpauseNode :: "debug_env \<Rightarrow> bool \<Rightarrow> debugger \<Rightarrow> debugger result" where
  "unpauseNode e onlyUnpauseCurrent d =
     (let d1 = (if onlyUnpauseCurrent then d else d\<lparr>isNodePaused := False, immuneFromNodePaused := []\<rparr>)
      in open_all (rng_paused e (isActorPaused d1)) d1)"

definition tell_debuggers :: "debug_env \<Rightarrow> (string, string) gomap \<Rightarrow> debugger \<Rightarrow> debugger" where
  "tell_debuggers e msg d = d\<lparr>tells := tells d @ map (\<lambda>(n, _). (n, msg)) (rng_debuggers e (debuggersMap d))\<rparr>"

definition informPause ::
  "debug_env \<Rightarrow> actorTuple_t \<Rightarrow> breakpoint_t \<Rightarrow> string \<Rightarrow> string \<Rightarrow> string \<Rightarrow> string \<Rightarrow> bool \<Rightarrow> debugger \<Rightarrow> debugger" where
  "informPause e info bk reqId flowId reqVal respVal isResponse d =
     tell_debuggers e
       [(''command'', ''notifyPause''), (''actorId'', at_id info), (''actorType'', at_type info), (''nodeId'', dj_node e),
        (''breakpointId'', bk_id bk), (''requestId'', reqId), (''flowId'', flowId), (''requestValue'', reqVal),
        (''responseValue'', respVal), (''isResponse'', if isResponse then ''response'' else ''request'')] d"

definition informBreakpoint ::
  "debug_env \<Rightarrow> actorTuple_t \<Rightarrow> string \<Rightarrow> breakpoint_t \<Rightarrow> string \<Rightarrow> string \<Rightarrow> string \<Rightarrow> debugger \<Rightarrow> debugger" where
  "informBreakpoint e info reqId bk reqVal respVal isResponse d =
     tell_debuggers e
       [(''command'', ''notifyBreakpoint''), (''actorId'', at_id info), (''actorType'', at_type info), (''nodeId'', dj_node e),
        (''breakpointId'', bk_id bk), (''requestId'', reqId), (''requestValue'', reqVal), (''responseValue'', respVal),
        (''isResponse'', isResponse)] d"

definition pause_msg :: "breakpoint_t \<Rightarrow> (string, string) gomap" where
  "pause_msg bk = [(''command'', ''pause''), (''actorType'', ''''), (''actorId'', ''''), (''breakpointId'', bk_id bk)]"

definition pauseAllSidecars :: "debug_env \<Rightarrow> breakpoint_t \<Rightarrow> debugger \<Rightarrow> debugger" where
  "pauseAllSidecars e bk d =
     d\<lparr>tells := tells d @ map (\<lambda>n. (n, pause_msg bk)) (filter (\<lambda>n. n \<noteq> dj_node e) (dj_nodes e))\<rparr>"

text \<open>
  \<^verbatim>\<open>waitOnPause\<close> for one goroutine: it waits first on the pause of its actor and then on the pause of the node, if there are
  such pauses.  \<open>w_key\<close> and \<open>w_chan\<close> say where it waits, \<open>w_node\<close> that this is the second wait; \<open>w_new\<close> and \<open>w_err\<close> are what it
  returns.  The argument \<^verbatim>\<open>doInform\<close> is not used by the code.
\<close>

record waiter =
  w_info :: actorTuple_t
  w_reqId :: string
  w_flowId :: string
  w_reqVal :: string
  w_respVal :: string
  w_isResponse :: bool
  w_key :: actorTuple_t
  w_chan :: nat
  w_node :: bool
  w_new :: bytes
  w_err :: "err option"

datatype wait_end = Waiting waiter | Done bytes "err option"

definition wait_info :: "waiter \<Rightarrow> breakpoint_t \<Rightarrow> waitInfo_t" where
  "wait_info w bk = \<lparr>wi_ActorId = at_id (w_info w), wi_ActorType = at_type (w_info w), wi_BreakpointId = bk_id bk,
     wi_RequestId = w_reqId w, wi_FlowId = w_flowId w, wi_RequestValue = w_reqVal w, wi_ResponseValue = w_respVal w,
     wi_IsResponse = (if w_isResponse w then ''response'' else ''request'')\<rparr>"

definition wait_at :: "debug_env \<Rightarrow> actorTuple_t \<Rightarrow> waiter \<Rightarrow> debugger \<Rightarrow> (waiter \<times> debugger) option" where
  "wait_at e key w d =
     (case map_of (isActorPaused d) key of
        None \<Rightarrow> None
      | Some c \<Rightarrow>
          let bk = mget no_break (pausedBreaks d) key;
              d1 = informPause e (w_info w) bk (w_reqId w) (w_flowId w) (w_reqVal w) (w_respVal w) (w_isResponse w) d
          in Some (w\<lparr>w_key := key, w_chan := c\<rparr>, d1\<lparr>waitingActors := mput (w_info w) (wait_info w bk) (waitingActors d1)\<rparr>))"

definition wait_node :: "debug_env \<Rightarrow> waiter \<Rightarrow> debugger \<Rightarrow> wait_end \<times> debugger" where
  "wait_node e w d =
     (case wait_at e nodeActor (w\<lparr>w_node := True\<rparr>) d of
        Some (w', d') \<Rightarrow> (Waiting w', d')
      | None \<Rightarrow> (Done (w_new w) (w_err w), d))"

definition wait_begin :: "debug_env \<Rightarrow> waiter \<Rightarrow> debugger \<Rightarrow> wait_end \<times> debugger" where
  "wait_begin e w d =
     (case wait_at e (w_info w) (w\<lparr>w_node := False, w_new := None, w_err := None\<rparr>) d of
        Some (w', d') \<Rightarrow> (Waiting w', d')
      | None \<Rightarrow> wait_node e (w\<lparr>w_new := None, w_err := None\<rparr>) d)"

text \<open>The edit of a response: its payload, decoded, edited and encoded again.\<close>

definition edit_response :: "debug_env \<Rightarrow> string \<Rightarrow> string \<Rightarrow> (bytes \<times> err option) result" where
  "edit_response e respVal edit =
     (case unpackResponseValue e respVal of
        (_, Some er) \<Rightarrow> Ok (None, Some er)
      | (ri, None) \<Rightarrow>
          (case map_of ri ''payload'' of
             None \<Rightarrow> Ok (None, Some (ErrMsg ''payload not found''))
           | Some p \<Rightarrow>
               (case doEdits (dj_edits e) p edit of
                  Panicked \<Rightarrow> Panicked
                | Error er \<Rightarrow> Error er
                | Ok (_, Some er) \<Rightarrow> Ok (None, Some er)
                | Ok (newPayload, None) \<Rightarrow>
                    (case dj_marshal e newPayload of
                       Inl er \<Rightarrow> Ok (None, Some er)
                     | Inr s \<Rightarrow>
                         (case dj_marshal e (JObj (mdel ''payload'' (mput ''Payload'' (JStr s) ri))) of
                            Inl er \<Rightarrow> Ok (None, Some er)
                          | Inr b \<Rightarrow> Ok (Some b, None))))))"

text \<open>The channel was closed: the goroutine goes on.\<close>

definition wait_over :: "debug_env \<Rightarrow> waiter \<Rightarrow> debugger \<Rightarrow> (bytes \<times> err option) result" where
  "wait_over e w d =
     (if w_isResponse w \<and> w_new w = None \<and> w_err w = None then
        (case map_of (editResponsesMap d) (w_reqId w) of
           None \<Rightarrow> Ok (None, None)
         | Some edit \<Rightarrow> edit_response e (w_respVal w) edit)
      else Ok (w_new w, w_err w))"

definition wait_clean :: "waiter \<Rightarrow> debugger \<Rightarrow> debugger" where
  "wait_clean w d = d\<lparr>editResponsesMap := mdel (w_reqId w) (editResponsesMap d), waitingActors := mdel (w_info w) (waitingActors d),
     isActorPaused := mdel (w_key w) (isActorPaused d), pausedBreaks := mdel (w_key w) (pausedBreaks d)\<rparr>"

definition wait_resume :: "debug_env \<Rightarrow> waiter \<Rightarrow> debugger \<Rightarrow> (wait_end \<times> debugger) result" where
  "wait_resume e w d =
     (case wait_over e w d of
        Panicked \<Rightarrow> Panicked
      | Error er \<Rightarrow> Error er
      | Ok (new, er) \<Rightarrow>
          if w_node w then Ok (Done new er, wait_clean w d)
          else Ok (wait_node e (w\<lparr>w_new := new, w_err := er\<rparr>) (wait_clean w d)))"

section \<open>Requests of debuggers\<close>

definition editResponse :: "(string, string) gomap \<Rightarrow> debugger \<Rightarrow> debugger" where
  "editResponse msg d = d\<lparr>editResponsesMap := mput (mget '''' msg ''requestId'') (mget '''' msg ''edit'') (editResponsesMap d)\<rparr>"

definition registerDebugger :: "string \<Rightarrow> debugger \<Rightarrow> debugger" where
  "registerDebugger node d = d\<lparr>debuggersMap := mput node True (debuggersMap d), isDebuggerPresent := True\<rparr>"

definition unregisterDebugger :: "debug_env \<Rightarrow> string \<Rightarrow> debugger \<Rightarrow> debugger result" where
  "unregisterDebugger e node d =
     (let d1 = d\<lparr>debuggersMap := mdel node (debuggersMap d)\<rparr>
      in if length (debuggersMap d1) = 0 then
           let d2 = d1\<lparr>isDebuggerPresent := False\<rparr>
           in if IsDebugMode d2 then Ok d2
              else (case unpauseNode e False d2 of
                      Ok d3 \<Rightarrow> Ok (d3\<lparr>breakpoints := [], breakpointsByAttrs := []\<rparr>)
                    | Error er \<Rightarrow> Error er
                    | Panicked \<Rightarrow> Panicked)
         else Ok d1)"

text \<open>The three listings, as JSON values.\<close>

definition breakpoint_fields :: "breakpoint_t \<Rightarrow> jval" where
  "breakpoint_fields bk = JObj [(''breakpointType'', JStr (bk_type bk)), (''actorId'', JStr (ba_actorId (bk_attrs bk))),
     (''actorType'', JStr (ba_actorType (bk_attrs bk))), (''path'', JStr (ba_path (bk_attrs bk))),
     (''isRequest'', JStr (ba_isRequest (bk_attrs bk)))]"

definition list_reply :: "debug_env \<Rightarrow> jval \<Rightarrow> err + Reply" where
  "list_reply e v =
     (case dj_marshal e v of
        Inl er \<Rightarrow> Inl er
      | Inr s \<Rightarrow> Inr \<lparr>StatusCode = 200, ContentType = ''application/json'', Payload = s\<rparr>)"

definition listBreakpoints :: "debug_env \<Rightarrow> debugger \<Rightarrow> err + Reply" where
  "listBreakpoints e d = list_reply e (JObj (map (\<lambda>(i, bk). (i, breakpoint_fields bk)) (breakpoints d)))"

definition wait_fields :: "waitInfo_t \<Rightarrow> jval" where
  "wait_fields w = JObj [(''actorId'', JStr (wi_ActorId w)), (''actorType'', JStr (wi_ActorType w)),
     (''breakpointId'', JStr (wi_BreakpointId w)), (''requestId'', JStr (wi_RequestId w)), (''flowId'', JStr (wi_FlowId w)),
     (''requestValue'', JStr (wi_RequestValue w)), (''responseValue'', JStr (wi_ResponseValue w)),
     (''isResponse'', JStr (wi_IsResponse w)), (''nodeId'', JStr '''')]"

definition listPausedActors :: "debug_env \<Rightarrow> debugger \<Rightarrow> err + Reply" where
  "listPausedActors e d = list_reply e (JArr (map (\<lambda>(_, w). wait_fields w) (rng_waiting e (waitingActors d))))"

definition sent_fields :: "actorSentInfo_t \<Rightarrow> jval" where
  "sent_fields a = JObj [(''actor'', JObj [(''actorType'', JStr (Type (as_Actor a))), (''actorId'', JStr (ID (as_Actor a)))]),
     (''parentId'', JStr (as_ParentId a)), (''flowId'', JStr (as_FlowId a)), (''requestValue'', JStr (as_RequestValue a))]"

definition listBusyActors :: "debug_env \<Rightarrow> debugger \<Rightarrow> err + Reply" where
  "listBusyActors e d = list_reply e (JObj
     [(''actorHandling'', JObj (map (\<lambda>(i, a). (i, sent_fields a)) (ActorHandling d))),
      (''actorSent'', JObj (map (\<lambda>(i, a). (i, sent_fields a)) (ActorSent d)))])"

text \<open>The commands: the reply, or \<^const>\<open>None\<close> for the dropped message, and the new state.\<close>

definition plain_reply :: "debugger result \<Rightarrow> ((err + Reply) option \<times> debugger) result" where
  "plain_reply x = (case x of Ok d \<Rightarrow> Ok (Some (Inr ok_reply), d) | Error er \<Rightarrow> Error er | Panicked \<Rightarrow> Panicked)"

definition msg_actor :: "(string, string) gomap \<Rightarrow> actorTuple_t" where
  "msg_actor msg = \<lparr>at_id = mget '''' msg ''actorId'', at_type = mget '''' msg ''actorType''\<rparr>"

definition msg_break :: "(string, string) gomap \<Rightarrow> breakpoint_t" where
  "msg_break msg = no_break\<lparr>bk_id := mget '''' msg ''breakpointId''\<rparr>"

definition debug_command :: "debug_env \<Rightarrow> (string, string) gomap \<Rightarrow> debugger \<Rightarrow> ((err + Reply) option \<times> debugger) result" where
  "debug_command e msg d =
     (let c = mget '''' msg ''command'';
          reg = registerDebugger (mget '''' msg ''srcNodeId'') d;
          whole = (mget '''' msg ''actorType'' = '''' \<or> mget '''' msg ''actorId'' = '''')
      in if c = ''setBreakpoint'' then plain_reply (Ok (setBreakpoint msg reg))
         else if c = ''unsetBreakpoint'' then plain_reply (Ok (unsetBreakpoint msg reg))
         else if c = ''pause'' then
           plain_reply (Ok (if whole then pauseNode (msg_break msg) reg else pause (msg_actor msg) (msg_break msg) reg))
         else if c = ''unpause'' then
           plain_reply (if whole then unpauseNode e (map_of msg ''onlyUnpauseCurrent'' \<noteq> None) reg else unpause (msg_actor msg) reg)
         else if c = ''registerDebugger'' then plain_reply (Ok (registerDebugger (mget '''' msg ''nodeId'') d))
         else if c = ''unregisterDebugger'' then plain_reply (unregisterDebugger e (mget '''' msg ''nodeId'') d)
         else if c = ''notifyPause'' \<or> c = ''notifyBreakpoint'' then plain_reply (Ok d)
         else if c = ''listBreakpoints'' then Ok (Some (listBreakpoints e d), d)
         else if c = ''listPausedActors'' then Ok (Some (listPausedActors e d), d)
         else if c = ''listBusyActors'' then Ok (Some (listBusyActors e d), d)
         else if c = ''editResponse'' then plain_reply (Ok (editResponse msg d))
         else Ok (None, d))"

text \<open>\<^verbatim>\<open>handlerDebugger\<close>; the forwarding of notifications to the connected debuggers is output only.\<close>

definition handlerDebugger :: "json \<Rightarrow> debug_env \<Rightarrow> string \<Rightarrow> debugger \<Rightarrow> ((bytes \<times> err option) \<times> debugger) result" where
  "handlerDebugger js e value' d =
     (case js_unmarshal js value' of
        Inl er \<Rightarrow> Ok ((None, Some er), d)
      | Inr msg \<Rightarrow>
          (case debug_command e msg d of
             Panicked \<Rightarrow> Panicked
           | Error er \<Rightarrow> Error er
           | Ok (None, d') \<Rightarrow> Ok ((None, None), d')
           | Ok (Some (Inl er), d') \<Rightarrow> Ok ((None, Some er), d')
           | Ok (Some (Inr rep), d') \<Rightarrow>
               (case js_reply js rep of Inl er \<Rightarrow> Ok ((None, Some er), d') | Inr b \<Rightarrow> Ok ((Some b, None), d'))))"

section \<open>Interleaving\<close>

text \<open>
  A state is that of the debugger and the goroutines that wait.  Steps: a request of a debugger; a pause by an actor that
  hits a breakpoint, of itself or of the node; an actor beginning to wait; a waiting one going on once its channel is
  closed.
\<close>

inductive dstep :: "debug_env \<Rightarrow> debugger \<times> waiter list \<Rightarrow> debugger \<times> waiter list \<Rightarrow> bool" for e where
  d_command: "debug_command e msg d = Ok (rep, d') \<Longrightarrow> dstep e (d, ws) (d', ws)"
| d_pause: "dstep e (d, ws) (pause info bk d, ws)"
| d_pauseNode: "dstep e (d, ws) (pauseNode bk d, ws)"
| d_wait: "wait_begin e w d = (Waiting w', d') \<Longrightarrow> dstep e (d, ws) (d', w' # ws)"
| d_resume: "w \<in> set ws \<Longrightarrow> w_chan w \<in> closed_chans d \<Longrightarrow> wait_resume e w d = Ok (Waiting w', d') \<Longrightarrow>
    dstep e (d, ws) (d', w' # remove1 w ws)"
| d_done: "w \<in> set ws \<Longrightarrow> w_chan w \<in> closed_chans d \<Longrightarrow> wait_resume e w d = Ok (Done new er, d') \<Longrightarrow>
    dstep e (d, ws) (d', remove1 w ws)"

definition no_pauses :: "debugger \<Rightarrow> bool" where
  "no_pauses d \<longleftrightarrow> isActorPaused d = [] \<and> isChannelOpen d = [] \<and> closed_chans d = {} \<and> nchan d = 0"

inductive dreach :: "debug_env \<Rightarrow> debugger \<times> waiter list \<Rightarrow> bool" for e where
  d_init: "no_pauses d \<Longrightarrow> dreach e (d, [])"
| d_step: "dreach e x \<Longrightarrow> dstep e x y \<Longrightarrow> dreach e y"

section \<open>Channels\<close>

text \<open>A channel some goroutine may wait on: it is closed already, or recorded as open.\<close>

definition chan_live :: "debugger \<Rightarrow> nat \<Rightarrow> bool" where
  "chan_live d c \<longleftrightarrow> c \<in> closed_chans d \<or> map_of (isChannelOpen d) c = Some True"

definition chan_inv :: "debugger \<Rightarrow> bool" where
  "chan_inv d \<longleftrightarrow>
     (\<forall>c \<in> dom (map_of (isChannelOpen d)). c < nchan d \<and> c \<notin> closed_chans d) \<and> (\<forall>c \<in> closed_chans d. c < nchan d) \<and>
     (\<forall>a c. map_of (isActorPaused d) a = Some c \<longrightarrow> chan_live d c) \<and> wf_map (isActorPaused d)"

definition dbg_inv :: "debugger \<times> waiter list \<Rightarrow> bool" where
  "dbg_inv x \<longleftrightarrow> chan_inv (fst x) \<and> (\<forall>w \<in> set (snd x). chan_live (fst x) (w_chan w))"

text \<open>The part of the state the invariant reads.\<close>

definition chans :: "debugger \<Rightarrow> (actorTuple_t, nat) gomap \<times> (nat, bool) gomap \<times> nat set \<times> nat" where
  "chans d = (isActorPaused d, isChannelOpen d, closed_chans d, nchan d)"

lemma chans_eq:
  "chans d' = chans d \<Longrightarrow> chan_inv d' = chan_inv d" "chans d' = chans d \<Longrightarrow> chan_live d' = chan_live d"
  by (simp_all add: chans_def chan_inv_def chan_live_def fun_eq_iff)

lemma chans_simps [simp]:
  "chans (setBreakpoint msg d) = chans d" "chans (unsetBreakpoint msg d) = chans d" "chans (registerDebugger n d) = chans d"
  "chans (pauseNode bk d) = chans d" "chans (editResponse msg d) = chans d"
  "chans (tell_debuggers e m d) = chans d" "chans (informPause e i bk r f v v' b d) = chans d"
  "chans (d\<lparr>waitingActors := x\<rparr>) = chans d" "chans (d\<lparr>immuneFromNodePaused := y\<rparr>) = chans d"
  "chans (d\<lparr>isNodePaused := z, immuneFromNodePaused := y\<rparr>) = chans d" "chans (d\<lparr>debuggersMap := u\<rparr>) = chans d"
  "chans (d\<lparr>isDebuggerPresent := z\<rparr>) = chans d" "chans (d\<lparr>breakpoints := a, breakpointsByAttrs := b'\<rparr>) = chans d"
  by (simp_all add: chans_def setBreakpoint_def unsetBreakpoint_def registerDebugger_def pauseNode_def editResponse_def
    tell_debuggers_def informPause_def Let_def)

lemma pause_inv:
  assumes "chan_inv d"
  shows "chan_inv (pause info bk d)" "chan_live d c \<Longrightarrow> chan_live (pause info bk d) c"
proof -
  have "chan_live (pause info bk d) c" if "chan_live d c" for c
    using that by (auto simp: pause_def chan_live_def)
  moreover have "chan_live (pause info bk d) (nchan d)" if "map_of (isActorPaused d) info = None"
    using that by (simp add: pause_def chan_live_def)
  ultimately show "chan_inv (pause info bk d)" "chan_live d c \<Longrightarrow> chan_live (pause info bk d) c"
    using assms by (auto simp: chan_inv_def pause_def less_Suc_eq wf_map_mput split: if_splits)
qed

text \<open>Ending a pause never closes a closed channel, and keeps the invariant.\<close>

lemma open_up_inv:
  assumes "chan_inv d"
  shows "\<exists>d'. open_up c d = Ok d' \<and> chan_inv d' \<and> (\<forall>c'. chan_live d c' \<longrightarrow> chan_live d' c') \<and>
    (chan_live d c \<longrightarrow> c \<in> closed_chans d') \<and> closed_chans d \<subseteq> closed_chans d' \<and> isActorPaused d' = isActorPaused d"
proof (cases "map_of (isChannelOpen d) c = Some True")
  case True
  then have c: "c \<notin> closed_chans d" "c < nchan d"
    using assms by (auto simp: chan_inv_def)
  let ?d = "d\<lparr>closed_chans := insert c (closed_chans d), isChannelOpen := mdel c (isChannelOpen d)\<rparr>"
  have "chan_live d c' \<longrightarrow> chan_live ?d c'" for c'
    by (auto simp: chan_live_def)
  moreover have "chan_inv ?d"
    using assms c calculation by (auto simp: chan_inv_def)
  ultimately show ?thesis
    using True c by (simp add: open_up_def) auto
next
  case False
  then show ?thesis
    using assms by (auto simp: open_up_def chan_live_def)
qed

lemma open_all_inv:
  assumes "chan_inv d" "\<And>a c. (a, c) \<in> set xs \<Longrightarrow> chan_live d c"
  shows "\<exists>d'. open_all xs d = Ok d' \<and> chan_inv d' \<and> (\<forall>c'. chan_live d c' \<longrightarrow> chan_live d' c') \<and>
    (\<forall>(a, c) \<in> set xs. c \<in> closed_chans d') \<and> closed_chans d \<subseteq> closed_chans d'"
  using assms
proof (induction xs arbitrary: d)
  case (Cons p xs)
  obtain a c where p: "p = (a, c)"
    by fastforce
  let ?d = "d\<lparr>immuneFromNodePaused := mput a () (immuneFromNodePaused d)\<rparr>"
  have inv: "chan_inv ?d" and chan_live: "chan_live ?d = chan_live d"
    using Cons.prems(1) chans_eq [of ?d d] by simp_all
  obtain d1 where d1: "open_up c ?d = Ok d1" "chan_inv d1" "\<forall>c'. chan_live d c' \<longrightarrow> chan_live d1 c'" "c \<in> closed_chans d1" "closed_chans d \<subseteq> closed_chans d1"
    using open_up_inv [OF inv, of c] Cons.prems(2) [of a c] p chan_live by auto
  obtain d2 where "open_all xs d1 = Ok d2" "chan_inv d2" "\<forall>c'. chan_live d1 c' \<longrightarrow> chan_live d2 c'" "\<forall>(a, c) \<in> set xs. c \<in> closed_chans d2"
    "closed_chans d1 \<subseteq> closed_chans d2"
    using Cons.IH [OF d1(2)] Cons.prems(2) d1(3) by (metis list.set_intros(2))
  with d1 show ?case
    by (auto simp: p)
qed auto

lemma unpauseNode_inv:
  assumes "chan_inv d" "range_order (rng_paused e)"
  shows "\<exists>d'. unpauseNode e b d = Ok d' \<and> chan_inv d' \<and> (\<forall>c. chan_live d c \<longrightarrow> chan_live d' c) \<and>
    (\<forall>a c. map_of (isActorPaused d) a = Some c \<longrightarrow> c \<in> closed_chans d')"
proof -
  define d1 where "d1 = (if b then d else d\<lparr>isNodePaused := False, immuneFromNodePaused := []\<rparr>)"
  have "chans d1 = chans d"
    by (simp add: d1_def chans_def)
  then have d1: "chan_inv d1" "chan_live d1 = chan_live d" "isActorPaused d1 = isActorPaused d"
    using assms(1) chans_eq [of d1 d] by (simp_all add: chans_def)
  have set: "(a, c) \<in> set (rng_paused e (isActorPaused d1)) \<longleftrightarrow> map_of (isActorPaused d) a = Some c" for a c
    using assms by (simp add: range_order_set d1(3) wf_map_map_of chan_inv_def)
  have alive: "chan_live d1 c" if "(a, c) \<in> set (rng_paused e (isActorPaused d1))" for a c
    using that assms(1) d1(2) by (simp add: set chan_inv_def)
  obtain d' where "open_all (rng_paused e (isActorPaused d1)) d1 = Ok d'" "chan_inv d'" "\<forall>c. chan_live d c \<longrightarrow> chan_live d' c"
    "\<forall>(a, c) \<in> set (rng_paused e (isActorPaused d1)). c \<in> closed_chans d'"
    using open_all_inv [OF d1(1), of "rng_paused e (isActorPaused d1)"] alive unfolding d1(2) by blast
  then show ?thesis
    using set by (auto simp: unpauseNode_def Let_def d1_def [symmetric])
qed

definition good_end :: "debugger \<Rightarrow> ('a \<times> debugger) result \<Rightarrow> bool" where
  "good_end d x \<longleftrightarrow> (\<exists>rep d'. x = Ok (rep, d') \<and> chan_inv d' \<and> (\<forall>c. chan_live d c \<longrightarrow> chan_live d' c))"

lemma good_end_if [simp]: "good_end d (if b then x else y) = (if b then good_end d x else good_end d y)"
  by simp

lemma good_plain: "good_end d (plain_reply x) \<longleftrightarrow> (\<exists>d'. x = Ok d' \<and> chan_inv d' \<and> (\<forall>c. chan_live d c \<longrightarrow> chan_live d' c))"
  by (cases x) (auto simp: good_end_def plain_reply_def)

lemma unregister_good:
  assumes "chan_inv d" "range_order (rng_paused e)"
  shows "good_end d (plain_reply (unregisterDebugger e n d))"
proof -
  define d1 where "d1 = d\<lparr>debuggersMap := mdel n (debuggersMap d)\<rparr>"
  define d2 where "d2 = d1\<lparr>isDebuggerPresent := False\<rparr>"
  have eq: "chans d1 = chans d" "chans d2 = chans d"
    by (simp_all add: d1_def d2_def)
  note inv = eq [THEN chans_eq(1)] eq [THEN chans_eq(2)]
  obtain d3 where d3: "unpauseNode e False d2 = Ok d3" "chan_inv d3" "\<forall>c. chan_live d2 c \<longrightarrow> chan_live d3 c"
    using unpauseNode_inv [of d2 e False] assms inv by auto
  have "chan_inv (d3\<lparr>breakpoints := [], breakpointsByAttrs := []\<rparr>)" "chan_live (d3\<lparr>breakpoints := [], breakpointsByAttrs := []\<rparr>) = chan_live d3"
    using d3(2) chans_eq [of "d3\<lparr>breakpoints := [], breakpointsByAttrs := []\<rparr>" d3] by simp_all
  then show ?thesis
    using d3 inv assms(1) unfolding good_plain unregisterDebugger_def Let_def d1_def [symmetric] d2_def [symmetric] by simp
qed

lemma debug_command_good:
  assumes "chan_inv d" "range_order (rng_paused e)"
  shows "good_end d (debug_command e msg d)"
proof -
  have plain: "good_end d (plain_reply (Ok d'))" if "chans d' = chans d" for d'
    using chans_eq [OF that] assms(1) by (simp add: good_plain)
  have same: "good_end d (Ok (rep, d))" for rep :: "(err + Reply) option"
    using assms(1) by (simp add: good_end_def)
  define reg where "reg = registerDebugger (mget '''' msg ''srcNodeId'') d"
  have reg: "chans reg = chans d" "chan_inv reg" "chan_live reg = chan_live d"
    using chans_eq [of reg d] assms(1) by (simp_all add: reg_def)
  have "good_end d (plain_reply (Ok (pause info bk reg)))" for info bk
    using pause_inv [OF reg(2)] reg(3) by (simp add: good_plain)
  moreover have "good_end d (plain_reply (unpause info reg))" for info
    using open_up_inv [OF reg(2)] reg(2,3) unfolding good_plain unpause_def by (cases "map_of (isActorPaused reg) info") fastforce+
  moreover have "good_end d (plain_reply (unpauseNode e b reg))" for b
    using unpauseNode_inv [OF reg(2) assms(2), of b] reg(3) by (auto simp: good_plain)
  ultimately show ?thesis
    using plain same reg(1) unregister_good [OF assms] by (simp add: debug_command_def Let_def reg_def [symmetric])
qed

lemma wait_at_chan:
  assumes "wait_at e key w d = Some (w', d')"
  shows "chans d' = chans d \<and> map_of (isActorPaused d) key = Some (w_chan w')"
  using assms by (auto simp: wait_at_def Let_def split: option.splits)

lemma wait_node_chan:
  assumes "wait_node e w d = (x, d')"
  shows "chans d' = chans d \<and> (\<forall>w'. x = Waiting w' \<longrightarrow> (\<exists>a. map_of (isActorPaused d) a = Some (w_chan w')))"
  using assms by (auto simp: wait_node_def split: option.splits dest!: wait_at_chan)

lemma wait_begin_chan:
  assumes "wait_begin e w d = (Waiting w', d')"
  shows "chans d' = chans d \<and> (\<exists>a. map_of (isActorPaused d) a = Some (w_chan w'))"
  using assms by (auto simp: wait_begin_def split: option.splits dest!: wait_at_chan wait_node_chan)

lemma wait_clean_inv: "chan_inv d \<Longrightarrow> chan_inv (wait_clean w d)" "chan_live (wait_clean w d) = chan_live d"
  by (auto simp: chan_inv_def wait_clean_def chan_live_def fun_eq_iff wf_map_mdel)

lemma wait_resume_inv:
  assumes "wait_resume e w d = Ok (x, d')" "chan_inv d"
  shows "chan_inv d' \<and> chan_live d' = chan_live d \<and> (\<forall>w'. x = Waiting w' \<longrightarrow> chan_live d (w_chan w'))"
proof -
  obtain new er where "(if w_node w then (Done new er, wait_clean w d)
      else wait_node e (w\<lparr>w_new := new, w_err := er\<rparr>) (wait_clean w d)) = (x, d')"
    using assms(1) by (auto simp: wait_resume_def split: result.splits if_splits)
  then have "chans d' = chans (wait_clean w d)"
    "\<forall>w'. x = Waiting w' \<longrightarrow> (\<exists>a. map_of (isActorPaused (wait_clean w d)) a = Some (w_chan w'))"
    using wait_node_chan [of e "w\<lparr>w_new := new, w_err := er\<rparr>" "wait_clean w d" x d'] by (auto split: if_splits)
  then show ?thesis
    using chans_eq [of d' "wait_clean w d"] wait_clean_inv(1) [OF assms(2), of w] wait_clean_inv(2) [of w d] unfolding chan_inv_def by auto
qed

lemma dstep_inv:
  assumes "dstep e x y" "dbg_inv x" "range_order (rng_paused e)"
  shows "dbg_inv y"
  using assms(1)
proof cases
  case (d_command msg d rep d' ws)
  then show ?thesis
    using debug_command_good [of d e msg] assms(2,3) by (auto simp: dbg_inv_def good_end_def)
next
  case (d_pause d ws info bk)
  then show ?thesis
    using pause_inv [of d] assms(2) by (auto simp: dbg_inv_def)
next
  case (d_pauseNode d ws bk)
  then show ?thesis
    using chans_eq [of "pauseNode bk d" d] assms(2) by (auto simp: dbg_inv_def)
next
  case (d_wait w d w' d' ws)
  then show ?thesis
    using wait_begin_chan [OF d_wait(3)] chans_eq [of d' d] assms(2) by (auto simp: dbg_inv_def chan_inv_def)
next
  case (d_resume w ws d w' d')
  then show ?thesis
    using wait_resume_inv [OF d_resume(5)] assms(2) by (auto simp: dbg_inv_def dest: notin_set_remove1)
next
  case (d_done w ws d new er d')
  then show ?thesis
    using wait_resume_inv [OF d_done(5)] assms(2) by (auto simp: dbg_inv_def dest: notin_set_remove1)
qed

lemma dreach_inv: "dreach e x \<Longrightarrow> range_order (rng_paused e) \<Longrightarrow> dbg_inv x"
proof (induction rule: dreach.induct)
  case (d_init d)
  then show ?case
    by (simp add: dbg_inv_def chan_inv_def no_pauses_def)
next
  case (d_step x y)
  then show ?case
    using dstep_inv by blast
qed

section \<open>Properties\<close>

text \<open>C29 No interleaving of debugger requests, breakpoints and waiting actors closes a channel twice: in every reachable
  state the end of a pause, of an actor or of the node, does not panic, and every goroutine that waits on a channel of
  the paused actor, or of any actor in the case of the node, can go on afterwards.\<close>

theorem unpause_safe:
  assumes "range_order (rng_paused e)" "dreach e (d, ws)"
  shows "(\<exists>d'. unpause info d = Ok d' \<and>
      (\<forall>w \<in> set ws. map_of (isActorPaused d) info = Some (w_chan w) \<longrightarrow> w_chan w \<in> closed_chans d')) \<and>
    (\<exists>d'. unpauseNode e b d = Ok d' \<and>
      (\<forall>w \<in> set ws. (\<exists>a. map_of (isActorPaused d) a = Some (w_chan w)) \<longrightarrow> w_chan w \<in> closed_chans d'))"
proof
  have inv: "chan_inv d" "\<And>w. w \<in> set ws \<Longrightarrow> chan_live d (w_chan w)"
    using dreach_inv [OF assms(2,1)] by (auto simp: dbg_inv_def)
  show "\<exists>d'. unpause info d = Ok d' \<and> (\<forall>w \<in> set ws. map_of (isActorPaused d) info = Some (w_chan w) \<longrightarrow> w_chan w \<in> closed_chans d')"
    using open_up_inv [OF inv(1)] inv(2) unfolding unpause_def by (cases "map_of (isActorPaused d) info") fastforce+
  show "\<exists>d'. unpauseNode e b d = Ok d' \<and>
      (\<forall>w \<in> set ws. (\<exists>a. map_of (isActorPaused d) a = Some (w_chan w)) \<longrightarrow> w_chan w \<in> closed_chans d')"
    using unpauseNode_inv [OF inv(1) assms(1), of b] by blast
qed

section \<open>Samples\<close>

definition sample_debug :: debug_env where
  "sample_debug = \<lparr>dj_map = (\<lambda>s. ([], None)), dj_list = (\<lambda>s. ([], None)), dj_val = (\<lambda>s. (JStr s, None)), dj_marshal = (\<lambda>v. Inr ''''),
     dj_conds = (\<lambda>s. Inl (ErrMsg s)), dj_edits = (\<lambda>s. Inl (ErrMsg s)), dj_re = (\<lambda>_ _. False), rng_debuggers = (\<lambda>m. m),
     rng_paused = (\<lambda>m. m), rng_waiting = (\<lambda>m. m), dj_node = ''n1'', dj_nodes = [''n1'', ''n2'']\<rparr>"

definition idle_debugger :: debugger where
  "idle_debugger = \<lparr>rt_requests = [], ActorSent = [], isDebuggerPresent = True, IsDebugMode = False, MissingComponentTimeout = 0,
     breakpoints = [], breakpointsByAttrs = [], isActorPaused = [], pausedBreaks = [], isNodePaused = False, nodePausedBk = no_break,
     immuneFromNodePaused = [], isChannelOpen = [], closed_chans = {}, nchan = 0, debuggersMap = [], waitingActors = [],
     ActorHandling = [], editResponsesMap = [], tells = [], unsets = []\<rparr>"

definition fork7 :: actorTuple_t where
  "fork7 = \<lparr>at_id = ''7'', at_type = ''Fork''\<rparr>"

definition sample_waiter :: "string \<Rightarrow> waiter" where
  "sample_waiter r = \<lparr>w_info = fork7, w_reqId = r, w_flowId = '''', w_reqVal = '''', w_respVal = '''', w_isResponse = False,
     w_key = fork7, w_chan = 0, w_node = False, w_new = None, w_err = None\<rparr>"

text \<open>The state and the goroutine after \<^const>\<open>wait_begin\<close> at a pause.\<close>

definition begin_wait :: "string \<Rightarrow> debugger \<Rightarrow> waiter \<times> debugger" where
  "begin_wait r d = the (wait_at sample_debug fork7 (sample_waiter r) d)"

lemma wait_begin_eq:
  assumes "map_of (isActorPaused d) fork7 \<noteq> None"
  shows "wait_begin sample_debug (sample_waiter r) d = (Waiting (fst (begin_wait r d)), snd (begin_wait r d))"
  using assms by (auto simp: wait_begin_def begin_wait_def sample_waiter_def wait_at_def Let_def)

theorem unpause_safe_witness:
  "\<exists>ws d'. dreach sample_debug (snd (begin_wait ''r'' (pause fork7 no_break idle_debugger)), ws) \<and>
     unpause fork7 (snd (begin_wait ''r'' (pause fork7 no_break idle_debugger))) = Ok d' \<and> ws = [fst (begin_wait ''r'' (pause fork7 no_break idle_debugger))] \<and>
     w_chan (hd ws) \<in> closed_chans d'"
proof -
  let ?p = "pause fork7 no_break idle_debugger"
  let ?x = "begin_wait ''r'' ?p"
  have "dreach sample_debug (idle_debugger, [])"
    by (rule d_init) (simp add: no_pauses_def idle_debugger_def)
  then have "dreach sample_debug (?p, [])"
    by (rule d_step) (rule d_pause)
  moreover have "map_of (isActorPaused ?p) fork7 \<noteq> None"
    by code_simp
  ultimately have r: "dreach sample_debug (snd ?x, [fst ?x])"
    using d_step d_wait wait_begin_eq by blast
  have o: "range_order (rng_paused sample_debug)"
    by (simp add: sample_debug_def)
  have "map_of (isActorPaused (snd ?x)) fork7 = Some (w_chan (fst ?x))"
    by code_simp
  with unpause_safe [OF o r, of fork7 False] r show ?thesis
    by auto
qed

section \<open>Two defects\<close>

text \<open>
  Two goroutines wait for the same actor.  The first to go on ends the pause; if the actor pauses again before the second
  goes on, the second takes the new pause away: whoever waits for it waits on a channel that no end of a pause reaches.
\<close>

definition unpause_fork7 :: "(string, string) gomap" where
  "unpause_fork7 = [(''command'', ''unpause''), (''actorType'', ''Fork''), (''actorId'', ''7''), (''srcNodeId'', ''n2'')]"

definition after_command :: "(string, string) gomap \<Rightarrow> debugger \<Rightarrow> debugger" where
  "after_command msg d = (case debug_command sample_debug msg d of Ok (_, d') \<Rightarrow> d' | _ \<Rightarrow> d)"

definition lost_1 :: debugger where
  "lost_1 = pause fork7 no_break idle_debugger"

definition lost_2 :: debugger where
  "lost_2 = snd (begin_wait ''r2'' (snd (begin_wait ''r1'' lost_1)))"

definition lost_waiters :: "waiter list" where
  "lost_waiters = [fst (begin_wait ''r2'' (snd (begin_wait ''r1'' lost_1))), fst (begin_wait ''r1'' lost_1)]"

definition lost_3 :: debugger where
  "lost_3 = wait_clean (lost_waiters ! 1) (after_command unpause_fork7 lost_2)"

definition lost_4 :: debugger where
  "lost_4 = snd (begin_wait ''r3'' (pause fork7 no_break lost_3))"

definition lost_5 :: debugger where
  "lost_5 = wait_clean (lost_waiters ! 0) lost_4"

lemma resume_done:
  assumes "\<not> w_node w" "\<not> w_isResponse w" "map_of (isActorPaused d) nodeActor = None"
  shows "wait_resume e w d = Ok (Done (w_new w) (w_err w), wait_clean w d)"
  using assms by (simp add: wait_resume_def wait_over_def wait_node_def wait_at_def wait_clean_def)

lemma lost_pause:
  "dreach sample_debug (lost_5, [fst (begin_wait ''r3'' (pause fork7 no_break lost_3))])"
  "w_chan (fst (begin_wait ''r3'' (pause fork7 no_break lost_3))) \<notin> closed_chans lost_5" "isActorPaused lost_5 = []"
proof -
  let ?w3 = "fst (begin_wait ''r3'' (pause fork7 no_break lost_3))"
  have paused: "map_of (isActorPaused lost_1) fork7 \<noteq> None" "map_of (isActorPaused (snd (begin_wait ''r1'' lost_1))) fork7 \<noteq> None"
    "map_of (isActorPaused (pause fork7 no_break lost_3)) fork7 \<noteq> None"
    by code_simp+
  have "dreach sample_debug (idle_debugger, [])"
    by (rule d_init) (simp add: no_pauses_def idle_debugger_def)
  then have "dreach sample_debug (lost_1, [])"
    unfolding lost_1_def by (rule d_step) (rule d_pause)
  then have "dreach sample_debug (snd (begin_wait ''r1'' lost_1), [fst (begin_wait ''r1'' lost_1)])"
    using d_step d_wait wait_begin_eq [OF paused(1)] by blast
  then have r2: "dreach sample_debug (lost_2, lost_waiters)"
    unfolding lost_2_def lost_waiters_def using d_step d_wait wait_begin_eq [OF paused(2)] by blast
  have "(case debug_command sample_debug unpause_fork7 lost_2 of Ok _ \<Rightarrow> True | _ \<Rightarrow> False)"
    by code_simp
  then have "\<exists>rep. debug_command sample_debug unpause_fork7 lost_2 = Ok (rep, after_command unpause_fork7 lost_2)"
    by (auto simp: after_command_def split: result.splits)
  then have r3: "dreach sample_debug (after_command unpause_fork7 lost_2, lost_waiters)"
    using d_step [OF r2] d_command by blast
  have e1: "wait_resume sample_debug (lost_waiters ! 1) (after_command unpause_fork7 lost_2) =
      Ok (Done (w_new (lost_waiters ! 1)) (w_err (lost_waiters ! 1)), lost_3)"
    unfolding lost_3_def by (rule resume_done) code_simp+
  have "lost_waiters ! 1 \<in> set lost_waiters" "w_chan (lost_waiters ! 1) \<in> closed_chans (after_command unpause_fork7 lost_2)"
    "remove1 (lost_waiters ! 1) lost_waiters = [lost_waiters ! 0]"
    by code_simp+
  then have "dreach sample_debug (lost_3, [lost_waiters ! 0])"
    using d_step [OF r3] d_done [OF _ _ e1] by metis
  then have "dreach sample_debug (pause fork7 no_break lost_3, [lost_waiters ! 0])"
    by (rule d_step) (rule d_pause)
  then have r4: "dreach sample_debug (lost_4, [?w3, lost_waiters ! 0])"
    unfolding lost_4_def using d_step d_wait wait_begin_eq [OF paused(3)] by blast
  have e2: "wait_resume sample_debug (lost_waiters ! 0) lost_4 = Ok (Done (w_new (lost_waiters ! 0)) (w_err (lost_waiters ! 0)), lost_5)"
    unfolding lost_5_def by (rule resume_done) code_simp+
  have "lost_waiters ! 0 \<in> set [?w3, lost_waiters ! 0]" "w_chan (lost_waiters ! 0) \<in> closed_chans lost_4"
    "remove1 (lost_waiters ! 0) [?w3, lost_waiters ! 0] = [?w3]"
    by code_simp+
  then show "dreach sample_debug (lost_5, [?w3])"
    using d_step [OF r4] d_done [OF _ _ e2] by metis
  show "w_chan ?w3 \<notin> closed_chans lost_5" "isActorPaused lost_5 = []"
    by code_simp+
qed

text \<open>
  The message that pauses the other nodes on a global breakpoint does not say who sends it, so that its receiver registers
  a debugger with an empty name, which no unregistration of a node removes.
\<close>

lemma global_pause_registers_nobody:
  "\<exists>d'. debug_command e (pause_msg bk) d = Ok (Some (Inr ok_reply), d') \<and> isDebuggerPresent d' \<and>
     map_of (debuggersMap d') '''' = Some True \<and>
     (\<forall>n. n \<noteq> '''' \<longrightarrow> (\<exists>d''. unregisterDebugger e n d' = Ok d'' \<and> isDebuggerPresent d''))"
proof -
  let ?d = "pauseNode (msg_break (pause_msg bk)) (registerDebugger '''' d)"
  have "debug_command e (pause_msg bk) d = Ok (Some (Inr ok_reply), ?d)"
    by (simp add: debug_command_def pause_msg_def plain_reply_def mget_def)
  moreover have "map_of (debuggersMap ?d) '''' = Some True" "isDebuggerPresent ?d"
    by (simp_all add: pauseNode_def registerDebugger_def)
  moreover have "\<exists>d''. unregisterDebugger e n ?d = Ok d'' \<and> isDebuggerPresent d''" if "n \<noteq> ''''" for n
  proof -
    have "map_of (mdel n (debuggersMap ?d)) '''' = Some True"
      using that calculation(2) by simp
    then have "mdel n (debuggersMap ?d) \<noteq> []"
      by (metis map_of.simps(1) option.distinct(1))
    then show ?thesis
      using calculation(3) by (simp add: unregisterDebugger_def Let_def)
  qed
  ultimately show ?thesis
    by blast
qed

text \<open>A breakpoint with conditions on both the request and the response is hit whenever the one on the response holds.\<close>

lemma response_condition_wins:
  assumes "bk_conds bk \<noteq> ''''" "bk_respConds bk \<noteq> ''''"
    and "runConds (dj_re e) (dj_conds e) (JObj req) (bk_conds bk) = Ok False"
    and "runConds (dj_re e) (dj_conds e) (JObj resp) (bk_respConds bk) = Ok True"
  shows "bk_hit e (req, None) (resp, None) bk = Ok (Some True)"
  using assms by (simp add: bk_hit_def)

end
