(* ===== verification/Debug_Routes.thy ===== *)
theory Debug_Routes
  imports Debugger
begin

text \<open>
  The node a debugger is connected to, \<^verbatim>\<open>src/core/internal/runtime/routes-debug.go\<close>: the commands of debuggers are turned
  into requests for \<^const>\<open>handlerDebugger\<close> of one node or of all nodes, the answers go to every connected debugger.  The
  rpc layer and the web socket library are parameters; the commands that stand for those of the command line
  (\<^verbatim>\<open>kar invoke\<close>, \<^verbatim>\<open>kar rest\<close>, \<^verbatim>\<open>kar get\<close>, \<^verbatim>\<open>kar purge\<close>, \<^verbatim>\<open>kar drain\<close>) are in \<^verbatim>\<open>Debug_Kar\<close>.
\<close>

section \<open>Parameters\<close>

text \<open>\<open>nt_call\<close> is \<^verbatim>\<open>rpc.Call\<close> of the debugger endpoint of a node and \<open>nt_tell\<close> the corresponding \<^verbatim>\<open>rpc.Tell\<close>, \<open>nt_write\<close> is
  \<^verbatim>\<open>WriteMessage\<close> on a connection.\<close>

record listBreakpointInfo_t =
  lb_BreakpointId :: string
  lb_BreakpointType :: string
  lb_ActorType :: string
  lb_ActorId :: string
  lb_Path :: string
  lb_IsRequest :: string
  lb_Nodes :: "string list"

record listPauseInfo_t = waitInfo_t +
  lp_NodeId :: string

record listBusyInfo_t =
  lu_ActorHandling :: "(string, actorSentInfo_t) gomap"
  lu_ActorSent :: "(string, actorSentInfo_t) gomap"

record 'w debug_net =
  nt_json :: json
  nt_marshal :: "jval \<Rightarrow> err + string"
  nt_unbreaks :: "string \<Rightarrow> err + (string, listBreakpointInfo_t) gomap"
  nt_unpaused :: "string \<Rightarrow> err + listPauseInfo_t list"
  nt_unbusy :: "string \<Rightarrow> err + listBusyInfo_t"
  nt_rng_breaks :: "(string, listBreakpointInfo_t) gomap \<Rightarrow> (string, listBreakpointInfo_t) gomap"
  nt_rng_busy :: "(string, actorSentInfo_t) gomap \<Rightarrow> (string, actorSentInfo_t) gomap"
  nt_rng_conns :: "(string, nat) gomap \<Rightarrow> (string, nat) gomap"
  nt_call :: "string \<Rightarrow> string \<Rightarrow> 'w \<Rightarrow> (bytes \<times> err option) \<times> 'w"
  nt_tell :: "string \<Rightarrow> string \<Rightarrow> 'w \<Rightarrow> 'w"
  nt_write :: "nat \<Rightarrow> string \<Rightarrow> 'w \<Rightarrow> err option \<times> 'w"
  nt_close :: "nat \<Rightarrow> 'w \<Rightarrow> 'w"
  nt_decode :: "string \<Rightarrow> (string, string) gomap"      \<comment> \<open>what the decoder puts into the map, also when it fails\<close>
  nt_app :: string                                   \<comment> \<open>\<^verbatim>\<open>config.AppName\<close>\<close>
  nt_ids :: "string list"                            \<comment> \<open>\<^verbatim>\<open>rpc.GetNodeIDs()\<close>\<close>
  nt_me :: string                                    \<comment> \<open>\<^verbatim>\<open>rpc.GetNodeID()\<close>\<close>
  nt_uuid :: string
  nt_text :: "err option \<Rightarrow> string"                  \<comment> \<open>the verb \<^verbatim>\<open>%v\<close>\<close>

abbreviation text_of :: "bytes \<Rightarrow> string" where
  "text_of b \<equiv> case b of None \<Rightarrow> '''' | Some s \<Rightarrow> s"

section \<open>Requests to the other nodes\<close>

definition mapget :: "(string, string) gomap \<Rightarrow> string \<Rightarrow> string \<Rightarrow> string" where
  "mapget m key def = (case map_of m key of None \<Rightarrow> def | Some val \<Rightarrow> val)"

text \<open>One call: the payload of the reply, or the error.\<close>

definition ask :: "'w debug_net \<Rightarrow> string \<Rightarrow> string \<Rightarrow> 'w \<Rightarrow> (err + string) \<times> 'w" where
  "ask net msgBytes sidecar w =
     (case nt_call net sidecar msgBytes w of
        ((_, Some e), w') \<Rightarrow> (Inl e, w')
      | ((b, None), w') \<Rightarrow>
          (case js_unreply (nt_json net) (text_of b) of
             (_, Some e) \<Rightarrow> (Inl e, w')
           | (reply, None) \<Rightarrow>
               if StatusCode reply \<noteq> 200
               then (Inl (ErrMsg (''Status code of reply not OK: '' @ itoa (StatusCode reply))), w')
               else (Inr (Payload reply), w')))"

definition doCall :: "'w debug_net \<Rightarrow> string \<Rightarrow> string \<Rightarrow> 'w \<Rightarrow> err option \<times> 'w" where
  "doCall net msgBytes sidecar w = (case ask net msgBytes sidecar w of (Inl e, w') \<Rightarrow> (Some e, w') | (Inr _, w') \<Rightarrow> (None, w'))"

text \<open>The loop that goes on after an error: the nodes that answered, and the error of the last node.\<close>

fun call_each :: "'w debug_net \<Rightarrow> string \<Rightarrow> string list \<Rightarrow> string list \<Rightarrow> err option \<Rightarrow> 'w \<Rightarrow> (string list \<times> err option) \<times> 'w" where
  "call_each net b [] nodes err w = ((nodes, err), w)"
| "call_each net b (sidecar # rest) nodes err w =
     (case doCall net b sidecar w of
        (None, w') \<Rightarrow> call_each net b rest (nodes @ [sidecar]) None w'
      | (Some e, w') \<Rightarrow> call_each net b rest nodes (Some e) w')"

text \<open>The loop that ends at the first error.\<close>

fun call_until :: "'w debug_net \<Rightarrow> string \<Rightarrow> string list \<Rightarrow> 'w \<Rightarrow> err option \<times> 'w" where
  "call_until net b [] w = (None, w)"
| "call_until net b (sidecar # rest) w =
     (case doCall net b sidecar w of
        (None, w') \<Rightarrow> call_until net b rest w'
      | (Some e, w') \<Rightarrow> (Some e, w'))"

definition with_node :: "(string, string) gomap \<Rightarrow> (string, string) gomap \<Rightarrow> (string, string) gomap" where
  "with_node bodyJson msg = (case map_of bodyJson ''node'' of None \<Rightarrow> msg | Some node \<Rightarrow> msg @ [(''node'', node)])"

text \<open>No node in the command, or an empty one, stands for all nodes.\<close>

definition all_nodes :: "(string, string) gomap \<Rightarrow> bool" where
  "all_nodes bodyJson \<longleftrightarrow> mget '''' bodyJson ''node'' = ''''"

section \<open>Breakpoints\<close>

definition set_msg :: "'w debug_net \<Rightarrow> (string, string) gomap \<Rightarrow> (string, string) gomap" where
  "set_msg net body =
     (let breakpointId = mget '''' body ''breakpointId''
      in with_node body
           [(''command'', ''setBreakpoint''), (''breakpointId'', if breakpointId = '''' then ''bk-'' @ nt_uuid net else breakpointId),
            (''breakpointType'', mapget body ''breakpointType'' ''global''), (''actorId'', mapget body ''actorId'' ''''),
            (''actorType'', mapget body ''actorType'' ''''), (''path'', mapget body ''path'' ''''), (''flowId'', mapget body ''flowId'' ''''),
            (''isCaller'', mapget body ''isCaller'' ''caller''), (''isRequest'', mapget body ''isRequest'' ''request''),
            (''srcNodeId'', nt_me net), (''conds'', mapget body ''conds'' ''''), (''respConds'', mapget body ''respConds'' ''''),
            (''deleteOnHit'', mget '''' body ''deleteOnHit'')])"

definition str_fields :: "(string, string) gomap \<Rightarrow> (string, jval) gomap" where
  "str_fields m = map (\<lambda>(k, v). (k, JStr v)) m"

text \<open>The calls of a breakpoint command: the nodes that took it, or the error.\<close>

definition spread :: "'w debug_net \<Rightarrow> (string, string) gomap \<Rightarrow> string \<Rightarrow> 'w \<Rightarrow> (string list \<times> err option) \<times> 'w" where
  "spread net body b w =
     (if all_nodes body then call_each net b (nt_ids net) [] None w
      else case doCall net b (mget '''' body ''node'') w of
             (None, w') \<Rightarrow> (([mget '''' body ''node''], None), w')
           | (Some e, w') \<Rightarrow> (([], Some e), w'))"

definition implSetBreakpoint :: "'w debug_net \<Rightarrow> (string, string) gomap \<Rightarrow> 'w \<Rightarrow> (err + string) \<times> 'w" where
  "implSetBreakpoint net body w =
     (let failed = (\<lambda>e. Inl (ErrMsg (''failed to set breakpoint: '' @ nt_text net e)))
      in if map_of body ''flowId'' = None \<and> map_of body ''path'' = None
         then (failed (Some (ErrMsg ''Path is not an optional argument'')), w)
         else if map_of body ''flowId'' = None \<and> map_of body ''actorType'' = None
         then (failed (Some (ErrMsg ''Actor type is not an optional argument'')), w)
         else case js_marshal (nt_json net) (set_msg net body) of
                Inl e \<Rightarrow> (failed (Some e), w)
              | Inr b \<Rightarrow>
                  (case spread net body b w of
                     ((nodes, e), w') \<Rightarrow>
                       if nodes = [] then (failed e, w')
                       else (nt_marshal net (JObj (str_fields (set_msg net body) @
                         [(''nodes'', JArr (map JStr nodes)), (''commandId'', JStr (mget '''' body ''commandId''))])), w')))"

text \<open>With no node at all, \<^verbatim>\<open>implUnsetBreakpoint\<close> returns neither a message nor an error.\<close>

definition unset_msg :: "'w debug_net \<Rightarrow> (string, string) gomap \<Rightarrow> (string, string) gomap" where
  "unset_msg net body =
     with_node body [(''command'', ''unsetBreakpoint''), (''breakpointId'', mget '''' body ''breakpointId''), (''srcNodeId'', nt_me net)]"

definition implUnsetBreakpoint :: "'w debug_net \<Rightarrow> (string, string) gomap \<Rightarrow> 'w \<Rightarrow> (err + bytes) \<times> 'w" where
  "implUnsetBreakpoint net body w =
     (if map_of body ''breakpointId'' = None then (Inl (ErrMsg ''argument breakpointId not given''), w)
      else case js_marshal (nt_json net) (unset_msg net body) of
             Inl e \<Rightarrow> (Inl e, w)
           | Inr b \<Rightarrow>
               (case spread net body b w of
                  (([], None), w') \<Rightarrow> (Inr None, w')
                | (([], Some e), w') \<Rightarrow> (Inl e, w')
                | ((nodes, _), w') \<Rightarrow>
                    (case nt_marshal net (JObj (str_fields (unset_msg net body) @ [(''nodes'', JArr (map JStr nodes))])) of
                       Inl e \<Rightarrow> (Inl e, w')
                     | Inr s \<Rightarrow> (Inr (Some s), w'))))"

section \<open>Pauses\<close>

definition pause_request :: "'w debug_net \<Rightarrow> string \<Rightarrow> (string, string) gomap \<Rightarrow> (string, string) gomap" where
  "pause_request net command body =
     with_node body [(''command'', command), (''actorType'', mapget body ''actorType'' ''''), (''actorId'', mapget body ''actorId'' ''''),
       (''srcNodeId'', nt_me net)]"

text \<open>\<^verbatim>\<open>implPause\<close> and \<^verbatim>\<open>implUnpause\<close> differ in the command only.\<close>

definition pause_command :: "string \<Rightarrow> 'w debug_net \<Rightarrow> (string, string) gomap \<Rightarrow> 'w \<Rightarrow> (err + string) \<times> 'w" where
  "pause_command command net body w =
     (if map_of body ''actorType'' = None \<and> map_of body ''actorId'' \<noteq> None
      then (Inl (ErrMsg ''if actorId is set, then actorType must be set''), w)
      else case js_marshal (nt_json net) (pause_request net command body) of
             Inl e \<Rightarrow> (Inl e, w)
           | Inr b \<Rightarrow>
               (case (if all_nodes body then call_until net b (nt_ids net) w else doCall net b (mget '''' body ''node'') w) of
                  (Some e, w') \<Rightarrow> (Inl e, w')
                | (None, w') \<Rightarrow> (Inr b, w')))"

definition implPause :: "'w debug_net \<Rightarrow> (string, string) gomap \<Rightarrow> 'w \<Rightarrow> (err + string) \<times> 'w" where
  "implPause = pause_command ''pause''"

definition implUnpause :: "'w debug_net \<Rightarrow> (string, string) gomap \<Rightarrow> 'w \<Rightarrow> (err + string) \<times> 'w" where
  "implUnpause = pause_command ''unpause''"

section \<open>Listings\<close>

text \<open>All nodes are asked, and what they answer is merged; the listing fails if no node answers.\<close>

fun ask_all ::
  "'w debug_net \<Rightarrow> string \<Rightarrow> (string \<Rightarrow> string \<Rightarrow> 'a \<Rightarrow> err + 'a) \<Rightarrow> string list \<Rightarrow> 'a \<Rightarrow> bool \<Rightarrow> err option \<Rightarrow> 'w \<Rightarrow>
    ('a \<times> bool \<times> err option) \<times> 'w" where
  "ask_all net b merge [] acc successful err w = ((acc, successful, err), w)"
| "ask_all net b merge (sidecar # rest) acc successful err w =
     (case ask net b sidecar w of
        (Inl e, w') \<Rightarrow> ask_all net b merge rest acc successful (Some e) w'
      | (Inr payload, w') \<Rightarrow>
          (case merge sidecar payload acc of
             Inl e \<Rightarrow> ask_all net b merge rest acc successful (Some e) w'
           | Inr acc' \<Rightarrow> ask_all net b merge rest acc' True None w'))"

text \<open>What a command of a debugger leads to: a message for every debugger, an error for the one that sent the command, nothing, or
  the end of the connection.\<close>

datatype serve = ToAll bytes | ToOne "err option" | Quiet | Closing

definition list_command ::
  "'w debug_net \<Rightarrow> string \<Rightarrow> (string \<Rightarrow> string \<Rightarrow> 'a \<Rightarrow> err + 'a) \<Rightarrow> 'a \<Rightarrow> ('a \<Rightarrow> jval) \<Rightarrow> 'w \<Rightarrow> serve \<times> 'w" where
  "list_command net command merge none render w =
     (let b = (case js_marshal (nt_json net) [(''command'', command)] of Inl _ \<Rightarrow> '''' | Inr b \<Rightarrow> b)
      in case ask_all net b merge (nt_ids net) none False None w of
           ((acc, successful, e), w') \<Rightarrow>
             if \<not> successful then (ToOne e, w')
             else (case nt_marshal net (render acc) of
                     Inl e \<Rightarrow> (ToOne (Some e), w')
                   | Inr s \<Rightarrow> (ToAll (Some s), w')))"

definition add_break :: "string \<Rightarrow> string \<times> listBreakpointInfo_t \<Rightarrow> (string, listBreakpointInfo_t) gomap \<Rightarrow> (string, listBreakpointInfo_t) gomap" where
  "add_break sidecar = (\<lambda>(i, bk) m.
     case map_of m i of
       None \<Rightarrow> mput i (bk\<lparr>lb_BreakpointId := i, lb_Nodes := [sidecar]\<rparr>) m
     | Some newBk \<Rightarrow> mput i (newBk\<lparr>lb_Nodes := lb_Nodes newBk @ [sidecar]\<rparr>) m)"

definition merge_breaks ::
  "'w debug_net \<Rightarrow> string \<Rightarrow> string \<Rightarrow> (string, listBreakpointInfo_t) gomap \<Rightarrow> err + (string, listBreakpointInfo_t) gomap" where
  "merge_breaks net sidecar payload m =
     (case nt_unbreaks net payload of Inl e \<Rightarrow> Inl e | Inr new \<Rightarrow> Inr (fold (add_break sidecar) (nt_rng_breaks net new) m))"

definition merge_paused :: "'w debug_net \<Rightarrow> string \<Rightarrow> string \<Rightarrow> listPauseInfo_t list \<Rightarrow> err + listPauseInfo_t list" where
  "merge_paused net sidecar payload acc =
     (case nt_unpaused net payload of Inl e \<Rightarrow> Inl e | Inr new \<Rightarrow> Inr (acc @ map (\<lambda>x. x\<lparr>lp_NodeId := sidecar\<rparr>) new))"

definition merge_busy :: "'w debug_net \<Rightarrow> string \<Rightarrow> string \<Rightarrow> listBusyInfo_t \<Rightarrow> err + listBusyInfo_t" where
  "merge_busy net sidecar payload acc =
     (let put_all = fold (\<lambda>(k, v). mput k v)
      in case nt_unbusy net payload of
           Inl e \<Rightarrow> Inl e
         | Inr new \<Rightarrow> Inr \<lparr>lu_ActorHandling = put_all (nt_rng_busy net (lu_ActorHandling new)) (lu_ActorHandling acc),
                          lu_ActorSent = put_all (nt_rng_busy net (lu_ActorSent new)) (lu_ActorSent acc)\<rparr>)"

definition break_json :: "listBreakpointInfo_t \<Rightarrow> jval" where
  "break_json bk = JObj [(''breakpointId'', JStr (lb_BreakpointId bk)), (''breakpointType'', JStr (lb_BreakpointType bk)),
     (''actorType'', JStr (lb_ActorType bk)), (''actorId'', JStr (lb_ActorId bk)), (''path'', JStr (lb_Path bk)),
     (''isRequest'', JStr (lb_IsRequest bk)), (''nodes'', JArr (map JStr (lb_Nodes bk)))]"

definition paused_json :: "listPauseInfo_t \<Rightarrow> jval" where
  "paused_json x = JObj [(''actorType'', JStr (wi_ActorType x)), (''actorId'', JStr (wi_ActorId x)), (''requestId'', JStr (wi_RequestId x)),
     (''requestValue'', JStr (wi_RequestValue x)), (''responseValue'', JStr (wi_ResponseValue x)), (''flowId'', JStr (wi_FlowId x)),
     (''isResponse'', JStr (wi_IsResponse x)), (''breakpointId'', JStr (wi_BreakpointId x)), (''nodeId'', JStr (lp_NodeId x))]"

definition busy_json :: "listBusyInfo_t \<Rightarrow> jval" where
  "busy_json x = JObj [(''actorHandling'', JObj (map (\<lambda>(k, a). (k, sent_fields a)) (lu_ActorHandling x))),
     (''actorSent'', JObj (map (\<lambda>(k, a). (k, sent_fields a)) (lu_ActorSent x)))]"

section \<open>Commands\<close>

definition or_error :: "(err + bytes) \<times> 'w \<Rightarrow> serve \<times> 'w" where
  "or_error x = (case x of (Inl e, w) \<Rightarrow> (ToOne (Some e), w) | (Inr b, w) \<Rightarrow> (ToAll b, w))"

definition edit_msg :: "(string, string) gomap \<Rightarrow> (string, string) gomap" where
  "edit_msg msg = [(''command'', ''editResponse''), (''requestId'', mget '''' msg ''requestId''), (''edit'', mget '''' msg ''edit'')]"

text \<open>The errors of the calls of \<^verbatim>\<open>editResponse\<close> are printed only.  \<^const>\<open>None\<close> is the result for the commands
  that run an operation of the command line, which need more of the sidecar than the connections; they are in \<^verbatim>\<open>Debug_Kar\<close>.\<close>

definition serve_command :: "'w debug_net \<Rightarrow> (string, string) gomap \<Rightarrow> 'w \<Rightarrow> (serve \<times> 'w) option" where
  "serve_command net msg w =
     (let cmd = mget '''' msg ''command'';
          some = (\<lambda>(x, w'). (map_sum id Some x, w'))
      in if cmd = ''setBreakpoint'' then Some (or_error (some (implSetBreakpoint net msg w)))
         else if cmd = ''unsetBreakpoint'' then Some (or_error (implUnsetBreakpoint net msg w))
         else if cmd = ''unregister'' then Some (Closing, w)
         else if cmd = ''pause'' then Some (or_error (some (implPause net msg w)))
         else if cmd = ''unpause'' then Some (or_error (some (implUnpause net msg w)))
         else if cmd = ''listBreakpoints'' then
           Some (list_command net cmd (merge_breaks net) []
             (\<lambda>m. JObj [(''breakpoints'', JObj (map (\<lambda>(k, bk). (k, break_json bk)) m)), (''command'', JStr cmd)]) w)
         else if cmd = ''listPausedActors'' then
           Some (list_command net cmd (merge_paused net) []
             (\<lambda>xs. JObj [(''actorsList'', JArr (map paused_json xs)), (''command'', JStr cmd)]) w)
         else if cmd = ''listBusyActors'' then
           Some (list_command net cmd (merge_busy net) \<lparr>lu_ActorHandling = [], lu_ActorSent = []\<rparr>
             (\<lambda>x. JObj [(''busyInfo'', busy_json x), (''command'', JStr cmd), (''commandId'', JStr (mget '''' msg ''commandId''))]) w)
         else if cmd = ''editResponse'' then
           Some (Quiet, snd (call_each net (case js_marshal (nt_json net) (edit_msg msg) of Inl _ \<Rightarrow> '''' | Inr b \<Rightarrow> b) (nt_ids net) [] None w))
         else if cmd \<in> {''kar purge'', ''kar drain'', ''kar invoke'', ''kar rest'', ''kar get''} then None
         else Some (Quiet, w))"

section \<open>Connections\<close>

type_synonym 'w conns = "(string, nat) gomap \<times> 'w"

text \<open>The request that all nodes forget this one, or know it, as the node of a debugger.\<close>

definition tell_all :: "'w debug_net \<Rightarrow> string \<Rightarrow> 'w \<Rightarrow> 'w" where
  "tell_all net command w =
     (case js_marshal (nt_json net) [(''command'', command), (''nodeId'', nt_me net)] of
        Inl _ \<Rightarrow> w
      | Inr b \<Rightarrow> fold (\<lambda>sidecar. nt_tell net sidecar b) (nt_ids net) w)"

definition unregisterDebuggerSidecar :: "'w debug_net \<Rightarrow> 'w \<Rightarrow> 'w" where
  "unregisterDebuggerSidecar net = tell_all net ''unregisterDebugger''"

definition closeConn :: "'w debug_net \<Rightarrow> nat \<Rightarrow> string \<Rightarrow> 'w conns \<Rightarrow> 'w conns" where
  "closeConn net conn key s =
     (case s of (debugConns, w) \<Rightarrow>
        let debugConns' = mdel key debugConns; w' = nt_close net conn w
        in (debugConns', if debugConns' = [] then unregisterDebuggerSidecar net w' else w'))"

fun send_loop :: "'w debug_net \<Rightarrow> string \<Rightarrow> string \<Rightarrow> (string, nat) gomap \<Rightarrow> 'w conns \<Rightarrow> err option \<times> 'w conns" where
  "send_loop net b curConnId [] s = (None, s)"
| "send_loop net b curConnId ((key, conn) # rest) s =
     (case nt_write net conn b (snd s) of
        (None, w') \<Rightarrow> send_loop net b curConnId rest (fst s, w')
      | (Some e, w') \<Rightarrow>
          let s' = closeConn net conn key (fst s, w')
          in if curConnId = key then (Some e, s') else send_loop net b curConnId rest s')"

definition sendAll :: "'w debug_net \<Rightarrow> bytes \<Rightarrow> string \<Rightarrow> 'w conns \<Rightarrow> err option \<times> 'w conns" where
  "sendAll net b curConnId s = send_loop net (text_of b) curConnId (nt_rng_conns net (fst s)) s"

definition send_own :: "'w debug_net \<Rightarrow> nat \<Rightarrow> string \<Rightarrow> (string, string) gomap \<Rightarrow> 'w conns \<Rightarrow> err option \<times> 'w conns" where
  "send_own net conn debuggerId m s =
     (case nt_write net conn (case js_marshal (nt_json net) m of Inl _ \<Rightarrow> '''' | Inr b \<Rightarrow> b) (snd s) of
        (None, w') \<Rightarrow> (None, fst s, w')
      | (Some e, w') \<Rightarrow> (Some e, closeConn net conn debuggerId (fst s, w')))"

definition sendErrorBytes :: "'w debug_net \<Rightarrow> nat \<Rightarrow> string \<Rightarrow> err option \<Rightarrow> string \<Rightarrow> 'w conns \<Rightarrow> err option \<times> 'w conns" where
  "sendErrorBytes net conn debuggerId err cmd s =
     send_own net conn debuggerId [(''command'', ''error''), (''commandId'', cmd), (''error'', nt_text net err)] s"

text \<open>A round of the loop of \<^verbatim>\<open>debugServe\<close>: whether it goes on, and the new state.\<close>

definition serve_round :: "'w debug_net \<Rightarrow> nat \<Rightarrow> string \<Rightarrow> string \<Rightarrow> 'w conns \<Rightarrow> (bool \<times> 'w conns) option" where
  "serve_round net conn debuggerId msgBytes s =
     (let msg = nt_decode net msgBytes;
          sent = (\<lambda>(e, s'). (e = None, s'))
      in if map_of msg ''command'' = None
         then Some (sent (sendErrorBytes net conn debuggerId (Some (ErrMsg ''Message must be given a command'')) '''' s))
         else map_option (\<lambda>(x, w).
                case x of
                  ToAll b \<Rightarrow> sent (sendAll net b debuggerId (fst s, w))
                | ToOne e \<Rightarrow> sent (sendErrorBytes net conn debuggerId e (mget '''' msg ''commandId'') (fst s, w))
                | Quiet \<Rightarrow> (True, fst s, w)
                | Closing \<Rightarrow> (False, closeConn net conn debuggerId (fst s, w)))
              (serve_command net msg (snd s)))"

text \<open>The loop on what is read from the connection, \<^const>\<open>None\<close> being an error; the flag of the result says that it waits for the
  next message.\<close>

fun serve_loop :: "'w debug_net \<Rightarrow> nat \<Rightarrow> string \<Rightarrow> bytes list \<Rightarrow> 'w conns \<Rightarrow> (bool \<times> 'w conns) option" where
  "serve_loop net conn debuggerId [] s = Some (True, s)"
| "serve_loop net conn debuggerId (None # reads) s = Some (False, closeConn net conn debuggerId s)"
| "serve_loop net conn debuggerId (Some b # reads) s =
     (case serve_round net conn debuggerId b s of
        None \<Rightarrow> None
      | Some (True, s') \<Rightarrow> serve_loop net conn debuggerId reads s'
      | Some (False, s') \<Rightarrow> Some (False, s'))"

definition debugServe :: "'w debug_net \<Rightarrow> nat \<Rightarrow> string \<Rightarrow> bytes list \<Rightarrow> 'w conns \<Rightarrow> (bool \<times> 'w conns) option" where
  "debugServe net conn debuggerId reads s =
     (case send_own net conn debuggerId [(''command'', ''appName''), (''appName'', nt_app net)] s of
        (Some _, s') \<Rightarrow> Some (False, s')
      | (None, s') \<Rightarrow> serve_loop net conn debuggerId reads s')"

text \<open>The route: \<open>ids\<close> is the header \<^verbatim>\<open>Id\<close> of the request, \<open>upgraded\<close> the connection if the upgrade succeeds.\<close>

definition routeImplRegisterDebugger :: "'w debug_net \<Rightarrow> string list option \<Rightarrow> nat option \<Rightarrow> bytes list \<Rightarrow> 'w conns \<Rightarrow> (bool \<times> 'w conns) option" where
  "routeImplRegisterDebugger net ids upgraded reads s =
     (case js_marshal (nt_json net) [(''command'', ''registerDebugger''), (''nodeId'', nt_me net)] of
        Inl _ \<Rightarrow> Some (False, s)
      | Inr _ \<Rightarrow>
          let s1 = (fst s, tell_all net ''registerDebugger'' (snd s))
          in case (ids, upgraded) of
               (Some (debuggerId # _), Some conn) \<Rightarrow>
                 (case debugServe net conn debuggerId reads (mput debuggerId conn (fst s1), snd s1) of
                    Some (False, s2) \<Rightarrow> Some (False, closeConn net conn debuggerId s2)
                  | x \<Rightarrow> x)
             | _ \<Rightarrow> Some (False, s1))"

section \<open>Requests that reach a node\<close>

text \<open>A request acts through the values of its fields only.\<close>

lemma debug_command_cong:
  assumes "map_of m = map_of m'"
  shows "debug_command e m d = debug_command e m' d"
proof -
  have mget: "mget z m = mget z m'" for z
    using assms by (simp add: fun_eq_iff mget_def)
  show ?thesis
    unfolding debug_command_def setBreakpoint_def unsetBreakpoint_def full_attrs_def msg_actor_def msg_break_def editResponse_def
      mget assms by (rule refl)
qed

text \<open>
  What the commands rely on: a call touches at most the node it is for, and a call without error has run the handler there.
  \<open>node_at\<close> is the state of the debugger of a node.
\<close>

locale debug_rpc = json_lib "nt_json net" for net :: "'w debug_net" +
  fixes node_at :: "'w \<Rightarrow> string \<Rightarrow> debugger option" and envs :: "string \<Rightarrow> debug_env"
  assumes call_other: "nt_call net n b w = (r, w') \<Longrightarrow> m \<noteq> n \<Longrightarrow> node_at w' m = node_at w m"
    and call_ok: "nt_call net n b w = ((rb, None), w') \<Longrightarrow>
      \<exists>d d'. node_at w n = Some d \<and> node_at w' n = Some d' \<and> handlerDebugger (nt_json net) (envs n) b d = Ok ((rb, None), d')"
begin

definition took :: "(string, string) gomap \<Rightarrow> 'w \<Rightarrow> 'w \<Rightarrow> string \<Rightarrow> bool" where
  "took msg w w' n \<longleftrightarrow> (\<exists>d d' rep. node_at w n = Some d \<and> node_at w' n = Some d' \<and> debug_command (envs n) msg d = Ok (rep, d'))"

lemma handled_command:
  assumes "wf_map msg" "js_marshal (nt_json net) msg = Inr b" "handlerDebugger (nt_json net) e b d = Ok (x, d')"
  shows "\<exists>rep. debug_command e msg d = Ok (rep, d')"
proof -
  obtain m' where m': "js_unmarshal (nt_json net) b = Inr m'" "map_of m' = map_of msg"
    using marshal [OF assms(1)] assms(2) by auto
  then have "\<exists>rep. debug_command e m' d = Ok (rep, d')"
    using assms(3) by (auto simp: handlerDebugger_def split: result.splits option.splits sum.splits)
  then show ?thesis
    using debug_command_cong [OF m'(2)] by simp
qed

lemma doCall_other: "doCall net b n w = (e, w') \<Longrightarrow> m \<noteq> n \<Longrightarrow> node_at w' m = node_at w m"
  by (auto simp: doCall_def ask_def split: prod.splits option.splits sum.splits if_splits dest!: call_other)

lemma doCall_took:
  assumes "wf_map msg" "js_marshal (nt_json net) msg = Inr b" "doCall net b n w = (None, w')"
  shows "took msg w w' n"
proof -
  obtain rb where "nt_call net n b w = ((rb, None), w')"
    using assms(3) by (auto simp: doCall_def ask_def split: prod.splits option.splits sum.splits if_splits)
  then show ?thesis
    using call_ok handled_command [OF assms(1,2)] unfolding took_def by blast
qed

lemma took_cong: "took msg w w1 n \<Longrightarrow> node_at w2 n = node_at w1 n \<Longrightarrow> took msg w w2 n"
  "took msg w1 w' n \<Longrightarrow> node_at w1 n = node_at w n \<Longrightarrow> took msg w w' n"
  by (auto simp: took_def)

lemma call_each_took:
  assumes "wf_map msg" "js_marshal (nt_json net) msg = Inr b" "distinct ns" "call_each net b ns acc er w = ((nodes, e), w')"
  shows "\<exists>ok. nodes = acc @ ok \<and> set ok \<subseteq> set ns \<and> (\<forall>n \<in> set ok. took msg w w' n) \<and> (\<forall>n. n \<notin> set ns \<longrightarrow> node_at w' n = node_at w n)"
  using assms(3,4)
proof (induction ns arbitrary: acc er w)
  case (Cons s ns)
  obtain x w1 where c: "doCall net b s w = (x, w1)"
    by force
  define acc1 where "acc1 = (if x = None then acc @ [s] else acc)"
  have c': "call_each net b ns acc1 x w1 = ((nodes, e), w')"
    using Cons.prems(2) c by (cases x) (auto simp: acc1_def)
  have d: "distinct ns"
    using Cons.prems(1) by simp
  from Cons.IH [OF d c'] obtain ok where ok: "nodes = acc1 @ ok" "set ok \<subseteq> set ns" "\<forall>n \<in> set ok. took msg w1 w' n"
      "\<forall>n. n \<notin> set ns \<longrightarrow> node_at w' n = node_at w1 n"
    by blast
  have s: "s \<notin> set ns" "node_at w' s = node_at w1 s"
    using Cons.prems(1) ok(4) by auto
  have "took msg w w' n" if "n \<in> set ok" for n
  proof -
    have "took msg w1 w' n" "n \<noteq> s"
      using that ok(2,3) s(1) by auto
    then show ?thesis
      using doCall_other [OF c] by (auto intro: took_cong(2))
  qed
  moreover have "took msg w w' s" if "x = None"
    using took_cong(1) [OF doCall_took [OF assms(1,2)] s(2)] c that by simp
  moreover have "\<forall>n. n \<notin> set (s # ns) \<longrightarrow> node_at w' n = node_at w n"
    using ok(4) doCall_other [OF c] by simp
  ultimately show ?case
    using ok(1,2) by (intro exI [of _ "if x = None then s # ok else ok"]) (auto simp: acc1_def)
qed simp

lemma call_until_took:
  assumes "wf_map msg" "js_marshal (nt_json net) msg = Inr b" "distinct ns" "call_until net b ns w = (e, w')"
  shows "\<exists>told rest. ns = told @ rest \<and> (e = None \<longrightarrow> rest = []) \<and> (\<forall>n \<in> set told. took msg w w' n) \<and>
    (\<forall>n. n \<notin> set told \<and> n \<notin> set (take 1 rest) \<longrightarrow> node_at w' n = node_at w n)"
  using assms(3,4)
proof (induction ns arbitrary: w)
  case (Cons s ns)
  obtain x w1 where c: "doCall net b s w = (x, w1)"
    by force
  show ?case
  proof (cases x)
    case None
    have d: "distinct ns" "call_until net b ns w1 = (e, w')"
      using Cons.prems c None by simp_all
    from Cons.IH [OF d] obtain told rest where r: "ns = told @ rest" "e = None \<longrightarrow> rest = []" "\<forall>n \<in> set told. took msg w1 w' n"
        "\<forall>n. n \<notin> set told \<and> n \<notin> set (take 1 rest) \<longrightarrow> node_at w' n = node_at w1 n"
      by blast
    have s: "s \<notin> set told" "s \<notin> set (take 1 rest)"
      using Cons.prems(1) r(1) by (auto dest: in_set_takeD)
    have "took msg w w' n" if "n \<in> set told" for n
    proof -
      have "took msg w1 w' n" "n \<noteq> s"
        using that r(3) s(1) by auto
      then show ?thesis
        using doCall_other [OF c] by (auto intro: took_cong(2))
    qed
    moreover have "took msg w w' s"
      using took_cong(1) [OF doCall_took [OF assms(1,2)], of s w w1 w'] c None r(4) s by simp
    ultimately show ?thesis
      using r doCall_other [OF c] by (intro exI [of _ "s # told"] exI [of _ rest]) auto
  next
    case (Some er)
    then show ?thesis
      using Cons.prems c doCall_other [OF c] by (intro exI [of _ "[]"] exI [of _ "s # ns"]) auto
  qed
qed simp

end

lemma wf_with_node: "wf_map msg \<Longrightarrow> ''node'' \<notin> set (keys msg) \<Longrightarrow> wf_map (with_node body msg)"
  by (auto simp: with_node_def wf_map_def split: option.splits)

lemma wf_requests [simp]: "wf_map (set_msg net body)" "wf_map (unset_msg net body)" "wf_map (pause_request net c body)"
  unfolding set_msg_def unset_msg_def pause_request_def Let_def by (intro wf_with_node; simp add: wf_map_def)+

lemma map_of_with_node: "k \<noteq> ''node'' \<Longrightarrow> map_of (with_node body msg) k = map_of msg k"
  by (auto simp: with_node_def map_add_def split: option.splits)

lemma mget_with_node: "k \<noteq> ''node'' \<Longrightarrow> mget z (with_node body msg) k = mget z msg k"
  by (simp add: mget_def map_of_with_node)

text \<open>The nodes a command is for.\<close>

definition targets :: "'w debug_net \<Rightarrow> (string, string) gomap \<Rightarrow> string list" where
  "targets net body = (if all_nodes body then nt_ids net else [mget '''' body ''node''])"

text \<open>What a pause, or its end, of the actor or of the node named by the command does to a node.\<close>

definition paused_by :: "string \<Rightarrow> (string, string) gomap \<Rightarrow> debugger \<Rightarrow> debugger" where
  "paused_by me body d =
     (let r = registerDebugger me d; t = mget '''' body ''actorType''; i = mget '''' body ''actorId''
      in if t = '''' \<or> i = '''' then pauseNode no_break r else pause \<lparr>at_id = i, at_type = t\<rparr> no_break r)"

definition unpaused_by :: "debug_env \<Rightarrow> string \<Rightarrow> (string, string) gomap \<Rightarrow> debugger \<Rightarrow> debugger result" where
  "unpaused_by e me body d =
     (let r = registerDebugger me d; t = mget '''' body ''actorType''; i = mget '''' body ''actorId''
      in if t = '''' \<or> i = '''' then unpauseNode e False r else unpause \<lparr>at_id = i, at_type = t\<rparr> r)"

lemma mapget_mget: "mapget m k z = mget z m k"
  by (simp add: mapget_def mget_def)

lemma pause_request_command:
  "debug_command e (pause_request net ''pause'' body) d = Ok (Some (Inr ok_reply), paused_by (nt_me net) body d)"
  "debug_command e (pause_request net ''unpause'' body) d = plain_reply (unpaused_by e (nt_me net) body d)"
proof -
  have m: "mget '''' (pause_request net c body) ''command'' = c" "mget '''' (pause_request net c body) ''srcNodeId'' = nt_me net"
    "mget '''' (pause_request net c body) ''actorType'' = mget '''' body ''actorType''"
    "mget '''' (pause_request net c body) ''actorId'' = mget '''' body ''actorId''"
    "mget '''' (pause_request net c body) ''breakpointId'' = ''''" "map_of (pause_request net c body) ''onlyUnpauseCurrent'' = None" for c
    by (simp_all add: pause_request_def mget_with_node map_of_with_node mapget_mget) (simp_all add: mget_def)
  have n: "no_break\<lparr>bk_id := ''''\<rparr> = no_break"
    by (simp add: no_break_def)
  show "debug_command e (pause_request net ''pause'' body) d = Ok (Some (Inr ok_reply), paused_by (nt_me net) body d)"
    by (simp add: debug_command_def m msg_break_def msg_actor_def n paused_by_def plain_reply_def Let_def)
  show "debug_command e (pause_request net ''unpause'' body) d = plain_reply (unpaused_by e (nt_me net) body d)"
    by (simp add: debug_command_def m msg_actor_def unpaused_by_def Let_def)
qed

lemma set_msg_command:
  "debug_command e (set_msg net body) d = Ok (Some (Inr ok_reply), setBreakpoint (set_msg net body) (registerDebugger (nt_me net) d))"
proof -
  have "mget '''' (set_msg net body) ''command'' = ''setBreakpoint''" "mget '''' (set_msg net body) ''srcNodeId'' = nt_me net"
    by (simp_all add: set_msg_def mget_with_node Let_def) (simp_all add: mget_def)
  then show ?thesis
    by (simp add: debug_command_def plain_reply_def)
qed

context debug_rpc
begin

lemma spread_took:
  assumes "wf_map msg" "js_marshal (nt_json net) msg = Inr b" "distinct (nt_ids net)" "spread net body b w = ((nodes, e), w')"
  shows "set nodes \<subseteq> set (targets net body) \<and> (\<forall>n \<in> set nodes. took msg w w' n) \<and>
    (\<forall>n. n \<notin> set (targets net body) \<longrightarrow> node_at w' n = node_at w n)"
proof (cases "all_nodes body")
  case True
  then show ?thesis
    using call_each_took [OF assms(1-3)] assms(4) by (fastforce simp: spread_def targets_def)
next
  case False
  obtain x w1 where c: "doCall net b (mget '''' body ''node'') w = (x, w1)"
    by force
  then have "w1 = w'" "nodes = (if x = None then [mget '''' body ''node''] else [])"
    using assms(4) False by (auto simp: spread_def split: option.splits)
  then show ?thesis
    using c False doCall_took [OF assms(1,2)] doCall_other [OF c] by (auto simp: targets_def)
qed

lemma pause_command_took:
  assumes "distinct (nt_ids net)" "pause_command c net body w = (res, w')"
  shows "\<exists>told rest. targets net body = told @ rest \<and> ((\<exists>b. res = Inr b) \<longrightarrow> rest = []) \<and>
    (\<forall>n \<in> set told. took (pause_request net c body) w w' n) \<and>
    (\<forall>n. n \<notin> set told \<and> n \<notin> set (take 1 rest) \<longrightarrow> node_at w' n = node_at w n)"
proof (cases "\<exists>b. \<not> (map_of body ''actorType'' = None \<and> map_of body ''actorId'' \<noteq> None) \<and>
    js_marshal (nt_json net) (pause_request net c body) = Inr b")
  case False
  then have "w' = w \<and> (\<nexists>b. res = Inr b)"
    using assms(2) by (auto simp: pause_command_def split: if_splits sum.splits)
  then show ?thesis
    by (intro exI [of _ "[]"] exI [of _ "targets net body"]) simp
next
  case True
  then obtain b where b: "js_marshal (nt_json net) (pause_request net c body) = Inr b"
    "\<not> (map_of body ''actorType'' = None \<and> map_of body ''actorId'' \<noteq> None)"
    by blast
  obtain e where e: "(if all_nodes body then call_until net b (nt_ids net) w else doCall net b (mget '''' body ''node'') w) = (e, w')"
    "(\<exists>b. res = Inr b) \<longrightarrow> e = None"
  proof -
    obtain e w1 where c: "(if all_nodes body then call_until net b (nt_ids net) w else doCall net b (mget '''' body ''node'') w) = (e, w1)"
      by force
    then have "(res, w') = (case e of Some e \<Rightarrow> (Inl e, w1) | None \<Rightarrow> (Inr b, w1))"
      using assms(2) unfolding pause_command_def if_not_P [OF b(2)] b(1) sum.case c prod.case by (simp add: eq_commute)
    then show ?thesis
      using that c by (cases e) auto
  qed
  have d: "distinct (targets net body)" "call_until net b (targets net body) w = (e, w')"
    using e(1) assms(1) by (auto simp: targets_def split: if_splits option.splits)
  from call_until_took [OF wf_requests(3) b(1) d] obtain told rest where t: "targets net body = told @ rest" "e = None \<longrightarrow> rest = []"
      "\<forall>n \<in> set told. took (pause_request net c body) w w' n"
      "\<forall>n. n \<notin> set told \<and> n \<notin> set (take 1 rest) \<longrightarrow> node_at w' n = node_at w n"
    by blast
  have "(\<exists>b. res = Inr b) \<longrightarrow> rest = []"
    using t(2) e(2) by simp
  with t(1,3,4) show ?thesis
    by blast
qed

end


text \<open>A breakpoint from a debugger: the answer lists exactly nodes that the command is for, at least one, each of them has the
  breakpoint afterwards unless it had one with the same attributes, and knows the node of the debugger; a node the
  command is not for does not change.\<close>

theorem implSetBreakpoint_broadcast:
  assumes "debug_rpc net node_at envs" "distinct (nt_ids net)" "implSetBreakpoint net body w = (Inr s, w')"
  shows "\<exists>nodes. nodes \<noteq> [] \<and> set nodes \<subseteq> set (targets net body) \<and>
    nt_marshal net (JObj (str_fields (set_msg net body) @
      [(''nodes'', JArr (map JStr nodes)), (''commandId'', JStr (mget '''' body ''commandId''))])) = Inr s \<and>
    (\<forall>n \<in> set nodes. \<exists>d. node_at w n = Some d \<and>
      node_at w' n = Some (setBreakpoint (set_msg net body) (registerDebugger (nt_me net) d))) \<and>
    (\<forall>n. n \<notin> set (targets net body) \<longrightarrow> node_at w' n = node_at w n)"
proof -
  obtain b nodes e where b: "js_marshal (nt_json net) (set_msg net body) = Inr b" "spread net body b w = ((nodes, e), w')" "nodes \<noteq> []"
    and s: "nt_marshal net (JObj (str_fields (set_msg net body) @
      [(''nodes'', JArr (map JStr nodes)), (''commandId'', JStr (mget '''' body ''commandId''))])) = Inr s"
    using assms(3) by (auto simp: implSetBreakpoint_def Let_def split: if_splits sum.splits prod.splits)
  have took: "debug_rpc.took node_at envs (set_msg net body) w w' n = (\<exists>d. node_at w n = Some d \<and>
      node_at w' n = Some (setBreakpoint (set_msg net body) (registerDebugger (nt_me net) d)))" for n
    unfolding debug_rpc.took_def [OF assms(1)] set_msg_command by simp
  show ?thesis
    using debug_rpc.spread_took [OF assms(1) wf_requests(1) b(1) assms(2) b(2)] b(3) s unfolding took by blast
qed

section \<open>Connections that end\<close>

lemma closeConn_fst [simp]: "fst (closeConn net conn key s) = mdel key (fst s)"
  by (simp add: closeConn_def Let_def split: prod.splits)

lemma send_loop_conns:
  assumes "send_loop net b cur todo s = (e, s')"
  shows "map_of (fst s') \<subseteq>\<^sub>m map_of (fst s) \<and> (e \<noteq> None \<longrightarrow> map_of (fst s') cur = None)"
  using assms
proof (induction net b cur todo s rule: send_loop.induct)
  case (2 net b cur key conn rest s)
  obtain x w1 where x: "nt_write net conn b (snd s) = (x, w1)"
    by force
  show ?case
  proof (cases x)
    case None
    then show ?thesis
      using 2(1) [OF x [symmetric]] 2(3) x by simp
  next
    case (Some er)
    let ?s = "closeConn net conn key (fst s, w1)"
    have del: "map_of (fst ?s) \<subseteq>\<^sub>m map_of (fst s)" "map_of (fst ?s) key = None"
      by (auto simp: map_le_def)
    show ?thesis
    proof (cases "cur = key")
      case True
      then have "s' = ?s"
        using 2(3) x Some by (simp add: Let_def)
      then show ?thesis
        using del True by metis
    next
      case False
      then have "map_of (fst s') \<subseteq>\<^sub>m map_of (fst ?s) \<and> (e \<noteq> None \<longrightarrow> map_of (fst s') cur = None)"
        using 2(2) [OF x [symmetric] Some refl] 2(3) x Some by (simp add: Let_def fun_upd_def)
      then show ?thesis
        using del map_le_trans by blast
    qed
  qed
qed simp

lemma send_own_conns: "send_own net conn key m s = (e, s') \<Longrightarrow> e \<noteq> None \<Longrightarrow> map_of (fst s') key = None"
  by (auto simp: send_own_def split: prod.splits option.splits)

lemma sendErrorBytes_closed: "sendErrorBytes net conn key e c s = (Some y, s') \<Longrightarrow> map_of (fst s') key = None"
  unfolding sendErrorBytes_def by (erule send_own_conns) simp

lemma sendAll_closed: "sendAll net v key s = (Some y, s') \<Longrightarrow> map_of (fst s') key = None"
  unfolding sendAll_def by (drule send_loop_conns) simp

lemma sent_failed: "(case x of (e, t) \<Rightarrow> (e = None, t)) = (False, s') \<longleftrightarrow> (\<exists>y. x = (Some y, s'))"
  by (cases x) auto

lemma serve_round_closed:
  assumes "serve_round net conn key b s = Some (False, s')"
  shows "map_of (fst s') key = None"
proof (cases "map_of (nt_decode net b) ''command''")
  case None
  then show ?thesis
    using assms by (auto simp: serve_round_def sent_failed Let_def dest: sendErrorBytes_closed)
next
  case (Some c)
  then obtain x w where "(case x of
      ToAll v \<Rightarrow> (case sendAll net v key (fst s, w) of (e, t) \<Rightarrow> (e = None, t))
    | ToOne e \<Rightarrow> (case sendErrorBytes net conn key e (mget '''' (nt_decode net b) ''commandId'') (fst s, w) of (e, t) \<Rightarrow> (e = None, t))
    | Quiet \<Rightarrow> (True, fst s, w)
    | Closing \<Rightarrow> (False, closeConn net conn key (fst s, w))) = (False, s')"
    using assms by (auto simp: serve_round_def Let_def)
  then show ?thesis
    by (cases x) (auto simp: sent_failed dest: sendErrorBytes_closed sendAll_closed)
qed

lemma serve_loop_closed: "serve_loop net conn key reads s = Some (False, s') \<Longrightarrow> map_of (fst s') key = None"
  by (induction net conn key reads s rule: serve_loop.induct)
    (auto split: option.splits prod.splits bool.splits dest: serve_round_closed)

text \<open>When \<^verbatim>\<open>debugServe\<close> returns, nothing is sent to its debugger any more.\<close>

lemma debugServe_closed: "debugServe net conn key reads s = Some (False, s') \<Longrightarrow> map_of (fst s') key = None"
  by (auto simp: debugServe_def split: prod.splits option.splits dest: serve_loop_closed send_own_conns)

text \<open>
  The table is by the id that the debugger gives, not by connection.  When an old connection of the same debugger ends, the
  new one is taken out of the table with it, and if there is no other the nodes are told to forget this one.
\<close>

lemma reconnected_forgotten:
  "closeConn net old key (mput key new [], w) = ([], unregisterDebuggerSidecar net (nt_close net old w))"
  by (simp add: closeConn_def)

text \<open>The field \<^verbatim>\<open>onlyUnpauseCurrent\<close> of a command to end the pause of a node does not reach the node.\<close>

lemma onlyUnpauseCurrent_lost: "map_of (pause_request net ''unpause'' body) ''onlyUnpauseCurrent'' = None"
  by (simp add: pause_request_def map_of_with_node)

section \<open>A cluster\<close>

text \<open>Nodes that run their handlers one request at a time; a node whose handler panics is gone.\<close>

definition cluster_call :: "string \<Rightarrow> string \<Rightarrow> (string, debugger) gomap \<Rightarrow> (bytes \<times> err option) \<times> (string, debugger) gomap" where
  "cluster_call n b w =
     (case map_of w n of
        None \<Rightarrow> ((None, Some ErrUnavailable), w)
      | Some d \<Rightarrow>
          (case handlerDebugger plain_json sample_debug b d of
             Ok (r, d') \<Rightarrow> (r, mput n d' w)
           | _ \<Rightarrow> ((None, Some ErrUnavailable), mdel n w)))"

definition cluster :: "(string, debugger) gomap debug_net" where
  "cluster = \<lparr>nt_json = plain_json, nt_marshal = (\<lambda>v. Inr ''{}''), nt_unbreaks = (\<lambda>s. Inr []), nt_unpaused = (\<lambda>s. Inr []),
     nt_unbusy = (\<lambda>s. Inl ErrNil), nt_rng_breaks = (\<lambda>m. m), nt_rng_busy = (\<lambda>m. m), nt_rng_conns = (\<lambda>m. m),
     nt_call = cluster_call, nt_tell = (\<lambda>n b w. snd (cluster_call n b w)), nt_write = (\<lambda>c b w. (None, w)), nt_close = (\<lambda>c w. w),
     nt_decode = (\<lambda>s. []), nt_app = ''app'', nt_ids = [''n1'', ''n2''], nt_me = ''n1'', nt_uuid = ''u'', nt_text = (\<lambda>e. ''error'')\<rparr>"

interpretation cl: debug_rpc cluster "\<lambda>w n. map_of w n" "\<lambda>n. sample_debug"
proof -
  have "debug_rpc_axioms cluster (\<lambda>w n. map_of w n) (\<lambda>n. sample_debug)"
    by (unfold_locales) (auto simp: cluster_def cluster_call_def split: option.splits result.splits prod.splits)
  then show "debug_rpc cluster (\<lambda>w n. map_of w n) (\<lambda>n. sample_debug)"
    using plain.json_lib_axioms by (simp add: debug_rpc_def cluster_def)
qed

definition two_nodes :: "(string, debugger) gomap" where
  "two_nodes = [(''n1'', idle_debugger), (''n2'', idle_debugger)]"

lemma cluster_targets: "targets cluster [] = [''n1'', ''n2'']" "distinct (nt_ids cluster)" "nt_me cluster = ''n1''"
  by code_simp+

lemma cluster_doCall:
  assumes "wf_map msg" "js_marshal plain_json msg = Inr b" "map_of w n = Some d"
    and "debug_command sample_debug msg d = Ok (Some (Inr ok_reply), d')"
  shows "doCall cluster b n w = (None, mput n d' w)"
proof -
  obtain m' where m': "js_unmarshal plain_json b = Inr m'" "map_of m' = map_of msg"
    using plain.marshal [OF assms(1)] assms(2) by auto
  obtain r where r: "js_reply plain_json ok_reply = Inr r" "js_unreply plain_json r = (ok_reply, None)"
    using plain.reply [of ok_reply] by (auto simp: ok_reply_def int64_def)
  have "handlerDebugger plain_json sample_debug b d = Ok ((Some r, None), d')"
    using assms(4) debug_command_cong [OF m'(2)] by (simp add: handlerDebugger_def m'(1) r(1))
  then show ?thesis
    using assms(3) r(2) by (simp add: doCall_def ask_def cluster_def cluster_call_def) (simp add: ok_reply_def)
qed

lemma cluster_fields: "nt_json cluster = plain_json" "nt_ids cluster = [''n1'', ''n2'']" "nt_marshal cluster v = Inr ''{}''"
  by (simp_all add: cluster_def)

lemma plain_marshal: "js_marshal plain_json m = Inr (json_fields m)"
  by (simp add: plain_json_def)


theorem implSetBreakpoint_broadcast_witness:
  "\<exists>nodes. nodes \<noteq> [] \<and> set nodes \<subseteq> {''n1'', ''n2''} \<and>
     fst (implSetBreakpoint cluster [(''flowId'', ''f'')] two_nodes) = Inr ''{}'' \<and>
     map_of (snd (implSetBreakpoint cluster [(''flowId'', ''f'')] two_nodes)) (hd nodes) =
       Some (setBreakpoint (set_msg cluster [(''flowId'', ''f'')]) (registerDebugger ''n1'' idle_debugger))"
proof -
  let ?b = "[(''flowId'', ''f'')]"
  let ?x = "implSetBreakpoint cluster ?b two_nodes"
  note call = cluster_doCall [OF wf_requests(1) plain_marshal _ set_msg_command]
  have f: "fst ?x = Inr ''{}''"
    by (simp add: implSetBreakpoint_def spread_def cluster_fields plain_marshal all_nodes_def mget_def two_nodes_def call)
  then have x: "?x = (Inr ''{}'', snd ?x)"
    by (simp add: prod_eq_iff)
  have t: "targets cluster ?b = [''n1'', ''n2'']"
    by code_simp
  from implSetBreakpoint_broadcast [OF cl.debug_rpc_axioms cluster_targets(2) x] obtain nodes
    where n: "nodes \<noteq> []" "set nodes \<subseteq> {''n1'', ''n2''}"
      "\<forall>n \<in> set nodes. \<exists>d. map_of two_nodes n = Some d \<and>
        map_of (snd ?x) n = Some (setBreakpoint (set_msg cluster ?b) (registerDebugger (nt_me cluster) d))"
    unfolding t by auto
  have "map_of two_nodes (hd nodes) = Some idle_debugger"
    using n(1,2) by (cases nodes) (auto simp: two_nodes_def)
  then have "map_of (snd ?x) (hd nodes) = Some (setBreakpoint (set_msg cluster ?b) (registerDebugger ''n1'' idle_debugger))"
    using n(1,3) hd_in_set unfolding cluster_targets(3) by fastforce
  then show ?thesis
    using n(1,2) f by blast
qed

end
