(* ===== verification/Actor_State.thy ===== *)
theory Actor_State
  imports Bindings Debug_Conditions
begin

text \<open>
  \<^verbatim>\<open>src/core/internal/runtime/routes-state.go\<close>: the persistent state of an actor, one Redis hash with a field per entry
  and per entry of a nested map, behind the HTTP routes of the state API.
\<close>

section \<open>Keys\<close>

definition stateKey :: "string \<Rightarrow> string \<Rightarrow> string" where
  "stateKey t i = ''main'' @ Separator # ''state'' @ Separator # t @ Separator # i"

definition flatEntryKey :: "string \<Rightarrow> string" where
  "flatEntryKey key = key @ [Separator, Separator]"

definition nestedEntryKey :: "string \<Rightarrow> string \<Rightarrow> string" where
  "nestedEntryKey key subkey = key @ Separator # subkey"

definition nestedEntryKeyPrefix :: "string \<Rightarrow> string" where
  "nestedEntryKeyPrefix key = key @ [Separator]"

section \<open>Requests and responses\<close>

text \<open>What the routes read of a request: the parameters of its path, its body and a form value.\<close>

record state_req =
  p_type :: string
  p_id :: string
  p_key :: string
  p_subkey :: string
  rq_body :: string
  rq_nilOnAbsent :: string

record http_resp =
  hr_code :: int
  hr_header :: "(string \<times> string) list"
  hr_body :: string

text \<open>\<^verbatim>\<open>http.Error\<close>; a handler that only writes a body answers 200.\<close>

definition http_Error :: "string \<Rightarrow> int \<Rightarrow> http_resp" where
  "http_Error msg code = \<lparr>hr_code = code, hr_header = [(''Content-Type'', ''text/plain; charset=utf-8''),
     (''X-Content-Type-Options'', ''nosniff'')], hr_body = msg @ [CHR 0x0A]\<rparr>"

definition http_text :: "string \<Rightarrow> http_resp" where
  "http_text s = \<lparr>hr_code = 200, hr_header = [], hr_body = s\<rparr>"

definition http_json :: "string \<Rightarrow> http_resp" where
  "http_json s = \<lparr>hr_code = 200, hr_header = [(''Content-Type'', ''application/json'')], hr_body = s\<rparr>"

record stateUpdateOp =
  Updates :: "(string, jval) gomap"
  SubmapUpdates :: "(string, (string, jval) gomap) gomap"
  Removals :: "string list"
  SubmapRemovals :: "(string, string list) gomap"

text \<open>The parameters: the store, the texts of errors, the decoders and the encoder of JSON, and the range orders.\<close>

record ('r, 'p) state_env =
  st_api :: "('r, 'p) redigo"
  st_sc :: StoreConfig
  st_text :: "err \<Rightarrow> string"
  st_unop :: "string \<Rightarrow> err + string"
  st_unupdate :: "string \<Rightarrow> err + stateUpdateOp"
  st_unmarshal :: "string \<Rightarrow> err + jval"
  st_marshal :: "jval \<Rightarrow> err + string"
  rng_values :: "(string, jval) gomap \<Rightarrow> (string, jval) gomap"
  rng_maps :: "(string, (string, jval) gomap) gomap \<Rightarrow> (string, (string, jval) gomap) gomap"
  rng_removals :: "(string, string list) gomap \<Rightarrow> (string, string list) gomap"
  rng_fields :: "(string, string) gomap \<Rightarrow> (string, string) gomap"

section \<open>Single entries\<close>

definition entry_key :: "state_req \<Rightarrow> string" where
  "entry_key q = (if p_subkey q \<noteq> '''' then nestedEntryKey (p_key q) (p_subkey q) else flatEntryKey (p_key q))"

definition routeImplContainsKey :: "('r, 'p) state_env \<Rightarrow> state_req \<Rightarrow> 'r \<Rightarrow> http_resp result \<times> 'r" where
  "routeImplContainsKey st q r =
     (case HExists (st_api st) (st_sc st) (stateKey (p_type q) (p_id q)) (entry_key q) r of
        (Panicked, r') \<Rightarrow> (Panicked, r')
      | (Error e, r') \<Rightarrow> (Ok (http_Error (''HExists failed: '' @ st_text st e) 500), r')
      | (Ok n, r') \<Rightarrow>
          (Ok (if n = 0 then http_Error ''key not present'' 404 else \<lparr>hr_code = 200, hr_header = [], hr_body = ''''\<rparr>), r'))"

definition location :: "state_req \<Rightarrow> string" where
  "location q =
     ''/kar/v1/actor/'' @ p_type q @ ''/'' @ p_id q @ ''/state/'' @ p_key q @
       (if p_subkey q \<noteq> '''' then ''/'' @ p_subkey q else '''')"

definition routeImplSet :: "('r, 'p) state_env \<Rightarrow> state_req \<Rightarrow> 'r \<Rightarrow> http_resp result \<times> 'r" where
  "routeImplSet st q r =
     (case HSet (st_api st) (st_sc st) (stateKey (p_type q) (p_id q)) (entry_key q) (rq_body q) r of
        (Panicked, r') \<Rightarrow> (Panicked, r')
      | (Error e, r') \<Rightarrow> (Ok (http_Error (''HSET failed: '' @ st_text st e) 500), r')
      | (Ok n, r') \<Rightarrow>
          (Ok (if n = 1 then \<lparr>hr_code = 201, hr_header = [(''Location'', location q)], hr_body = ''''\<rparr>
               else \<lparr>hr_code = 204, hr_header = [], hr_body = ''''\<rparr>), r'))"

definition routeImplGet :: "('r, 'p) state_env \<Rightarrow> state_req \<Rightarrow> 'r \<Rightarrow> http_resp result \<times> 'r" where
  "routeImplGet st q r =
     (case HGet (st_api st) (st_sc st) (stateKey (p_type q) (p_id q)) (entry_key q) r of
        (Panicked, r') \<Rightarrow> (Panicked, r')
      | (Error e, r') \<Rightarrow>
          (Ok (if e = ErrNil then (if rq_nilOnAbsent q = ''true'' then http_text '''' else http_Error ''Not Found'' 404)
               else http_Error (''HGET failed: '' @ st_text st e) 500), r')
      | (Ok v, r') \<Rightarrow> (Ok (http_json v), r'))"

definition routeImplDel :: "('r, 'p) state_env \<Rightarrow> state_req \<Rightarrow> 'r \<Rightarrow> http_resp result \<times> 'r" where
  "routeImplDel st q r =
     (case HDel (st_api st) (st_sc st) (stateKey (p_type q) (p_id q)) (entry_key q) r of
        (Panicked, r') \<Rightarrow> (Panicked, r')
      | (Error e, r') \<Rightarrow> (Ok (http_Error (''HDEL failed: '' @ st_text st e) 500), r')
      | (Ok n, r') \<Rightarrow> (Ok (http_text (itoa n)), r'))"

definition routeImplDelAll :: "('r, 'p) state_env \<Rightarrow> state_req \<Rightarrow> 'r \<Rightarrow> http_resp result \<times> 'r" where
  "routeImplDelAll st q r =
     (case store_Del (st_api st) (st_sc st) (stateKey (p_type q) (p_id q)) r of
        (Panicked, r') \<Rightarrow> (Panicked, r')
      | (Error e, r') \<Rightarrow>
          (Ok (if e = ErrNil then http_Error ''Not Found'' 404 else http_Error (''DEL failed: '' @ st_text st e) 500), r')
      | (Ok n, r') \<Rightarrow> (Ok (http_text (itoa n)), r'))"

section \<open>Nested maps\<close>

text \<open>
  One page of a scan: fields and values alternate; \<open>op\<close> is the closure, with the variables it assigns as state.
\<close>

fun scan_page :: "(string \<Rightarrow> string \<Rightarrow> 'a \<Rightarrow> err + 'a) \<Rightarrow> string list \<Rightarrow> 'a \<Rightarrow> 'a result" where
  "scan_page op [] acc = Ok acc"
| "scan_page op [k] acc = Panicked"
| "scan_page op (k # v # rest) acc = (case op k v acc of Inl e \<Rightarrow> Error e | Inr acc' \<Rightarrow> scan_page op rest acc')"

text \<open>The loop ends when the server returns cursor 0; \<open>fuel\<close> bounds the number of pages, \<^const>\<open>None\<close> is running out of it.\<close>

fun scan_loop ::
  "('r, 'p) redigo \<Rightarrow> StoreConfig \<Rightarrow> string \<Rightarrow> string \<Rightarrow> (string \<Rightarrow> string \<Rightarrow> 'a \<Rightarrow> err + 'a) \<Rightarrow> nat \<Rightarrow> int \<Rightarrow> 'a \<Rightarrow> 'r \<Rightarrow>
    ('a result \<times> 'r) option" where
  "scan_loop api sc sk pat op 0 cursor acc r = None"
| "scan_loop api sc sk pat op (Suc fuel) cursor acc r =
     (case HScan api sc sk cursor pat r of
        (Error e, r') \<Rightarrow> Some (Error e, r')
      | (Panicked, r') \<Rightarrow> Some (Panicked, r')
      | (Ok (cursor', res), r') \<Rightarrow>
          (case scan_page op res acc of
             Error e \<Rightarrow> Some (Error e, r')
           | Panicked \<Rightarrow> Some (Panicked, r')
           | Ok acc' \<Rightarrow> if cursor' = 0 then Some (Ok acc', r') else scan_loop api sc sk pat op fuel cursor' acc' r'))"

definition subMapScan ::
  "('r, 'p) redigo \<Rightarrow> StoreConfig \<Rightarrow> nat \<Rightarrow> string \<Rightarrow> string \<Rightarrow> (string \<Rightarrow> string \<Rightarrow> 'a \<Rightarrow> err + 'a) \<Rightarrow> 'a \<Rightarrow> 'r \<Rightarrow>
    ('a result \<times> 'r) option" where
  "subMapScan api sc fuel sk mapName op acc r = scan_loop api sc sk (nestedEntryKeyPrefix mapName @ ''*'') op fuel 0 acc r"

definition TrimPrefix :: "string \<Rightarrow> string \<Rightarrow> string" where
  "TrimPrefix s p = (if take (length p) s = p then drop (length p) s else s)"

text \<open>The closures of the four operations.\<close>

definition op_collect :: "string \<Rightarrow> string \<Rightarrow> string list \<Rightarrow> err + string list" where
  "op_collect k v acc = Inr (acc @ [k])"

definition op_keys :: "string \<Rightarrow> string \<Rightarrow> string \<Rightarrow> string list \<Rightarrow> err + string list" where
  "op_keys mapName k v acc = Inr (acc @ [TrimPrefix k (nestedEntryKeyPrefix mapName)])"

definition op_get ::
  "('r, 'p) state_env \<Rightarrow> string \<Rightarrow> string \<Rightarrow> string \<Rightarrow> (string, jval) gomap \<Rightarrow> err + (string, jval) gomap" where
  "op_get st mapName k v acc =
     (if v \<noteq> '''' then
        (case st_unmarshal st v of
           Inl _ \<Rightarrow> Inl (ErrMsg (''Failed to deserialize submap value: '' @ v))
         | Inr x \<Rightarrow> Inr (mput (TrimPrefix k (nestedEntryKeyPrefix mapName)) x acc))
      else Inr acc)"

definition op_size :: "string \<Rightarrow> string \<Rightarrow> int \<Rightarrow> err + int" where
  "op_size k v acc = Inr (acc + 1)"

text \<open>How an operation ends: an answer to encode, or a response.\<close>

definition scanned :: "('r, 'p) state_env \<Rightarrow> string \<Rightarrow> ('a \<Rightarrow> jval) \<Rightarrow> ('a result \<times> 'r) option \<Rightarrow> ((http_resp + jval) result \<times> 'r) option" where
  "scanned st name f x =
     (case x of
        None \<Rightarrow> None
      | Some (Panicked, r) \<Rightarrow> Some (Panicked, r)
      | Some (Error e, r) \<Rightarrow> Some (Ok (Inl (http_Error (''submapOps:'' @ name @ '': subMapScan failed: '' @ st_text st e) 500)), r)
      | Some (Ok a, r) \<Rightarrow> Some (Ok (Inr (f a)), r))"

definition submap_clear :: "('r, 'p) state_env \<Rightarrow> nat \<Rightarrow> string \<Rightarrow> string \<Rightarrow> 'r \<Rightarrow> ((http_resp + jval) result \<times> 'r) option" where
  "submap_clear st fuel sk mapName r =
     (case subMapScan (st_api st) (st_sc st) fuel sk mapName op_collect [] r of
        Some (Ok mapKeys, r1) \<Rightarrow>
          (case HDelMultiple (st_api st) (st_sc st) sk mapKeys r1 of
             (Panicked, r2) \<Rightarrow> Some (Panicked, r2)
           | (Error e, r2) \<Rightarrow> Some (Ok (Inl (http_Error (''submapOps: HDEL failed  '' @ st_text st e) 500)), r2)
           | (Ok n, r2) \<Rightarrow> Some (Ok (Inr (JInt n)), r2))
      | x \<Rightarrow> scanned st ''clear'' (\<lambda>_. JNull) x)"

definition submap_op :: "('r, 'p) state_env \<Rightarrow> nat \<Rightarrow> string \<Rightarrow> string \<Rightarrow> string \<Rightarrow> 'r \<Rightarrow> ((http_resp + jval) result \<times> 'r) option" where
  "submap_op st fuel sk mapName op r =
     (if op = ''clear'' then submap_clear st fuel sk mapName r
      else if op = ''get'' then
        scanned st ''get'' JObj (subMapScan (st_api st) (st_sc st) fuel sk mapName (op_get st mapName) [] r)
      else if op = ''keys'' then
        scanned st ''keys'' (\<lambda>ks. JArr (map JStr ks)) (subMapScan (st_api st) (st_sc st) fuel sk mapName (op_keys mapName) [] r)
      else if op = ''size'' then
        scanned st ''size'' JInt (subMapScan (st_api st) (st_sc st) fuel sk mapName op_size 0 r)
      else Some (Ok (Inl (http_Error (''Unsupported map operation '' @ op) 400)), r))"

definition routeImplSubmapOps :: "('r, 'p) state_env \<Rightarrow> nat \<Rightarrow> state_req \<Rightarrow> 'r \<Rightarrow> (http_resp result \<times> 'r) option" where
  "routeImplSubmapOps st fuel q r =
     (case st_unop st (rq_body q) of
        Inl _ \<Rightarrow> Some (Ok (http_Error ''Request body was not a MapOp'' 400), r)
      | Inr op \<Rightarrow>
          (case submap_op st fuel (stateKey (p_type q) (p_id q)) (p_key q) op r of
             None \<Rightarrow> None
           | Some (Panicked, r') \<Rightarrow> Some (Panicked, r')
           | Some (Error e, r') \<Rightarrow> Some (Error e, r')
           | Some (Ok (Inl resp), r') \<Rightarrow> Some (Ok resp, r')
           | Some (Ok (Inr v), r') \<Rightarrow>
               (case st_marshal st v of
                  Inl e \<Rightarrow> Some (Ok (http_Error (''mapOps: error marshalling response '' @ st_text st e) 500), r')
                | Inr buf \<Rightarrow> Some (Ok (http_json buf), r'))))"

section \<open>The whole state\<close>

text \<open>
  \<^verbatim>\<open>SplitN(i, Separator, 2)\<close>: the parts before and after the first separator; indexing the second part panics when there
  is no separator.
\<close>

fun split2 :: "string \<Rightarrow> string \<times> string option" where
  "split2 [] = ([], None)"
| "split2 (x # xs) = (if x = Separator then ([], Some xs) else (case split2 xs of (a, b) \<Rightarrow> (x # a, b)))"

text \<open>A value that does not decode is left nil; the entries of a nested map go to the map at its name.\<close>

definition state_value :: "('r, 'p) state_env \<Rightarrow> string \<Rightarrow> jval" where
  "state_value st s = (case st_unmarshal st s of Inl _ \<Rightarrow> JNull | Inr v \<Rightarrow> v)"

definition add_entry :: "string \<Rightarrow> jval \<Rightarrow> (string, jval) gomap \<Rightarrow> (string, jval) gomap result" where
  "add_entry field v m =
     (case split2 field of
        (key, None) \<Rightarrow> Panicked
      | (key, Some subkey) \<Rightarrow>
          if subkey = [Separator] then Ok (mput key v m)
          else let m1 = (if mget JNull m key = JNull then mput key (JObj []) m else m)
               in case mget JNull m1 key of
                    JObj inner \<Rightarrow> Ok (mput key (JObj (mput subkey v inner)) m1)
                  | _ \<Rightarrow> Panicked)"

fun all_entries :: "('r, 'p) state_env \<Rightarrow> (string, string) gomap \<Rightarrow> (string, jval) gomap \<Rightarrow> (string, jval) gomap result" where
  "all_entries st [] m = Ok m"
| "all_entries st ((i, s) # rest) m =
     (case add_entry i (state_value st s) m of
        Ok m' \<Rightarrow> all_entries st rest m'
      | Error e \<Rightarrow> Error e
      | Panicked \<Rightarrow> Panicked)"

definition actorGetAllState ::
  "('r, 'p) state_env \<Rightarrow> string \<Rightarrow> string \<Rightarrow> 'r \<Rightarrow> (string, jval) gomap result \<times> 'r" where
  "actorGetAllState st t i r =
     (case HGetAll (st_api st) (st_sc st) (stateKey t i) r of
        (Panicked, r') \<Rightarrow> (Panicked, r')
      | (Error e, r') \<Rightarrow> (Error e, r')
      | (Ok reply, r') \<Rightarrow> (all_entries st (rng_fields st reply) [], r'))"

definition routeImplGetAll :: "('r, 'p) state_env \<Rightarrow> state_req \<Rightarrow> 'r \<Rightarrow> http_resp result \<times> 'r" where
  "routeImplGetAll st q r =
     (case actorGetAllState st (p_type q) (p_id q) r of
        (Panicked, r') \<Rightarrow> (Panicked, r')
      | (Error e, r') \<Rightarrow> (Ok (http_Error (''actorGetAllState failed: '' @ st_text st e) 500), r')
      | (Ok m, r') \<Rightarrow> (Ok (http_json (case st_marshal st (JObj m) of Inl _ \<Rightarrow> '''' | Inr b \<Rightarrow> b)), r'))"

section \<open>Updates\<close>

definition to_clear :: "('r, 'p) state_env \<Rightarrow> stateUpdateOp \<Rightarrow> string list" where
  "to_clear st op =
     map flatEntryKey (Removals op) @
     concat (map (\<lambda>(mapName, ks). map (nestedEntryKey mapName) ks) (rng_removals st (SubmapRemovals op)))"

text \<open>The fields to write, or the message of the 400 response (without the text of the value); \<open>name k\<close> is how it names the entry.\<close>

fun encode_entries ::
  "('r, 'p) state_env \<Rightarrow> (string \<Rightarrow> string) \<Rightarrow> (string \<Rightarrow> string) \<Rightarrow> (string, jval) gomap \<Rightarrow> (string, string) gomap \<Rightarrow>
    string + (string, string) gomap" where
  "encode_entries st name field [] m = Inr m"
| "encode_entries st name field ((k, v) # rest) m =
     (case st_marshal st v of
        Inl e \<Rightarrow> Inl (''StateUpdate: malformed update '' @ name k @ ''. Error was '' @ st_text st e)
      | Inr s \<Rightarrow> encode_entries st name field rest (mput (field k) s m))"

fun encode_maps ::
  "('r, 'p) state_env \<Rightarrow> string \<Rightarrow> (string, (string, jval) gomap) gomap \<Rightarrow> (string, string) gomap \<Rightarrow>
    string + (string, string) gomap" where
  "encode_maps st sk [] m = Inr m"
| "encode_maps st sk ((mapName, updates) # rest) m =
     (case encode_entries st (\<lambda>k. sk @ ''['' @ mapName @ ''][''  @ k @ '']'') (nestedEntryKey mapName) (rng_values st updates) m of
        Inl msg \<Rightarrow> Inl msg
      | Inr m' \<Rightarrow> encode_maps st sk rest m')"

definition to_update :: "('r, 'p) state_env \<Rightarrow> string \<Rightarrow> stateUpdateOp \<Rightarrow> string + (string, string) gomap" where
  "to_update st sk op =
     (case encode_entries st (\<lambda>k. sk @ ''['' @ k @ '']'') flatEntryKey (rng_values st (Updates op)) [] of
        Inl msg \<Rightarrow> Inl msg
      | Inr m \<Rightarrow> encode_maps st sk (rng_maps st (SubmapUpdates op)) m)"

definition update_reply :: "('r, 'p) state_env \<Rightarrow> int \<Rightarrow> int \<Rightarrow> http_resp" where
  "update_reply st numCleared numAdded =
     (case st_marshal st (JObj [(''removed'', JInt numCleared), (''added'', JInt numAdded)]) of
        Inl e \<Rightarrow> http_Error (''StateUpdate: error marshalling response '' @ st_text st e) 500
      | Inr buf \<Rightarrow> http_json buf)"

text \<open>The removals and then the updates; either is left out when there is nothing to do.\<close>

definition apply_update ::
  "('r, 'p) state_env \<Rightarrow> string \<Rightarrow> string list \<Rightarrow> (string, string) gomap \<Rightarrow> 'r \<Rightarrow> http_resp result \<times> 'r" where
  "apply_update st sk clear upd r =
     (case (if length clear > 0 then HDelMultiple (st_api st) (st_sc st) sk clear r else (Ok 0, r)) of
        (Panicked, r1) \<Rightarrow> (Panicked, r1)
      | (Error e, r1) \<Rightarrow> (Ok (http_Error (''StateUpate: HDEL failed  '' @ st_text st e) 500), r1)
      | (Ok numCleared, r1) \<Rightarrow>
          (case (if length upd > 0 then HSetMultiple (st_api st) (st_sc st) (rng_fields st) sk upd r1 else (Ok 0, r1)) of
             (Panicked, r2) \<Rightarrow> (Panicked, r2)
           | (Error e, r2) \<Rightarrow> (Ok (http_Error (''StateUpate: HSET failed  '' @ st_text st e) 500), r2)
           | (Ok numAdded, r2) \<Rightarrow> (Ok (update_reply st numCleared numAdded), r2)))"

definition routeImplStateUpdate :: "('r, 'p) state_env \<Rightarrow> state_req \<Rightarrow> 'r \<Rightarrow> http_resp result \<times> 'r" where
  "routeImplStateUpdate st q r =
     (case st_unupdate st (rq_body q) of
        Inl _ \<Rightarrow> (Ok (http_Error ''Request body was not a StateUpdateOp'' 400), r)
      | Inr op \<Rightarrow>
          (case to_update st (stateKey (p_type q) (p_id q)) op of
             Inl msg \<Rightarrow> (Ok (http_Error msg 400), r)
           | Inr upd \<Rightarrow> apply_update st (stateKey (p_type q) (p_id q)) (to_clear st op) upd r))"

section \<open>Entries of a state\<close>

text \<open>A name that does not contain the separator; every field is the flat or the nested key of exactly one entry of such a name.\<close>

definition clean :: "string \<Rightarrow> bool" where
  "clean k \<longleftrightarrow> Separator \<notin> set k"

lemma key_inj: "clean k \<Longrightarrow> clean k' \<Longrightarrow> k @ Separator # a = k' @ Separator # b \<longleftrightarrow> k = k' \<and> a = b"
proof (induction k arbitrary: k')
  case Nil
  then show ?case
    by (cases k') (auto simp: clean_def)
next
  case (Cons x k)
  then show ?case
    by (cases k') (auto simp: clean_def)
qed

lemma entry_keys [simp]:
  assumes "clean k" "clean k'"
  shows "flatEntryKey k = flatEntryKey k' \<longleftrightarrow> k = k'"
    "nestedEntryKey k s = nestedEntryKey k' s' \<longleftrightarrow> k = k' \<and> s = s'"
    "flatEntryKey k = nestedEntryKey k' s \<longleftrightarrow> k = k' \<and> s = [Separator]"
    "nestedEntryKey k s = flatEntryKey k' \<longleftrightarrow> k = k' \<and> s = [Separator]"
  using key_inj [OF assms] by (auto simp: flatEntryKey_def nestedEntryKey_def)

lemma split2_Some: "split2 f = (k, Some s) \<Longrightarrow> clean k \<and> f = nestedEntryKey k s"
  by (induction f arbitrary: k) (auto simp: clean_def nestedEntryKey_def split: if_splits prod.splits)

lemma split2_None: "split2 f = (k, None) \<Longrightarrow> Separator \<notin> set f"
  by (induction f arbitrary: k) (auto split: if_splits prod.splits)

section \<open>Reading the whole state\<close>

definition nested_in :: "(string \<rightharpoonup> string) \<Rightarrow> string \<Rightarrow> bool" where
  "nested_in h k \<longleftrightarrow> (\<exists>s. s \<noteq> [Separator] \<and> h (nestedEntryKey k s) \<noteq> None)"

text \<open>What an entry of the answer is, from the fields of the hash.\<close>

definition describes :: "('r, 'p) state_env \<Rightarrow> (string \<rightharpoonup> string) \<Rightarrow> string \<Rightarrow> jval option \<Rightarrow> bool" where
  "describes st h k v \<longleftrightarrow>
     (case h (flatEntryKey k) of
        Some s \<Rightarrow> v = Some (state_value st s)
      | None \<Rightarrow>
          if nested_in h k then
            \<exists>inner. v = Some (JObj inner) \<and>
              map_of inner = (\<lambda>s. if s = [Separator] then None else map_option (state_value st) (h (nestedEntryKey k s)))
          else v = None)"

definition separate :: "(string \<rightharpoonup> string) \<Rightarrow> bool" where
  "separate h \<longleftrightarrow> (\<forall>f \<in> dom h. Separator \<in> set f) \<and> (\<forall>k. clean k \<longrightarrow> h (flatEntryKey k) = None \<or> \<not> nested_in h k)"

lemma all_entries_append:
  "all_entries st (xs @ ys) m = (case all_entries st xs m of Ok m' \<Rightarrow> all_entries st ys m' | Error e \<Rightarrow> Error e | Panicked \<Rightarrow> Panicked)"
  by (induction st xs m rule: all_entries.induct) (simp_all split: result.split)

text \<open>One more field.\<close>

lemma describes_other:
  assumes "clean k" "clean k'" "k' \<noteq> k" "describes st h k' v"
  shows "describes st (h(nestedEntryKey k s \<mapsto> x)) k' v"
proof -
  have "nested_in (h(nestedEntryKey k s \<mapsto> x)) k' = nested_in h k'"
    using assms(1-3) by (simp add: nested_in_def)
  moreover have "(h(nestedEntryKey k s \<mapsto> x)) (flatEntryKey k') = h (flatEntryKey k')"
    "(h(nestedEntryKey k s \<mapsto> x)) (nestedEntryKey k' s') = h (nestedEntryKey k' s')" for s'
    using assms(1-3) by simp_all
  ultimately show ?thesis
    using assms(4) unfolding describes_def by presburger
qed

lemma describes_nested:
  "h (flatEntryKey k) = None \<Longrightarrow> describes st h k v \<longleftrightarrow>
     (if nested_in h k then
        \<exists>inner. v = Some (JObj inner) \<and>
          map_of inner = (\<lambda>s. if s = [Separator] then None else map_option (state_value st) (h (nestedEntryKey k s)))
      else v = None)"
  by (simp add: describes_def)

lemma add_entry_describes:
  assumes "\<forall>k. clean k \<longrightarrow> describes st h k (map_of m k)" "h f = None" "separate (h(f \<mapsto> x))"
  shows "\<exists>m'. add_entry f (state_value st x) m = Ok m' \<and> (\<forall>k. clean k \<longrightarrow> describes st (h(f \<mapsto> x)) k (map_of m' k))"
proof -
  have "Separator \<in> set f"
    using assms(3) by (simp add: separate_def)
  then obtain k s where sp: "split2 f = (k, Some s)"
    using split2_None by (metis not_Some_eq surj_pair)
  then have k: "clean k" and f: "f = nestedEntryKey k s"
    using split2_Some by simp_all
  show ?thesis
  proof (cases "s = [Separator]")
    case True
    then have f': "f = flatEntryKey k"
      using f by (simp add: flatEntryKey_def nestedEntryKey_def)
    have "describes st (h(f \<mapsto> x)) k (Some (state_value st x))"
      by (simp add: describes_def f')
    then show ?thesis
      using sp True assms(1) describes_other [OF k, of _ st h] by (auto simp: add_entry_def f)
  next
    case False
    define m1 where "m1 = (if mget JNull m k = JNull then mput k (JObj []) m else m)"
    have flat: "h (flatEntryKey k) = None"
    proof -
      have "nested_in (h(f \<mapsto> x)) k"
        using False by (auto simp: nested_in_def f intro!: exI [of _ s])
      then show ?thesis
        using assms(3) k by (auto simp: separate_def split: if_splits)
    qed
    then obtain inner where inner: "map_of m1 k = Some (JObj inner)"
      "map_of inner = (\<lambda>s. if s = [Separator] then None else map_option (state_value st) (h (nestedEntryKey k s)))"
    proof (cases "nested_in h k")
      case True
      then show thesis
        using describes_nested [of h k st "map_of m k"] flat assms(1) k that by (auto simp: m1_def mget_def)
    next
      case no: False
      then have "map_of [] = (\<lambda>s. if s = [Separator] then None else map_option (state_value st) (h (nestedEntryKey k s)))"
        by (auto simp: nested_in_def fun_eq_iff)
      moreover have "map_of m1 k = Some (JObj [])"
        using describes_nested [of h k st "map_of m k"] assms(1) k flat no by (simp add: m1_def mget_def)
      ultimately show thesis
        using that by blast
    qed
    have "describes st (h(f \<mapsto> x)) k (Some (JObj (mput s (state_value st x) inner)))"
      using False flat k inner(2) by (auto simp: describes_nested f nested_in_def fun_eq_iff)
    moreover have "map_of m1 k' = map_of m k'" if "k' \<noteq> k" for k'
      using that by (simp add: m1_def)
    moreover have "add_entry f (state_value st x) m = Ok (mput k (JObj (mput s (state_value st x) inner)) m1)"
      unfolding add_entry_def sp prod.case option.case Let_def m1_def [symmetric]
      using False inner(1) by (simp add: mget_def)
    ultimately show ?thesis
      using assms(1) describes_other [OF k, of _ st h] by (auto simp: f)
  qed
qed

lemma map_of_snoc:
  assumes "wf_map (xs @ [(f, x)])"
  shows "map_of (xs @ [(f, x)]) = (map_of xs)(f \<mapsto> x)"
proof -
  have "map_of xs f = None"
    using assms by (simp add: wf_map_def map_of_eq_None_iff)
  then show ?thesis
    by (auto simp: fun_eq_iff map_add_def split: option.splits)
qed

lemma separate_less:
  assumes "separate (h(f \<mapsto> x))" "h f = None"
  shows "separate h"
proof -
  have ge: "(h(f \<mapsto> x)) g \<noteq> None" if "h g \<noteq> None" for g
    using that by simp
  have "h (flatEntryKey k) = None \<or> \<not> nested_in h k" if "clean k" for k
    using assms(1) that ge unfolding separate_def nested_in_def by blast
  moreover have "Separator \<in> set g" if "g \<in> dom h" for g
    using assms(1) that by (auto simp: separate_def)
  ultimately show ?thesis
    by (simp add: separate_def)
qed

lemma all_entries_describes:
  "wf_map xs \<Longrightarrow> separate (map_of xs) \<Longrightarrow>
    \<exists>m. all_entries st xs [] = Ok m \<and> (\<forall>k. clean k \<longrightarrow> describes st (map_of xs) k (map_of m k))"
proof (induction xs rule: rev_induct)
  case (snoc p xs)
  obtain f x where p: "p = (f, x)"
    by fastforce
  have f: "map_of (xs @ [p]) = (map_of xs)(f \<mapsto> x)" "map_of xs f = None" "wf_map xs"
    using snoc.prems(1) map_of_snoc [of xs f x] by (auto simp: p wf_map_def map_of_eq_None_iff)
  then have "separate (map_of xs)"
    using separate_less snoc.prems(2) by metis
  with snoc.IH f(3) obtain m where m: "all_entries st xs [] = Ok m" "\<forall>k. clean k \<longrightarrow> describes st (map_of xs) k (map_of m k)"
    by blast
  obtain m' where "add_entry f (state_value st x) m = Ok m'" "\<forall>k. clean k \<longrightarrow> describes st (map_of (xs @ [p])) k (map_of m' k)"
    using add_entry_describes [OF m(2) f(2), of x] snoc.prems(2) unfolding f(1) by blast
  then show ?case
    using m(1) by (intro exI [of _ m']) (simp add: all_entries_append p)
qed (auto simp: describes_def nested_in_def)

section \<open>Properties\<close>

context redis
begin

lemma HGetAll_Ok:
  assumes "HGetAll api sc key r = (Ok m, r')"
  shows "view r' = view r \<and> wf_map m \<and> map_of m = hash_at (view r) (MangleKey sc key)"
  using assms by (auto simp: HGetAll_def do_cmd_def conv_Ok elim!: doRaw_Ok dest!: HGETALL)

lemma HDelMultiple_Ok:
  assumes "ks \<noteq> []" "HDelMultiple api sc key ks r = (Ok n, r')"
  shows "view r' = put_hash (view r) (MangleKey sc key) (hash_at (view r) (MangleKey sc key) |` (- set ks)) \<and>
    n = int (card (set ks \<inter> dom (hash_at (view r) (MangleKey sc key))))"
  using assms by (auto simp: HDelMultiple_def do_cmd_def conv_Ok elim!: doRaw_Ok dest!: HDEL)

lemma HSetMultiple_Ok:
  assumes "m \<noteq> []" "wf_map m" "range_order rng" "HSetMultiple api sc rng key m r = (Ok n, r')"
  shows "view r' = put_hash (view r) (MangleKey sc key) (hash_at (view r) (MangleKey sc key) ++ map_of m) \<and>
    n = int (card (dom (map_of m) - dom (hash_at (view r) (MangleKey sc key))))"
proof -
  have ne: "rng m \<noteq> []" and wf: "wf_map (rng m)"
    using assms(1-3) range_order_length [OF assms(3), of m] by (auto simp: range_order_wf)
  have rev: "map_of (rev (rng m)) = map_of m"
    using mset_eq_map_of [of "rng m" "rev (rng m)"] range_order_map_of [OF assms(3,2)] wf by simp
  have keys: "set (keys (rng m)) = dom (map_of m)"
    using range_order_set [OF assms(3), of m] by (simp add: dom_map_of_conv_image_fst)
  show ?thesis
    using assms(1,4) keys rev
    by (auto simp: HSetMultiple_def do_cmd_def conv_Ok elim!: doRaw_Ok dest!: HSET [OF ne])
qed

end


section \<open>Lemmas on updates\<close>

definition marshalled :: "('r, 'p) state_env \<Rightarrow> jval \<Rightarrow> string" where
  "marshalled st v = (case st_marshal st v of Inl _ \<Rightarrow> '''' | Inr s \<Rightarrow> s)"

definition flat_fields :: "('r, 'p) state_env \<Rightarrow> (string \<Rightarrow> string) \<Rightarrow> (string, jval) gomap \<Rightarrow> (string \<times> string) list" where
  "flat_fields st field xs = map (\<lambda>(k, v). (field k, marshalled st v)) xs"

definition map_fields :: "('r, 'p) state_env \<Rightarrow> (string, (string, jval) gomap) gomap \<Rightarrow> (string \<times> string) list" where
  "map_fields st xs = concat (map (\<lambda>(n, us). flat_fields st (nestedEntryKey n) (rng_values st us)) xs)"

lemma encode_entries_fields:
  "encode_entries st name field xs m = Inr m' \<Longrightarrow> wf_map m \<Longrightarrow>
    wf_map m' \<and> map_of m' = map_of m ++ map_of (rev (flat_fields st field xs))"
proof (induction st name field xs m rule: encode_entries.induct)
  case (2 st name field k v rest m)
  then obtain s where s: "st_marshal st v = Inr s" "encode_entries st name field rest (mput (field k) s m) = Inr m'"
    by (auto split: sum.splits)
  then show ?case
    using 2(1) [OF s] 2(3) by (auto simp: flat_fields_def marshalled_def wf_map_mput fun_eq_iff map_add_def split: option.splits)
qed (simp add: flat_fields_def)

lemma encode_maps_fields:
  "encode_maps st sk xs m = Inr m' \<Longrightarrow> wf_map m \<Longrightarrow> wf_map m' \<and> map_of m' = map_of m ++ map_of (rev (map_fields st xs))"
proof (induction st sk xs m rule: encode_maps.induct)
  case (2 st sk n us rest m)
  then obtain m1 where m1: "encode_entries st (\<lambda>k. sk @ ''['' @ n @ ''][''  @ k @ '']'') (nestedEntryKey n) (rng_values st us) m = Inr m1"
    "encode_maps st sk rest m1 = Inr m'"
    by (auto split: sum.splits)
  show ?case
    using 2(1) [OF m1] encode_entries_fields [OF m1(1) 2(3)] by (simp add: map_fields_def)
qed (simp add: map_fields_def)

lemma to_update_fields:
  "to_update st sk op = Inr m \<Longrightarrow>
    wf_map m \<and> map_of m = map_of (rev (flat_fields st flatEntryKey (rng_values st (Updates op)) @ map_fields st (rng_maps st (SubmapUpdates op))))"
proof -
  assume "to_update st sk op = Inr m"
  then obtain m1 where m1: "encode_entries st (\<lambda>k. sk @ ''['' @ k @ '']'') flatEntryKey (rng_values st (Updates op)) [] = Inr m1"
    "encode_maps st sk (rng_maps st (SubmapUpdates op)) m1 = Inr m"
    by (auto simp: to_update_def split: sum.splits)
  show ?thesis
    using encode_entries_fields [OF m1(1)] encode_maps_fields [OF m1(2)] by simp
qed

text \<open>An operation whose names do not contain the separator.\<close>

definition clean_op :: "stateUpdateOp \<Rightarrow> bool" where
  "clean_op op \<longleftrightarrow>
     list_all (\<lambda>(k, v). clean k) (Updates op) \<and> list_all clean (Removals op) \<and>
     list_all (\<lambda>(n, us). clean n \<and> list_all (\<lambda>(k, v). k \<noteq> [Separator]) us \<and> wf_map us) (SubmapUpdates op) \<and>
     list_all (\<lambda>(n, ks). clean n \<and> list_all (\<lambda>k. k \<noteq> [Separator]) ks) (SubmapRemovals op) \<and>
     wf_map (Updates op) \<and> wf_map (SubmapUpdates op) \<and> wf_map (SubmapRemovals op)"

text \<open>What an entry becomes: \<open>u\<close> is its new value, if any.\<close>

definition updated :: "('r, 'p) state_env \<Rightarrow> jval option \<Rightarrow> bool \<Rightarrow> string option \<Rightarrow> string option" where
  "updated st u removed old = (case u of Some v \<Rightarrow> Some (marshalled st v) | None \<Rightarrow> if removed then None else old)"

lemma map_of_single:
  assumes "\<And>v. (f, v) \<in> set L \<longleftrightarrow> u = Some v"
  shows "map_of (rev L) f = u"
proof (cases u)
  case None
  then show ?thesis
    using assms by (auto simp: map_of_eq_None_iff)
next
  case (Some v)
  then have "f \<in> fst ` set (rev L)"
    using assms by force
  then obtain v' where "map_of (rev L) f = Some v'"
    by (metis map_of_eq_None_iff not_Some_eq)
  then show ?thesis
    using assms map_of_SomeD [of "rev L" f v'] by simp
qed

lemma in_flat_fields:
  "(f, s) \<in> set (flat_fields st field xs) \<longleftrightarrow> (\<exists>k v. (k, v) \<in> set xs \<and> f = field k \<and> s = marshalled st v)"
  by (auto simp: flat_fields_def)

lemma in_map_fields:
  assumes "range_order (rng_values st)"
  shows "(f, s) \<in> set (map_fields st xs) \<longleftrightarrow>
    (\<exists>n us k v. (n, us) \<in> set xs \<and> (k, v) \<in> set us \<and> f = nestedEntryKey n k \<and> s = marshalled st v)"
proof -
  have "(f, s) \<in> set (map_fields st xs) \<longleftrightarrow> (\<exists>p \<in> set xs. (f, s) \<in> set (flat_fields st (nestedEntryKey (fst p)) (rng_values st (snd p))))"
    by (simp add: map_fields_def case_prod_unfold)
  then show ?thesis
    by (simp only: in_flat_fields range_order_set [OF assms] Bex_def split_paired_Ex fst_conv snd_conv) blast
qed

lemma clean_opD:
  assumes "clean_op op"
  shows "(k, v) \<in> set (Updates op) \<Longrightarrow> clean k"
    "(n, us) \<in> set (SubmapUpdates op) \<Longrightarrow> clean n \<and> wf_map us"
    "(n, us) \<in> set (SubmapUpdates op) \<Longrightarrow> (k, v) \<in> set us \<Longrightarrow> k \<noteq> [Separator]"
    "k \<in> set (Removals op) \<Longrightarrow> clean k"
    "(n, ks) \<in> set (SubmapRemovals op) \<Longrightarrow> clean n"
    "(n, ks) \<in> set (SubmapRemovals op) \<Longrightarrow> k \<in> set ks \<Longrightarrow> k \<noteq> [Separator]"
  using assms unfolding clean_op_def list_all_iff by blast+

lemma flat_field_iff:
  assumes "clean_op op" "clean k" "range_order (rng_values st)" "range_order (rng_maps st)"
  shows "(flatEntryKey k, s) \<in> set (flat_fields st flatEntryKey (rng_values st (Updates op)) @ map_fields st (rng_maps st (SubmapUpdates op)))
    \<longleftrightarrow> map_option (marshalled st) (map_of (Updates op) k) = Some s"
proof -
  have set: "set (rng_values st xs) = set xs" "set (rng_maps st ys) = set ys" for xs ys
    using assms(3,4) by (simp_all add: range_order_set)
  have "(flatEntryKey k, s) \<notin> set (map_fields st (rng_maps st (SubmapUpdates op)))"
    unfolding in_map_fields [OF assms(3)] set using assms(2) clean_opD(2,3) [OF assms(1)] by (metis entry_keys(3))
  moreover have "(flatEntryKey k, s) \<in> set (flat_fields st flatEntryKey (rng_values st (Updates op))) \<longleftrightarrow>
      (\<exists>v. (k, v) \<in> set (Updates op) \<and> s = marshalled st v)"
    unfolding in_flat_fields set using assms(2) clean_opD(1) [OF assms(1)] by (metis entry_keys(1))
  ultimately show ?thesis
    using assms(1) by (auto simp: clean_op_def wf_map_map_of)
qed

lemma nested_field_iff:
  assumes "clean_op op" "clean n" "k \<noteq> [Separator]" "range_order (rng_values st)" "range_order (rng_maps st)"
  shows "(nestedEntryKey n k, s) \<in> set (flat_fields st flatEntryKey (rng_values st (Updates op)) @ map_fields st (rng_maps st (SubmapUpdates op)))
    \<longleftrightarrow> map_option (marshalled st) (map_of (mget [] (SubmapUpdates op) n) k) = Some s"
proof -
  have set: "set (rng_values st xs) = set xs" "set (rng_maps st ys) = set ys" for xs ys
    using assms(4,5) by (simp_all add: range_order_set)
  have flat: "(nestedEntryKey n k, s) \<notin> set (flat_fields st flatEntryKey (rng_values st (Updates op)))"
    unfolding in_flat_fields set using assms(2,3) clean_opD(1) [OF assms(1)] by (metis entry_keys(4))
  have nested: "(nestedEntryKey n k, s) \<in> set (map_fields st (rng_maps st (SubmapUpdates op))) \<longleftrightarrow>
      (\<exists>us v. (n, us) \<in> set (SubmapUpdates op) \<and> (k, v) \<in> set us \<and> s = marshalled st v)"
    unfolding in_map_fields [OF assms(4)] set
  proof (intro iffI; elim exE conjE)
    fix n' us k' v
    assume h: "(n', us) \<in> set (SubmapUpdates op)" "(k', v) \<in> set us" "nestedEntryKey n k = nestedEntryKey n' k'" "s = marshalled st v"
    then have "n' = n" "k' = k"
      using clean_opD(2) [OF assms(1) h(1)] assms(2) by simp_all
    with h show "\<exists>us v. (n, us) \<in> set (SubmapUpdates op) \<and> (k, v) \<in> set us \<and> s = marshalled st v"
      by blast
  qed blast
  have eq: "(\<exists>us v. (n, us) \<in> set (SubmapUpdates op) \<and> (k, v) \<in> set us \<and> s = marshalled st v) \<longleftrightarrow>
     (\<exists>us v. map_of (SubmapUpdates op) n = Some us \<and> map_of us k = Some v \<and> s = marshalled st v)"
  proof -
    have "wf_map (SubmapUpdates op)"
      using assms(1) by (simp add: clean_op_def)
    then have eq: "(n, us) \<in> set (SubmapUpdates op) \<longleftrightarrow> map_of (SubmapUpdates op) n = Some us" for us
      by (rule wf_map_map_of)
    have "(k, v) \<in> set us \<longleftrightarrow> map_of us k = Some v" if "map_of (SubmapUpdates op) n = Some us" for us v
      using clean_opD(2) [OF assms(1), of n us] that eq by (simp add: wf_map_map_of)
    then show ?thesis
      unfolding eq by blast
  qed
  have "map_option (marshalled st) (map_of (mget [] (SubmapUpdates op) n) k) = Some s \<longleftrightarrow>
      (\<exists>us v. map_of (SubmapUpdates op) n = Some us \<and> map_of us k = Some v \<and> s = marshalled st v)"
    by (cases "map_of (SubmapUpdates op) n") (auto simp: mget_def)
  then show ?thesis
    using flat nested eq by (simp only: set_append Un_iff simp_thms)
qed

lemma in_to_clear:
  assumes "clean_op op" "clean n" "range_order (rng_removals st)"
  shows "flatEntryKey n \<in> set (to_clear st op) \<longleftrightarrow> n \<in> set (Removals op)"
    and "s \<noteq> [Separator] \<Longrightarrow> nestedEntryKey n s \<in> set (to_clear st op) \<longleftrightarrow> s \<in> set (mget [] (SubmapRemovals op) n)"
proof -
  have set: "f \<in> set (to_clear st op) \<longleftrightarrow> (\<exists>k \<in> set (Removals op). f = flatEntryKey k) \<or>
      (\<exists>n' ks s'. (n', ks) \<in> set (SubmapRemovals op) \<and> s' \<in> set ks \<and> f = nestedEntryKey n' s')" for f
    by (fastforce simp: to_clear_def range_order_set [OF assms(3)])
  have wf: "wf_map (SubmapRemovals op)"
    using assms(1) by (simp add: clean_op_def)
  show "flatEntryKey n \<in> set (to_clear st op) \<longleftrightarrow> n \<in> set (Removals op)"
    unfolding set using clean_opD(4-6) [OF assms(1)] assms(2) by (metis entry_keys(1,3))
  have "nestedEntryKey n s \<in> set (to_clear st op) \<longleftrightarrow> (\<exists>ks. (n, ks) \<in> set (SubmapRemovals op) \<and> s \<in> set ks)" if "s \<noteq> [Separator]"
    unfolding set using clean_opD(4,5) [OF assms(1)] assms(2) that by (metis entry_keys(2,4))
  then show "nestedEntryKey n s \<in> set (to_clear st op) \<longleftrightarrow> s \<in> set (mget [] (SubmapRemovals op) n)" if "s \<noteq> [Separator]"
    using that wf by (cases "map_of (SubmapRemovals op) n") (auto simp: mget_def wf_map_map_of)
qed

context redis
begin

lemma apply_update_hash:
  assumes "apply_update st sk cl upd r = (Ok resp, r')" "hr_code resp = 200" "wf_map upd" "range_order (rng_fields st)" "st_api st = api"
  defines "K \<equiv> MangleKey (st_sc st) sk"
  shows "hash_at (view r') K = (hash_at (view r) K |` (- set cl)) ++ map_of upd \<and> (\<forall>k. k \<noteq> K \<longrightarrow> view r' k = view r k)"
proof -
  obtain nc r1 na where del: "(if length cl > 0 then HDelMultiple api (st_sc st) sk cl r else (Ok 0, r)) = (Ok nc, r1)"
    and upd: "(if length upd > 0 then HSetMultiple api (st_sc st) (rng_fields st) sk upd r1 else (Ok 0, r1)) = (Ok na, r')"
    using assms(1,2,5) by (auto simp: apply_update_def http_Error_def split: prod.splits result.splits)
  have r1: "hash_at (view r1) K = hash_at (view r) K |` (- set cl)" "\<forall>k. k \<noteq> K \<longrightarrow> view r1 k = view r k"
    using del HDelMultiple_Ok [of cl "st_sc st" sk r nc r1] by (auto simp: K_def put_hash_def hash_at_def split: if_splits)
  have "hash_at (view r') K = hash_at (view r1) K ++ map_of upd \<and> (\<forall>k. k \<noteq> K \<longrightarrow> view r' k = view r1 k)"
    using upd HSetMultiple_Ok [OF _ assms(3,4), of "st_sc st" sk r1 na r']
    by (auto simp: K_def put_hash_def hash_at_def split: if_splits)
  with r1 show ?thesis
    by simp
qed

end

text \<open>C26 A multi-element update, at the level of the entries of the actor: after a successful request, an entry has the
  new value given for it; otherwise it is gone if it was to be removed, and as before if not.  This holds of entries
  and of entries of nested maps, updates win over removals of the same request, and no other key of the store
  changes.\<close>

theorem state_update:
  assumes "redis (st_api st) view glob" "range_order (rng_values st)" "range_order (rng_maps st)" "range_order (rng_removals st)"
    "range_order (rng_fields st)" "st_unupdate st (rq_body q) = Inr op" "clean_op op"
    and "routeImplStateUpdate st q r = (Ok resp, r')" "hr_code resp = 200"
    and "h = hash_at (view r) (MangleKey (st_sc st) (stateKey (p_type q) (p_id q)))"
    "h' = hash_at (view r') (MangleKey (st_sc st) (stateKey (p_type q) (p_id q)))"
  shows "(clean n \<longrightarrow> h' (flatEntryKey n) = updated st (map_of (Updates op) n) (n \<in> set (Removals op)) (h (flatEntryKey n))) \<and>
    (clean n \<and> s \<noteq> [Separator] \<longrightarrow> h' (nestedEntryKey n s) =
      updated st (map_of (mget [] (SubmapUpdates op) n) s) (s \<in> set (mget [] (SubmapRemovals op) n)) (h (nestedEntryKey n s))) \<and>
    (k \<noteq> MangleKey (st_sc st) (stateKey (p_type q) (p_id q)) \<longrightarrow> view r' k = view r k)"
proof -
  let ?sk = "stateKey (p_type q) (p_id q)"
  obtain upd where u: "to_update st ?sk op = Inr upd" "apply_update st ?sk (to_clear st op) upd r = (Ok resp, r')"
    using assms(6,8,9) by (auto simp: routeImplStateUpdate_def http_Error_def split: sum.splits)
  note fields = to_update_fields [OF u(1)]
  have hash: "h' = (h |` (- set (to_clear st op))) ++ map_of upd" "k \<noteq> MangleKey (st_sc st) ?sk \<longrightarrow> view r' k = view r k"
    using redis.apply_update_hash [OF assms(1) u(2) assms(9) _ assms(5) refl] fields assms(10,11) by auto
  have at: "h' f = updated st v (f \<in> set (to_clear st op)) (h f)" if "map_of upd f = map_option (marshalled st) v" for f v
    using that by (auto simp: hash(1) updated_def map_add_def restrict_map_def split: option.splits)
  have "map_of upd (flatEntryKey n) = map_option (marshalled st) (map_of (Updates op) n)" if "clean n"
    unfolding fields [THEN conjunct2] by (rule map_of_single) (rule flat_field_iff [OF assms(7) that assms(2,3)])
  moreover have "map_of upd (nestedEntryKey n s) = map_option (marshalled st) (map_of (mget [] (SubmapUpdates op) n) s)"
    if "clean n" "s \<noteq> [Separator]"
    unfolding fields [THEN conjunct2] by (rule map_of_single) (rule nested_field_iff [OF assms(7) that assms(2,3)])
  ultimately show ?thesis
    using at in_to_clear [OF assms(7) _ assms(4)] hash(2) by simp
qed

section \<open>Where the keys collide\<close>

text \<open>A name used for an entry and for a nested map makes the reading of the whole state panic, unless the entry is null or an object.\<close>

lemma both_uses_panic:
  assumes "clean k" "s \<noteq> [Separator]" "state_value st v \<noteq> JNull" "\<And>m. state_value st v \<noteq> JObj m"
  shows "all_entries st [(flatEntryKey k, v), (nestedEntryKey k s, w)] [] = Panicked"
proof -
  have "clean k \<Longrightarrow> split2 (k @ Separator # t) = (k, Some t)" for t
    by (induction k) (auto simp: clean_def)
  then have "split2 (flatEntryKey k) = (k, Some [Separator])" "split2 (nestedEntryKey k s) = (k, Some s)"
    using assms(1) by (simp_all add: flatEntryKey_def nestedEntryKey_def)
  then show ?thesis
    using assms(2-4) by (auto simp: add_entry_def mget_def split: jval.split)
qed

text \<open>The pattern of the scans of a nested map matches the field of the entry of the same name.\<close>

lemma submap_pattern_matches_entry:
  assumes "redis api view glob" "plain (nestedEntryKeyPrefix k)"
  shows "glob (nestedEntryKeyPrefix k @ ''*'') (flatEntryKey k)"
  using redis.glob_star [OF assms, of "''''"] by (simp add: plain_def flatEntryKey_def nestedEntryKeyPrefix_def)

text \<open>Clearing a nested map without entries sends \<^verbatim>\<open>HDEL\<close> without fields, which the server refuses.\<close>

lemma clear_empty_panics:
  assumes "subMapScan (st_api st) (st_sc st) fuel sk n op_collect [] r = Some (Ok [], r1)"
    and "getValidConnection (st_api st) (RequestRetryLimit (st_sc st)) r1 = (None, r2)"
    and "rd_Do (st_api st) ''HDEL'' [MangleKey (st_sc st) sk] r2 = (None, r3)"
  shows "submap_clear st fuel sk n r = Some (Panicked, r3)"
  using assms by (simp add: submap_clear_def HDelMultiple_def do_cmd_def doRaw_def)

section \<open>Samples\<close>

definition sample_state :: "(mem, reply) state_env" where
  "sample_state = \<lparr>st_api = mem_redis, st_sc = sample_sc, st_text = (\<lambda>_. ''error''), st_unop = Inr,
     st_unupdate = (\<lambda>_. Inr \<lparr>Updates = [(''a'', JStr ''2'')], SubmapUpdates = [(''m'', [(''y'', JStr ''3'')])],
       Removals = [''b''], SubmapRemovals = [(''m'', [''x''])]\<rparr>),
     st_unmarshal = (\<lambda>s. Inr (JStr s)), st_marshal = (\<lambda>v. Inr (case v of JStr s \<Rightarrow> s | _ \<Rightarrow> ''null'')),
     rng_values = (\<lambda>m. m), rng_maps = (\<lambda>m. m), rng_removals = (\<lambda>m. m), rng_fields = (\<lambda>m. m)\<rparr>"

definition sample_hash :: mem where
  "sample_hash = [(''kar_app_main_state_Fork_7'', MHash [(flatEntryKey ''a'', ''1''), (nestedEntryKey ''m'' ''x'', ''9'')])]"

definition sample_req :: state_req where
  "sample_req = \<lparr>p_type = ''Fork'', p_id = ''7'', p_key = '''', p_subkey = '''', rq_body = '''', rq_nilOnAbsent = ''''\<rparr>"

lemma sample_state_sel:
  "st_api sample_state = mem_redis" "st_sc sample_state = sample_sc" "rng_values sample_state = (\<lambda>m. m)"
  "rng_maps sample_state = (\<lambda>m. m)" "rng_removals sample_state = (\<lambda>m. m)" "rng_fields sample_state = (\<lambda>m. m)"
  by (simp_all add: sample_state_def)

lemma sample_hash_at:
  "hash_at (mem_view sample_hash) (MangleKey sample_sc (stateKey ''Fork'' ''7'')) =
     map_of [(flatEntryKey ''a'', ''1''), (nestedEntryKey ''m'' ''x'', ''9'')]"
  by (simp add: hash_at_def mem_view_def sample_hash_def sample_sc_def stateKey_def Separator_def)


theorem state_update_witness:
  "\<exists>resp r'. routeImplStateUpdate sample_state sample_req sample_hash = (Ok resp, r') \<and>
     hash_at (mem_view r') ''kar_app_main_state_Fork_7'' (flatEntryKey ''a'') = Some ''2'' \<and>
     hash_at (mem_view r') ''kar_app_main_state_Fork_7'' (nestedEntryKey ''m'' ''x'') = None"
proof -
  obtain op where op: "st_unupdate sample_state (rq_body sample_req) = Inr op"
    "op = \<lparr>Updates = [(''a'', JStr ''2'')], SubmapUpdates = [(''m'', [(''y'', JStr ''3'')])],
       Removals = [''b''], SubmapRemovals = [(''m'', [''x''])]\<rparr>"
    by (simp add: sample_state_def)
  have c: "clean_op op" "clean ''a''" "clean ''m''" "''x'' \<noteq> [Separator]"
    by (simp_all only: op(2)) code_simp+
  let ?x = "routeImplStateUpdate sample_state sample_req sample_hash"
  have code: "(case fst ?x of Ok resp \<Rightarrow> hr_code resp | _ \<Rightarrow> 0) = 200"
    by code_simp
  then obtain resp where "fst ?x = Ok resp" and r: "hr_code resp = 200"
    by (cases "fst ?x") simp_all
  then have x: "?x = (Ok resp, snd ?x)"
    by (simp only: prod_eq_iff fst_conv snd_conv simp_thms)
  have K: "MangleKey (st_sc sample_state) (stateKey (p_type sample_req) (p_id sample_req)) = ''kar_app_main_state_Fork_7''"
    by code_simp
  have up: "updated sample_state (map_of (Updates op) ''a'') b h = Some ''2''"
    "updated sample_state (map_of (mget [] (SubmapUpdates op) ''m'') ''x'') (''x'' \<in> set (mget [] (SubmapRemovals op) ''m'')) h = None" for b h
    by (simp_all add: op(2) updated_def marshalled_def sample_state_def mget_def)
  have st: "redis (st_api sample_state) mem_view star_match" "range_order (rng_values sample_state)" "range_order (rng_maps sample_state)"
    "range_order (rng_removals sample_state)" "range_order (rng_fields sample_state)"
    by (simp_all add: sample_state_sel mem.redis_axioms range_order_def)
  show ?thesis
    using state_update [OF st op(1) c(1) x r refl refl, of "''a''"] state_update [OF st op(1) c(1) x r refl refl, of "''m''" "''x''"] c
    unfolding K up by (intro exI [of _ resp] exI [of _ "snd ?x"]) (simp add: x [symmetric])
qed

end
