(* ===== verification/Actor_Handlers.thy ===== *)
theory Actor_Handlers
  imports Debugger Actor_State
begin

text \<open>
  The receiving side of \<^verbatim>\<open>src/core/internal/runtime/commands.go\<close>: the handlers that the rpc layer calls for requests to
  actors, services, bindings and sidecars; and \<^verbatim>\<open>http_client.go\<close>, by which they invoke the application process.  The
  application and the HTTP client are a state \<open>'w\<close> and a record of the calls made on it.
\<close>

section \<open>Invoking the application\<close>

record http_req =
  hq_method :: string
  hq_url :: string
  hq_body :: string
  hq_header :: "(string \<times> string) list"

text \<open>What one attempt gives: an error of the request or of reading the body, with its text and whether it is a timeout; or a
  response with status, content type, content length and body.\<close>

datatype do_result = Attempt_failed err string bool | Response int string string string

record 'w http_client =
  hc_ctxErr :: "'w \<Rightarrow> err option"
  hc_new :: "string \<Rightarrow> string \<Rightarrow> string \<Rightarrow> err option"
  hc_head :: "string \<Rightarrow> (string \<times> string list) list"      \<comment> \<open>the header decoded, in range order\<close>
  hc_do :: "http_req \<Rightarrow> 'w \<Rightarrow> do_result \<times> 'w"
  hc_waits :: "'w \<Rightarrow> nat"                               \<comment> \<open>retries the back-off grants\<close>
  hc_url :: string

datatype attempt = Stop "Reply option" "err option" | Again err

definition judge :: "err option \<Rightarrow> do_result \<Rightarrow> attempt" where
  "judge ctxErr x =
     (case x of
        Attempt_failed e txt timeout \<Rightarrow>
          if timeout then Stop (Some \<lparr>StatusCode = 408, ContentType = ''text/plain'', Payload = txt\<rparr>) None
          else if ctxErr = Some e then Stop None (Some e)
          else Again e
      | Response code ct cl body \<Rightarrow>
          if snd (parse_int cl) \<and> fst (parse_int cl) \<noteq> int (length body) then Again (ErrMsg ''unexpected content length'')
          else Stop (Some \<lparr>StatusCode = code, ContentType = ct, Payload = body\<rparr>) None)"

fun retry_do :: "'w http_client \<Rightarrow> http_req \<Rightarrow> nat \<Rightarrow> 'w \<Rightarrow> (Reply option \<times> err option) \<times> 'w" where
  "retry_do hc q n w =
     (case hc_do hc q w of
        (x, w') \<Rightarrow>
          (case judge (hc_ctxErr hc w') x of
             Stop r e \<Rightarrow> ((r, e), w')
           | Again e \<Rightarrow>
               (case n of
                  0 \<Rightarrow> ((None, Some e), w')
                | Suc n' \<Rightarrow>
                    (case hc_ctxErr hc w' of
                       Some ce \<Rightarrow> ((None, Some ce), w')
                     | None \<Rightarrow> retry_do hc q n' w'))))"

declare retry_do.simps [simp del]

definition req_header :: "'w http_client \<Rightarrow> (string, string) gomap \<Rightarrow> (string \<times> string) list" where
  "req_header hc msg =
     (if mget '''' msg ''header'' \<noteq> '''' then
        concat (map (\<lambda>(field, vals). map (\<lambda>v. (field, v)) vals) (hc_head hc (mget '''' msg ''header'')))
      else (if mget '''' msg ''content-type'' \<noteq> '''' then [(''Content-Type'', mget '''' msg ''content-type'')] else []) @
           (if mget '''' msg ''accept'' \<noteq> '''' then [(''Accept'', mget '''' msg ''accept'')] else []))"

definition invoke :: "'w http_client \<Rightarrow> string \<Rightarrow> (string, string) gomap \<Rightarrow> 'w \<Rightarrow> (Reply option \<times> err option) \<times> 'w" where
  "invoke hc meth msg w =
     (case hc_ctxErr hc w of
        Some e \<Rightarrow> ((None, Some e), w)
      | None \<Rightarrow>
          (case hc_new hc meth (hc_url hc @ mget '''' msg ''path'') (mget '''' msg ''payload'') of
             Some e \<Rightarrow> ((None, Some e), w)
           | None \<Rightarrow>
               retry_do hc \<lparr>hq_method = meth, hq_url = hc_url hc @ mget '''' msg ''path'', hq_body = mget '''' msg ''payload'',
                 hq_header = req_header hc msg\<rparr> (hc_waits hc w) w))"

text \<open>A successful invocation has a reply.\<close>

lemma retry_do_reply: "retry_do hc q n w = ((r, None), w') \<Longrightarrow> r \<noteq> None"
proof (induction n arbitrary: w)
  case 0
  then show ?case
    by (subst (asm) retry_do.simps) (auto simp: judge_def split: prod.splits attempt.splits do_result.splits if_splits)
next
  case (Suc n)
  then show ?case
    by (subst (asm) (2) retry_do.simps)
      (auto simp: judge_def split: prod.splits attempt.splits do_result.splits if_splits option.splits)
qed

lemma invoke_reply: "invoke hc meth msg w = ((r, None), w') \<Longrightarrow> r \<noteq> None"
  by (auto simp: invoke_def split: option.splits dest: retry_do_reply)

section \<open>Activation\<close>

definition actorRuntimeRoutePrefix :: string where
  "actorRuntimeRoutePrefix = ''/kar/impl/v1/actor/''"

text \<open>The parameters of the handlers: JSON, the decoder of the result of a method (what was decoded, and the error), JSON for
  any value, the HTTP client, the store, a uuid.\<close>

record actorCallResult =
  cr_Value' :: jval
  cr_TailCall :: bool
  cr_Error :: bool
  cr_Message :: string
  cr_Stack :: string

record ('w, 'r, 'p) handler_env =
  h_json :: json
  h_result :: "string \<Rightarrow> actorCallResult \<times> err option"
  h_val :: "string \<Rightarrow> err + jval"
  h_marshal :: "jval \<Rightarrow> err + string"
  h_http :: "'w http_client"
  h_api :: "('r, 'p) redigo"
  h_sc :: StoreConfig
  h_uuid :: string

definition activate ::
  "('w, 'r, 'p) handler_env \<Rightarrow> Actor \<Rightarrow> string \<Rightarrow> 'w \<Rightarrow> (bytes \<times> err option) result \<times> 'w" where
  "activate h actor session w =
     (case invoke (h_http h) ''GET''
         [(''path'', actorRuntimeRoutePrefix @ Type actor @ ''/'' @ ID actor @ ''?session='' @ session)] w of
        ((_, Some e), w') \<Rightarrow> (Ok (None, Some e), w')
      | ((None, None), w') \<Rightarrow> (Panicked, w')
      | ((Some rep, None), w') \<Rightarrow>
          if StatusCode rep \<ge> 400 then
            (case js_reply (h_json h) rep of Inl e \<Rightarrow> (Ok (None, Some e), w') | Inr b \<Rightarrow> (Ok (Some b, None), w'))
          else (Ok (None, None), w'))"

text \<open>\<^verbatim>\<open>deactivate\<close> gives the new value of \<^verbatim>\<open>Activated\<close>.\<close>

definition deactivate :: "('w, 'r, 'p) handler_env \<Rightarrow> string \<Rightarrow> string \<Rightarrow> bool \<Rightarrow> 'w \<Rightarrow> bool \<times> 'w" where
  "deactivate h name i act w =
     (case invoke (h_http h) ''DELETE'' [(''path'', actorRuntimeRoutePrefix @ name @ ''/'' @ i)] w of
        ((_, Some e), w') \<Rightarrow> (act, w')
      | ((_, None), w') \<Rightarrow> (False, w'))"

section \<open>Tail calls\<close>

text \<open>
  A method that ends in a tail call returns a continuation, a JSON object.  The type assertions of the code panic on a
  missing or ill-typed field; \<open>Error\<close> is the continuation of an unsupported kind.
\<close>

definition str_field :: "(string, jval) gomap \<Rightarrow> string \<Rightarrow> string result" where
  "str_field cr k = (case map_of cr k of Some (JStr s) \<Rightarrow> Ok s | _ \<Rightarrow> Panicked)"

definition next_actor :: "session \<Rightarrow> string \<Rightarrow> string \<Rightarrow> string \<Rightarrow> (string, jval) gomap \<Rightarrow> session" where
  "next_actor tg uuid t i cr =
     \<lparr>s_Name = t, s_ID = i, s_Flow = s_Flow tg,
      s_DeferredLockID = (if t = s_Name tg \<and> i = s_ID tg \<and> map_of cr ''releaseLock'' \<noteq> Some (JStr ''true'') then newLockId uuid else '''')\<rparr>"

definition tail_dest :: "session \<Rightarrow> string \<Rightarrow> (string, jval) gomap \<Rightarrow> Destination result" where
  "tail_dest tg uuid cr =
     (if map_of cr ''serviceName'' \<noteq> None then
        (case str_field cr ''serviceName'' of
           Ok n \<Rightarrow> Ok \<lparr>d_Target = Service n, d_Method = serviceEndpoint\<rparr>
         | Error e \<Rightarrow> Error e | Panicked \<Rightarrow> Panicked)
      else if map_of cr ''actorType'' \<noteq> None then
        (case (str_field cr ''actorType'', str_field cr ''actorId'') of
           (Ok t, Ok i) \<Rightarrow> Ok \<lparr>d_Target = Session (next_actor tg uuid t i cr), d_Method = actorEndpoint\<rparr>
         | _ \<Rightarrow> Panicked)
      else Error (ErrMsg ''unsupported tail call result''))"

definition tail_msg :: "string \<Rightarrow> (string, jval) gomap \<Rightarrow> (string, string) gomap result" where
  "tail_msg command cr =
     (case (str_field cr ''path'', str_field cr ''payload'') of
        (Ok p, Ok b) \<Rightarrow>
          if mget JNull cr ''method'' \<noteq> JNull then
            (case str_field cr ''method'' of
               Ok m \<Rightarrow> Ok (actor_msg command p b @ [(''method'', m),
                 (''header'', ''{'' @ [CHR 0x22] @ ''Content-Type'' @ [CHR 0x22] @ '': ['' @ [CHR 0x22] @ ''application/json'' @ [CHR 0x22] @ '']}''),
                 (''actorTailCall'', ''true'')])
             | _ \<Rightarrow> Panicked)
          else Ok (actor_msg command p b)
      | _ \<Rightarrow> Panicked)"

text \<open>The continuation in full: the destination and the encoded request; an error leaves both empty.\<close>

definition tail_call ::
  "('w, 'r, 'p) handler_env \<Rightarrow> session \<Rightarrow> string \<Rightarrow> jval \<Rightarrow> (Destination option \<times> bytes) result" where
  "tail_call h tg command v =
     (case v of
        JObj cr \<Rightarrow>
          (case tail_dest tg (h_uuid h) cr of
             Panicked \<Rightarrow> Panicked
           | Error _ \<Rightarrow> Ok (None, None)
           | Ok d \<Rightarrow>
               (case tail_msg command cr of
                  Ok m \<Rightarrow> Ok (Some d, case js_marshal (h_json h) m of Inl _ \<Rightarrow> None | Inr b \<Rightarrow> Some b)
                | _ \<Rightarrow> Panicked))
      | _ \<Rightarrow> Panicked)"

section \<open>Requests to actors\<close>

text \<open>What the reply of a method means for a tell and for a call.\<close>

definition tell_result :: "('w, 'r, 'p) handler_env \<Rightarrow> session \<Rightarrow> Reply \<Rightarrow> (Destination option \<times> bytes) result" where
  "tell_result h tg rs =
     (if StatusCode rs = 200 then
        (case h_result h (Payload rs) of
           (_, Some _) \<Rightarrow> Ok (None, None)
         | (res, None) \<Rightarrow>
             if cr_Error res then Ok (None, None)
             else if cr_TailCall res then tail_call h tg ''tell'' (cr_Value' res)
             else Ok (None, None))
      else Ok (None, None))"

definition call_result :: "('w, 'r, 'p) handler_env \<Rightarrow> session \<Rightarrow> Reply \<Rightarrow> (Destination option \<times> bytes) result" where
  "call_result h tg rs =
     (case (if StatusCode rs = 200 \<and> snd (h_result h (Payload rs)) = None \<and> cr_TailCall (fst (h_result h (Payload rs)))
            then tail_call h tg ''call'' (cr_Value' (fst (h_result h (Payload rs)))) else Ok (None, None)) of
        Ok (d, None) \<Rightarrow> Ok (d, case js_reply (h_json h) rs of Inl _ \<Rightarrow> None | Inr b \<Rightarrow> Some b)
      | x \<Rightarrow> x)"

definition method_msg :: "session \<Rightarrow> string \<Rightarrow> (string, string) gomap \<Rightarrow> (string, string) gomap" where
  "method_msg tg session msg =
     mput ''method'' ''POST'' (mput ''content-type'' ''application/kar+json''
       (mput ''path'' (actorRuntimeRoutePrefix @ s_Name tg @ ''/'' @ s_ID tg @ mget '''' msg ''path'' @ ''?session='' @ session) msg))"

text \<open>
  The invocation of the method: the destination of a tail call, the reply, and the reply shown to debuggers.  The error of
  the invocation is assigned to a variable of the inner block and does not leave it.
\<close>

definition run_method ::
  "('w, 'r, 'p) handler_env \<Rightarrow> session \<Rightarrow> string \<Rightarrow> (string, string) gomap \<Rightarrow> 'w \<Rightarrow> (Destination option \<times> bytes \<times> bytes) result \<times> 'w" where
  "run_method h tg session msg w =
     (let command = mget '''' msg ''command''
      in if command = ''call'' \<or> command = ''tell'' then
           (case invoke (h_http h) ''POST'' (method_msg tg session msg) w of
              ((Some rs, None), w') \<Rightarrow>
                (case (if command = ''tell'' then tell_result h tg rs else call_result h tg rs) of
                   Ok (d, reply) \<Rightarrow> (Ok (d, reply, case js_reply (h_json h) rs of Inl _ \<Rightarrow> None | Inr b \<Rightarrow> Some b), w')
                 | Error e \<Rightarrow> (Error e, w')
                 | Panicked \<Rightarrow> (Panicked, w'))
            | (_, w') \<Rightarrow> (Ok (None, None, None), w'))
         else (Ok (None, None, None), w))"

text \<open>The deletion of an actor: its state in the application, in the store, and its placement.\<close>

definition delete_actor ::
  "('w, 'r, 'p) handler_env \<Rightarrow> session \<Rightarrow> bool \<Rightarrow> 'w \<Rightarrow> 'r \<Rightarrow> err option result \<times> bool \<times> 'w \<times> 'r" where
  "delete_actor h tg act w r =
     (case (if act then deactivate h (s_Name tg) (s_ID tg) act w else (act, w)) of
        (act', w') \<Rightarrow>
          (case store_Del (h_api h) (h_sc h) (stateKey (s_Name tg) (s_ID tg)) r of
             (Panicked, r1) \<Rightarrow> (Panicked, act', w', r1)
           | (_, r1) \<Rightarrow>
               (case delSession (h_api h) (h_sc h) (tg\<lparr>s_Flow := '''', s_DeferredLockID := ''''\<rparr>) r1 of
                  (Panicked, r2) \<Rightarrow> (Panicked, act', w', r2)
                | (Error e, r2) \<Rightarrow> (Ok (Some e), act', w', r2)
                | (Ok _, r2) \<Rightarrow> (Ok None, act', w', r2))))"

text \<open>The first use of an instance activates it: whether it is active now, the reply and the error of a failure.\<close>

definition ensure_active ::
  "('w, 'r, 'p) handler_env \<Rightarrow> session \<Rightarrow> string \<Rightarrow> bool \<Rightarrow> 'w \<Rightarrow> (bool \<times> bytes \<times> err option) result \<times> 'w" where
  "ensure_active h tg session act w =
     (if act then (Ok (True, None, None), w)
      else case activate h \<lparr>Type = s_Name tg, ID = s_ID tg\<rparr> session w of
             (Panicked, w') \<Rightarrow> (Panicked, w')
           | (Error e, w') \<Rightarrow> (Error e, w')
           | (Ok (Some b, _), w') \<Rightarrow> (Ok (False, Some b, None), w')
           | (Ok (None, Some e), w') \<Rightarrow> (Ok (False, None, Some e), w')
           | (Ok (None, None), w') \<Rightarrow> (Ok (True, None, None), w'))"

text \<open>
  \<^verbatim>\<open>handlerActor\<close> between the two pauses: \<open>inflow\<close> is the flow of the instance and \<open>act\<close> whether it is activated; the
  result is the destination, the reply, the error, and the reply for debuggers.
\<close>

definition actor_body ::
  "('w, 'r, 'p) handler_env \<Rightarrow> session \<Rightarrow> string \<Rightarrow> string \<Rightarrow> (string, string) gomap \<Rightarrow> bool \<Rightarrow> 'w \<Rightarrow> 'r \<Rightarrow>
    ((Destination option \<times> bytes \<times> err option) \<times> bytes) result \<times> bool \<times> 'w \<times> 'r" where
  "actor_body h tg inflow rid msg act w r =
     (let session = s_Flow tg @ '':'' @ rid
      in if s_Flow tg \<noteq> inflow then (Ok ((None, None, Some (ErrMsg ''Flow violation'')), None), act, w, r)
         else if mget '''' msg ''command'' = ''delete'' then
           (case delete_actor h tg act w r of
              (Ok e, act', w', r') \<Rightarrow> (Ok ((None, None, e), None), act', w', r')
            | (_, act', w', r') \<Rightarrow> (Panicked, act', w', r'))
         else
           (case ensure_active h tg session act w of
              (Ok (True, _, _), w1) \<Rightarrow>
                (case run_method h tg session msg w1 of
                   (Ok (d, reply, dbg), w2) \<Rightarrow> (Ok ((d, reply, None), dbg), True, w2, r)
                 | (_, w2) \<Rightarrow> (Panicked, True, w2, r))
            | (Ok (False, reply, e), w1) \<Rightarrow> (Ok ((None, reply, e), None), act, w1, r)
            | (_, w1) \<Rightarrow> (Panicked, act, w1, r)))"

text \<open>\<^verbatim>\<open>handlerActor\<close> on a node without debuggers.\<close>

definition handlerActor ::
  "('w, 'r, 'p) handler_env \<Rightarrow> session \<Rightarrow> string \<Rightarrow> string \<Rightarrow> bytes \<Rightarrow> bool \<Rightarrow> 'w \<Rightarrow> 'r \<Rightarrow>
    (Destination option \<times> bytes \<times> err option) result \<times> bool \<times> 'w \<times> 'r" where
  "handlerActor h tg inflow rid value' act w r =
     (case js_unmarshal (h_json h) (case value' of None \<Rightarrow> '''' | Some v \<Rightarrow> v) of
        Inl e \<Rightarrow> (Ok (None, None, Some e), act, w, r)
      | Inr msg \<Rightarrow>
          (case actor_body h tg inflow rid msg act w r of
             (Ok (x, _), s) \<Rightarrow> (Ok x, s)
           | (_, s) \<Rightarrow> (Panicked, s)))"

section \<open>Debugging an actor\<close>

definition tuple_of :: "session \<Rightarrow> actorTuple_t" where
  "tuple_of tg = \<lparr>at_id = s_ID tg, at_type = s_Name tg\<rparr>"

definition attrs_of :: "session \<Rightarrow> string \<Rightarrow> string \<Rightarrow> breakpointAttrs_t" where
  "attrs_of tg path isReq = \<lparr>ba_actorId = s_ID tg, ba_actorType = s_Name tg, ba_path = path, ba_isRequest = isReq, ba_flowId = s_Flow tg\<rparr>"

text \<open>A hit on the request and a hit on the response; the flag tells that the process ends itself.\<close>

definition request_hit :: "debug_env \<Rightarrow> session \<Rightarrow> breakpoint_t \<Rightarrow> debugger \<Rightarrow> bool \<times> debugger" where
  "request_hit e tg bk d =
     (if bk_type bk = ''actor'' then (False, pause (tuple_of tg) bk d)
      else if bk_type bk = ''node'' then (False, pauseNode bk d)
      else if bk_type bk = ''global'' then (False, pauseAllSidecars e bk (pauseNode bk d))
      else (bk_type bk = ''suicide'', d))"

definition response_hit :: "debug_env \<Rightarrow> session \<Rightarrow> breakpoint_t \<Rightarrow> debugger \<Rightarrow> bool \<times> debugger" where
  "response_hit e tg bk d =
     (if bk_type bk = ''actor'' then (False, pause (tuple_of tg) bk d)
      else if bk_type bk = ''node'' then (False, pause nodeActor bk d)
      else if bk_type bk = ''global'' then (False, pauseAllSidecars e bk (pause nodeActor bk d))
      else (bk_type bk = ''suicide'', d))"

text \<open>An actor of a paused node pauses, unless it was let go since.\<close>

definition join_node_pause :: "session \<Rightarrow> debugger \<Rightarrow> debugger" where
  "join_node_pause tg d =
     (if isNodePaused d \<and> map_of (immuneFromNodePaused d) (tuple_of tg) = None then pause (tuple_of tg) (nodePausedBk d) d else d)"

text \<open>Up to the first wait: the flag, and the state in which the goroutine begins to wait.\<close>

definition actor_entry ::
  "debug_env \<Rightarrow> session \<Rightarrow> string \<Rightarrow> string \<Rightarrow> (string, string) gomap \<Rightarrow> debugger \<Rightarrow> (bool \<times> debugger) result" where
  "actor_entry e tg rid value' msg d =
     (let d1 = d\<lparr>ActorHandling := mput rid \<lparr>as_Actor = \<lparr>Type = s_Name tg, ID = s_ID tg\<rparr>, as_ParentId = '''',
            as_FlowId = s_Flow tg, as_RequestValue = value'\<rparr> (ActorHandling d)\<rparr>
      in case checkBreakpoint e (attrs_of tg (mget '''' msg ''path'') ''request'') value' '''' d1 of
           (Ok (Some bk), d2) \<Rightarrow>
             (case request_hit e tg bk (informBreakpoint e (tuple_of tg) rid bk value' '''' ''request'' d2) of
                (dies, d3) \<Rightarrow> Ok (dies, if dies then d3 else join_node_pause tg d3))
         | (Ok None, d2) \<Rightarrow> Ok (False, join_node_pause tg d2)
         | (Error er, _) \<Rightarrow> Error er
         | (Panicked, _) \<Rightarrow> Panicked)"

text \<open>From the end of the method to the second wait; the response shown is the reply if there is one.\<close>

definition actor_exit ::
  "debug_env \<Rightarrow> session \<Rightarrow> string \<Rightarrow> string \<Rightarrow> string \<Rightarrow> bytes \<Rightarrow> bytes \<Rightarrow> debugger \<Rightarrow> (bool \<times> debugger) result" where
  "actor_exit e tg path rid value' reply debugReply d =
     (let shown = (\<lambda>b. case b of None \<Rightarrow> '''' | Some s \<Rightarrow> s)
      in case checkBreakpoint e (attrs_of tg path ''response'') value' (shown debugReply) d of
           (Ok (Some bk), d1) \<Rightarrow>
             Ok (response_hit e tg bk (informBreakpoint e (tuple_of tg) rid bk value'
               (shown (if reply \<noteq> None then reply else debugReply)) ''response'' d1))
         | (Ok None, d1) \<Rightarrow> Ok (False, d1)
         | (Error er, _) \<Rightarrow> Error er
         | (Panicked, _) \<Rightarrow> Panicked)"

text \<open>The end of the handler: an edited response replaces the reply, and the request is no longer being handled.\<close>

definition actor_end :: "string \<Rightarrow> bytes \<times> err option \<Rightarrow> bytes \<Rightarrow> debugger \<Rightarrow> bytes \<times> debugger" where
  "actor_end rid edited reply d =
     ((if snd edited = None \<and> fst edited \<noteq> None then fst edited else reply),
      d\<lparr>ActorHandling := mdel rid (ActorHandling d)\<rparr>)"

section \<open>Requests to services\<close>

text \<open>The answer to a tail call of an actor follows the conventions of actors.\<close>

definition wrap_reply :: "('w, 'r, 'p) handler_env \<Rightarrow> Reply \<Rightarrow> Reply" where
  "wrap_reply h rep =
     (if StatusCode rep = 200 then
        let v = (case h_val h (Payload rep) of Inr x \<Rightarrow> x | Inl _ \<Rightarrow> JStr (Payload rep))
        in rep\<lparr>Payload := (case h_marshal h (JObj [(''value'', v)]) of Inl _ \<Rightarrow> '''' | Inr s \<Rightarrow> s),
               ContentType := ''application/kar+json''\<rparr>
      else rep)"

definition handlerService :: "('w, 'r, 'p) handler_env \<Rightarrow> bytes \<Rightarrow> 'w \<Rightarrow> (bytes \<times> err option) \<times> 'w" where
  "handlerService h value' w =
     (case js_unmarshal (h_json h) (case value' of None \<Rightarrow> '''' | Some v \<Rightarrow> v) of
        Inl e \<Rightarrow> ((None, Some e), w)
      | Inr msg \<Rightarrow>
          let command = mget '''' msg ''command''
          in if \<not> (command = ''call'' \<or> command = ''tell'') then ((None, None), w)
             else (case invoke (h_http h) (mget '''' msg ''method'') msg w of
                     ((_, Some e), w') \<Rightarrow> ((None, Some e), w')
                   | ((None, None), w') \<Rightarrow> ((None, None), w')
                   | ((Some rep, None), w') \<Rightarrow>
                       if command = ''tell'' then ((None, None), w')
                       else (case js_reply (h_json h) (if mget '''' msg ''actorTailCall'' = ''true'' then wrap_reply h rep else rep) of
                               Inl e \<Rightarrow> ((None, Some e), w')
                             | Inr b \<Rightarrow> ((Some b, None), w'))))"

section \<open>Requests on bindings\<close>

text \<open>
  The handler is the same for every kind of bindings: \<open>ops\<close> is the collection of the kind of the request, \<open>enc\<close> and \<open>enc1\<close>
  encode a list of bindings and one binding, \<open>rng\<close> is the range order, \<open>txt\<close> the texts of errors.
\<close>

definition bindingDel where
  "bindingDel h ops actor msg cr =
     (case deleteBindings (h_api h) (h_sc h) ops actor (mget '''' msg ''bindingId'') cr of
        (Ok found, cr') \<Rightarrow>
          (Ok (if found = 0 \<and> mget '''' msg ''bindingId'' \<noteq> '''' \<and> mget '''' msg ''nilOnAbsent'' \<noteq> ''true''
               then \<lparr>StatusCode = 404, ContentType = '''', Payload = ''''\<rparr>
               else \<lparr>StatusCode = 200, ContentType = ''text/plain'', Payload = itoa (int found)\<rparr>), cr')
      | (_, cr') \<Rightarrow> (Panicked, cr'))"

definition bindingGet ::
  "(err \<Rightarrow> string) \<Rightarrow> ('b list \<Rightarrow> err + string) \<Rightarrow> ('b \<Rightarrow> err + string) \<Rightarrow> ('b, 'c) bindings_ops \<Rightarrow> Actor \<Rightarrow>
    (string, string) gomap \<Rightarrow> 'c \<Rightarrow> Reply" where
  "bindingGet text enc enc1 ops actor msg c =
     (let found = getBindings ops actor (mget '''' msg ''bindingId'');
          send = (\<lambda>x. case x of
             Inl e \<Rightarrow> \<lparr>StatusCode = 500, ContentType = ''text/plain'', Payload = text e\<rparr>
           | Inr s \<Rightarrow> \<lparr>StatusCode = 200, ContentType = ''application/json'', Payload = s\<rparr>)
      in if mget '''' msg ''bindingId'' = '''' then send (enc (found c))
         else case found c of
                [] \<Rightarrow> if mget '''' msg ''nilOnAbsent'' \<noteq> ''true'' then \<lparr>StatusCode = 404, ContentType = '''', Payload = ''''\<rparr>
                      else send (Inr ''null'')
              | b # _ \<Rightarrow> send (enc1 b))"

definition bindingSet where
  "bindingSet h text rng ops actor msg cr =
     (case putBinding (h_api h) (h_sc h) rng ops (mget '''' msg ''kind'') actor (mget '''' msg ''bindingId'') (mget '''' msg ''payload'') cr of
        (Ok (code, Some e), cr') \<Rightarrow> (Ok \<lparr>StatusCode = code, ContentType = ''text/plain'', Payload = text e\<rparr>, cr')
      | (Ok (code, None), cr') \<Rightarrow> (Ok \<lparr>StatusCode = code, ContentType = ''text/plain'', Payload = ''OK''\<rparr>, cr')
      | (Error e, cr') \<Rightarrow> (Error e, cr')
      | (Panicked, cr') \<Rightarrow> (Panicked, cr'))"

text \<open>An error of loading is logged.\<close>

definition bindingLoad where
  "bindingLoad h ops actor msg cr =
     (case loadBinding (h_api h) (h_sc h) ops (mget '''' msg ''kind'') actor (mget '''' msg ''partition'') (mget '''' msg ''bindingId'') cr of
        (Panicked, cr') \<Rightarrow> (Panicked, cr')
      | (_, cr') \<Rightarrow> (Ok (), cr'))"

definition handlerBinding where
  "handlerBinding h text enc enc1 rng ops tg value' cr =
     (let actor = \<lparr>Type = s_Name tg, ID = s_ID tg\<rparr>;
          send = (\<lambda>x. case x of
             (Ok rep, cr') \<Rightarrow> (Ok (case js_reply (h_json h) rep of Inl e \<Rightarrow> (None, Some e) | Inr b \<Rightarrow> (Some b, None)), cr')
           | (Error e, cr') \<Rightarrow> (Error e, cr')
           | (Panicked, cr') \<Rightarrow> (Panicked, cr'))
      in case js_unmarshal (h_json h) (case value' of None \<Rightarrow> '''' | Some v \<Rightarrow> v) of
           Inl e \<Rightarrow> (Ok (None, Some e), cr)
         | Inr msg \<Rightarrow>
             let c = mget '''' msg ''command''
             in if c = ''del'' then send (bindingDel h ops actor msg cr)
                else if c = ''get'' then send (Ok (bindingGet text enc enc1 ops actor msg (fst cr)), cr)
                else if c = ''set'' then send (bindingSet h text rng ops actor msg cr)
                else if c = ''load'' then
                  (case bindingLoad h ops actor msg cr of
                     (Ok _, cr') \<Rightarrow> (Ok (None, None), cr')
                   | (_, cr') \<Rightarrow> (Panicked, cr'))
                else (Ok (None, None), cr))"

section \<open>Requests to sidecars\<close>

definition reply_json :: "('w, 'r, 'p) handler_env \<Rightarrow> jval \<Rightarrow> Reply" where
  "reply_json h v =
     (case h_marshal h v of
        Inl _ \<Rightarrow> \<lparr>StatusCode = 500, ContentType = '''', Payload = ''''\<rparr>
      | Inr s \<Rightarrow> \<lparr>StatusCode = 200, ContentType = ''application/json'', Payload = s\<rparr>)"

definition getActorInformation where
  "getActorInformation h rng msg s =
     reply_json h (JObj (map (\<lambda>(t, ids). (t, JArr (map JStr ids))) (getLocalActivatedSessions rng (mget '''' msg ''actorType'') s)))"

definition getRuntimeAddr :: "('w, 'r, 'p) handler_env \<Rightarrow> (err + string) \<Rightarrow> int \<Rightarrow> Reply" where
  "getRuntimeAddr h hostname port =
     reply_json h (JObj ((case hostname of Inl _ \<Rightarrow> [] | Inr n \<Rightarrow> [(''host'', JStr n)]) @ [(''port'', JInt port)]))"

definition handlerSidecar where
  "handlerSidecar h rng hostname port value' s =
     (let send = (\<lambda>rep. case js_reply (h_json h) rep of Inl e \<Rightarrow> (None, Some e) | Inr b \<Rightarrow> (Some b, None))
      in case js_unmarshal (h_json h) (case value' of None \<Rightarrow> '''' | Some v \<Rightarrow> v) of
           Inl e \<Rightarrow> (None, Some e)
         | Inr msg \<Rightarrow>
             if mget '''' msg ''command'' = ''getActiveActors'' then send (getActorInformation h rng msg s)
             else if mget '''' msg ''command'' = ''getRuntimeAddr'' then send (getRuntimeAddr h hostname port)
             else (None, None))"

text \<open>
  \<^verbatim>\<open>actors.go\<close>: the active actors of all nodes.  \<open>rpc_call\<close> is the call of another sidecar, \<open>undec\<close> decodes its payload, \<open>own\<close> is
  the answer of this node.  A reply with another status than 200 returns the nil error of the decoding.
\<close>

definition add_actors :: "(string, string list) gomap \<Rightarrow> (string, string list) gomap \<Rightarrow> (string, string list) gomap" where
  "add_actors new info = fold (\<lambda>(t, ids) m. mput t (mget [] m t @ ids) m) new info"

fun gather_actors ::
  "json \<Rightarrow> (string \<Rightarrow> 'w \<Rightarrow> (err + string) \<times> 'w) \<Rightarrow> (string \<Rightarrow> err + (string, string list) gomap) \<Rightarrow> string \<Rightarrow>
    (string, string list) gomap \<Rightarrow> string list \<Rightarrow> (string, string list) gomap \<Rightarrow> 'w \<Rightarrow>
    ((string, string list) gomap option \<times> err option) \<times> 'w" where
  "gather_actors js rpc_call undec me own [] info w = ((Some info, None), w)"
| "gather_actors js rpc_call undec me own (n # ns) info w =
     (if n = me then gather_actors js rpc_call undec me own ns (add_actors own info) w
      else case rpc_call n w of
             (Inl e, w') \<Rightarrow> ((None, Some e), w')
           | (Inr b, w') \<Rightarrow>
               (case js_unreply js b of
                  (_, Some e) \<Rightarrow> ((None, Some e), w')
                | (rep, None) \<Rightarrow>
                    if StatusCode rep \<noteq> 200 then ((None, None), w')
                    else (case undec (Payload rep) of
                            Inl e \<Rightarrow> ((None, Some e), w')
                          | Inr m \<Rightarrow> gather_actors js rpc_call undec me own ns (add_actors m info) w')))"

definition getAllActiveActors where
  "getAllActiveActors js rpc_call undec me own nodes w = gather_actors js rpc_call undec me own nodes [] w"

definition ValidateActorConfig :: "'w http_client \<Rightarrow> string list \<Rightarrow> 'w \<Rightarrow> 'w" where
  "ValidateActorConfig hc types w =
     fold (\<lambda>t w. snd (invoke hc ''HEAD'' [(''path'', actorRuntimeRoutePrefix @ t)] w)) types w"

section \<open>Types of continuations\<close>

fun is_str_value :: "jval option \<Rightarrow> bool" where
  "is_str_value (Some (JStr _)) = True"
| "is_str_value _ = False"

text \<open>The continuations the handler can read; one that names neither a service nor an actor is only reported.\<close>

definition typed_tail :: "jval \<Rightarrow> bool" where
  "typed_tail v \<longleftrightarrow>
     (case v of
        JObj cr \<Rightarrow>
          map_of cr ''serviceName'' = None \<and> map_of cr ''actorType'' = None \<or>
          (if map_of cr ''serviceName'' \<noteq> None then is_str_value (map_of cr ''serviceName'')
           else is_str_value (map_of cr ''actorType'') \<and> is_str_value (map_of cr ''actorId'')) \<and>
          is_str_value (map_of cr ''path'') \<and> is_str_value (map_of cr ''payload'') \<and>
          (mget JNull cr ''method'' = JNull \<or> is_str_value (map_of cr ''method''))
      | _ \<Rightarrow> False)"

lemma str_field_Panicked: "str_field cr k = Panicked \<longleftrightarrow> \<not> is_str_value (map_of cr k)"
  by (auto simp: str_field_def split: option.splits jval.splits)

lemma str_field_cases: obtains s where "str_field cr k = Ok s" "is_str_value (map_of cr k)" | "str_field cr k = Panicked" "\<not> is_str_value (map_of cr k)"
  by (cases "map_of cr k" rule: is_str_value.cases) (auto simp: str_field_def)

lemma tail_msg_typed:
  "tail_msg c cr = Panicked \<longleftrightarrow> \<not> (is_str_value (map_of cr ''path'') \<and> is_str_value (map_of cr ''payload'') \<and>
     (mget JNull cr ''method'' = JNull \<or> is_str_value (map_of cr ''method'')))"
  by (cases rule: str_field_cases [of cr "''path''"]; cases rule: str_field_cases [of cr "''payload''"];
      cases rule: str_field_cases [of cr "''method''"]) (simp_all add: tail_msg_def)

lemma tail_msg_no_error: "tail_msg c cr \<noteq> Error e"
  by (auto simp: tail_msg_def split: result.splits)

lemma tail_dest_typed:
  "tail_dest tg u cr = Panicked \<longleftrightarrow> (map_of cr ''serviceName'' \<noteq> None \<or> map_of cr ''actorType'' \<noteq> None) \<and>
     \<not> (if map_of cr ''serviceName'' \<noteq> None then is_str_value (map_of cr ''serviceName'')
        else is_str_value (map_of cr ''actorType'') \<and> is_str_value (map_of cr ''actorId''))"
  by (cases rule: str_field_cases [of cr "''serviceName''"]; cases rule: str_field_cases [of cr "''actorType''"];
      cases rule: str_field_cases [of cr "''actorId''"]) (auto simp: tail_dest_def)

lemma tail_dest_Error: "tail_dest tg u cr = Error e \<Longrightarrow> map_of cr ''serviceName'' = None \<and> map_of cr ''actorType'' = None"
  by (cases rule: str_field_cases [of cr "''serviceName''"]; cases rule: str_field_cases [of cr "''actorType''"];
      cases rule: str_field_cases [of cr "''actorId''"]) (auto simp: tail_dest_def split: if_splits)

lemma tail_dest_Ok: "tail_dest tg u cr = Ok d \<Longrightarrow> map_of cr ''serviceName'' \<noteq> None \<or> map_of cr ''actorType'' \<noteq> None"
  by (auto simp: tail_dest_def split: if_splits)

lemma tail_call_typed: "tail_call h tg c v = Panicked \<longleftrightarrow> \<not> typed_tail v"
proof (cases v)
  case (JObj cr)
  show ?thesis
  proof (cases "tail_dest tg (h_uuid h) cr")
    case (Ok d)
    then show ?thesis
      using tail_dest_Ok [OF Ok] tail_dest_typed [of tg "h_uuid h" cr] tail_msg_typed [of c cr] tail_msg_no_error [of c cr]
      by (cases "tail_msg c cr") (auto simp: tail_call_def typed_tail_def JObj)
  next
    case (Error e)
    then show ?thesis
      using tail_dest_Error [OF Error] by (simp add: tail_call_def typed_tail_def JObj)
  next
    case Panicked
    then show ?thesis
      using tail_dest_typed [of tg "h_uuid h" cr] by (simp add: tail_call_def typed_tail_def JObj)
  qed
qed (simp_all add: tail_call_def typed_tail_def)

lemma tail_call_no_error: "tail_call h tg c v \<noteq> Error e"
  by (auto simp: tail_call_def split: jval.splits result.splits)

text \<open>A tail call to the actor itself keeps its lock unless it asks to release it; any other does not.\<close>

lemma tail_call_lock:
  assumes "tail_call h tg c (JObj cr) = Ok (Some d, b)" "d_Target d = Session nxt"
  shows "s_Flow nxt = s_Flow tg \<and> d_Method d = actorEndpoint \<and>
    (s_DeferredLockID nxt \<noteq> '''' \<longleftrightarrow> s_Name nxt = s_Name tg \<and> s_ID nxt = s_ID tg \<and> map_of cr ''releaseLock'' \<noteq> Some (JStr ''true''))"
  using assms by (auto simp: tail_call_def tail_dest_def next_actor_def newLockId_def split: result.splits if_splits)

section \<open>Properties\<close>

text \<open>C28 Dynamic types of tail calls: when a method returns a continuation, the handler panics exactly if the continuation is
  ill-typed, that is, not an object or with a missing or non-string field that the code asserts to be a string.
  Otherwise it ends, and a tail call to an actor stays in the flow and takes the lock along exactly if it goes to the
  same actor and does not ask for its release.\<close>

theorem continuation_types:
  assumes "mget '''' msg ''command'' = ''call'' \<or> mget '''' msg ''command'' = ''tell''"
    and "invoke (h_http h) ''POST'' (method_msg tg session msg) w = ((Some rs, None), w')" "StatusCode rs = 200"
    and "h_result h (Payload rs) = (res, None)" "cr_TailCall res" "\<not> cr_Error res"
  shows "(run_method h tg session msg w = (Panicked, w') \<longleftrightarrow> \<not> typed_tail (cr_Value' res)) \<and>
    (typed_tail (cr_Value' res) \<longrightarrow> (\<exists>d reply dbg. run_method h tg session msg w = (Ok (d, reply, dbg), w') \<and>
      (\<forall>d' nxt cr. d = Some d' \<and> d_Target d' = Session nxt \<and> cr_Value' res = JObj cr \<longrightarrow>
        s_Flow nxt = s_Flow tg \<and> (s_DeferredLockID nxt \<noteq> '''' \<longleftrightarrow>
          s_Name nxt = s_Name tg \<and> s_ID nxt = s_ID tg \<and> map_of cr ''releaseLock'' \<noteq> Some (JStr ''true'')))))"
proof -
  define c where "c = mget '''' msg ''command''"
  let ?t = "tail_call h tg c (cr_Value' res)"
  obtain f where run: "run_method h tg session msg w =
      (case ?t of Ok (d, b) \<Rightarrow> (Ok (d, f d b), w') | Error e \<Rightarrow> (Error e, w') | Panicked \<Rightarrow> (Panicked, w'))"
  proof -
    have "\<exists>f. run_method h tg session msg w =
      (case ?t of Ok (d, b) \<Rightarrow> (Ok (d, f d b), w') | Error e \<Rightarrow> (Error e, w') | Panicked \<Rightarrow> (Panicked, w'))"
    proof (cases "c = ''tell''")
      case True
      then show ?thesis
        using assms by (intro exI [of _ "\<lambda>d b. (b, case js_reply (h_json h) rs of Inl _ \<Rightarrow> None | Inr b \<Rightarrow> Some b)"])
          (auto simp: run_method_def tell_result_def c_def [symmetric] split: result.splits)
    next
      case False
      let ?r = "case js_reply (h_json h) rs of Inl _ \<Rightarrow> None | Inr b \<Rightarrow> Some b"
      show ?thesis
        using assms False by (intro exI [of _ "\<lambda>d b. (case b of None \<Rightarrow> ?r | _ \<Rightarrow> b, ?r)"])
          (auto simp: run_method_def call_result_def c_def [symmetric] split: result.splits option.splits)
    qed
    then show thesis
      using that by blast
  qed
  show ?thesis
    using tail_call_typed [of h tg c "cr_Value' res"] tail_call_no_error [of h tg c "cr_Value' res"]
      tail_call_lock [of h tg c] unfolding run by (cases ?t) (auto, blast+)
qed

context redis
begin

lemma store_Del_Error: "store_Del api sc key r = (Error e, r') \<Longrightarrow> view r' = view r"
  by (auto simp: store_Del_def do_cmd_def conv_Error elim!: doRaw_Ok dest!: DEL doRaw_Error)

end

text \<open>Deleting an actor: when the handler reports success, the placement of the actor is gone, so is its persistent state
  unless the store gave no connection for that, nothing else in the store changed, and there is neither a reply nor a
  tail call.\<close>

theorem delete_actor_spec:
  assumes "redis (h_api h) view glob" "js_unmarshal (h_json h) v = Inr msg" "mget '''' msg ''command'' = ''delete''"
    and "handlerActor h tg inflow rid (Some v) act w r = (Ok (d, reply, None), act', w', r')"
    and "K1 = MangleKey (h_sc h) (stateKey (s_Name tg) (s_ID tg))" "K2 = MangleKey (h_sc h) (place [s_Name tg, s_ID tg])"
  shows "d = None \<and> reply = None \<and> s_Flow tg = inflow \<and> view r' K2 = None \<and>
    (view r' K1 = None \<or> (\<exists>e r1. store_Del (h_api h) (h_sc h) (stateKey (s_Name tg) (s_ID tg)) r = (Error e, r1))) \<and>
    (k \<noteq> K1 \<and> k \<noteq> K2 \<longrightarrow> view r' k = view r k)"
proof -
  have body: "s_Flow tg = inflow" "d = None" "reply = None" "delete_actor h tg act w r = (Ok None, act', w', r')"
    using assms(2-4) by (auto simp: handlerActor_def actor_body_def Let_def split: prod.splits result.splits if_splits)
  then obtain x r1 where del: "store_Del (h_api h) (h_sc h) (stateKey (s_Name tg) (s_ID tg)) r = (x, r1)" "x \<noteq> Panicked"
    and sess: "delSession (h_api h) (h_sc h) (tg\<lparr>s_Flow := '''', s_DeferredLockID := ''''\<rparr>) r1 = (Ok (), r')"
    by (auto simp: delete_actor_def split: prod.splits result.splits)
  obtain n where "store_Del (h_api h) (h_sc h) (place [s_Name tg, s_ID tg]) r1 = (Ok n, r')"
    using sess by (auto simp: delSession_def split: prod.splits result.splits)
  then have r': "view r' = (view r1)(K2 := None)"
    using redis.store_Del_Ok [OF assms(1)] assms(6) by blast
  show ?thesis
  proof (cases x)
    case (Ok n)
    then have "view r1 = (view r)(K1 := None)"
      using redis.store_Del_Ok [OF assms(1)] del(1) assms(5) by blast
    then show ?thesis
      using body(1-3) r' by simp
  next
    case (Error e)
    then show ?thesis
      using body(1-3) r' del(1) redis.store_Del_Error [OF assms(1)] by simp
  qed (use del(2) in simp)
qed

section \<open>The error of an invocation\<close>

text \<open>How the rpc layer sees what a handler returns.\<close>

definition outcome_of :: "(err \<Rightarrow> string) \<Rightarrow> (err \<Rightarrow> bytes) \<Rightarrow> Destination option \<times> bytes \<times> err option \<Rightarrow> outcome" where
  "outcome_of text json x =
     (case x of (d, v, None) \<Rightarrow> Returned d v | (d, v, Some e) \<Rightarrow> Failed (text e) (json e) (e = ErrCtx))"

text \<open>
  When the application cannot be invoked, the handler reports no error: the request is completed with an empty value, as if
  the method had returned, and neither the caller nor recovery learns of the failure.
\<close>

lemma failed_invocation_completes:
  assumes "js_unmarshal (h_json h) v = Inr msg" "mget '''' msg ''command'' = ''call'' \<or> mget '''' msg ''command'' = ''tell''"
    and "invoke (h_http h) ''POST'' (method_msg tg (s_Flow tg @ '':'' @ rid) msg) w = ((x, Some e), w')"
  shows "handlerActor h tg (s_Flow tg) rid (Some v) True w r = (Ok (None, None, None), True, w', r)"
    "finish_session j t i m (outcome_of text json (None, None, None)) s = to_release j t (send_out (completion m '''' None) (clear_flow i t s))"
  using assms by (cases x; auto simp: handlerActor_def actor_body_def ensure_active_def run_method_def outcome_of_def finish_session_def Let_def)+

section \<open>Samples\<close>

definition sample_http :: "nat http_client" where
  "sample_http = \<lparr>hc_ctxErr = (\<lambda>w. None), hc_new = (\<lambda>_ _ _. None), hc_head = (\<lambda>_. []),
     hc_do = (\<lambda>q w. (Response 200 ''application/kar+json'' '''' ''{}'', Suc w)), hc_waits = (\<lambda>w. 0), hc_url = ''http://127.0.0.1:8080''\<rparr>"

definition sample_tail :: jval where
  "sample_tail = JObj [(''actorType'', JStr ''Fork''), (''actorId'', JStr ''7''), (''path'', JStr ''/next''), (''payload'', JStr ''[]'')]"

definition sample_handler :: "(nat, mem, reply) handler_env" where
  "sample_handler = \<lparr>h_json = plain_json,
     h_result = (\<lambda>s. (\<lparr>cr_Value' = sample_tail, cr_TailCall = True, cr_Error = False, cr_Message = '''', cr_Stack = ''''\<rparr>, None)),
     h_val = (\<lambda>s. Inr (JStr s)), h_marshal = (\<lambda>v. Inr ''''), h_http = sample_http, h_api = mem_redis, h_sc = sample_sc, h_uuid = ''u''\<rparr>"

definition sample_target :: session where
  "sample_target = \<lparr>s_Name = ''Fork'', s_ID = ''7'', s_Flow = ''f'', s_DeferredLockID = ''''\<rparr>"

lemma invoke_sample:
  "invoke sample_http meth msg w = ((Some \<lparr>StatusCode = 200, ContentType = ''application/kar+json'', Payload = ''{}''\<rparr>, None), Suc w)"
proof -
  have "\<not> snd (parse_int '''')"
    by (simp add: parse_int_def)
  then show ?thesis
    by (simp add: invoke_def sample_http_def retry_do.simps judge_def)
qed

theorem continuation_types_witness:
  "\<exists>d reply dbg. run_method sample_handler sample_target ''f:r'' (actor_msg ''call'' ''/put'' ''[]'') 0 = (Ok (d, reply, dbg), 1)"
proof -
  let ?msg = "actor_msg ''call'' ''/put'' ''[]''" and ?rs = "\<lparr>StatusCode = 200, ContentType = ''application/kar+json'', Payload = ''{}''\<rparr>"
  have h: "mget '''' ?msg ''command'' = ''call'' \<or> mget '''' ?msg ''command'' = ''tell''" "typed_tail sample_tail"
    by (simp_all add: actor_msg_def mget_def typed_tail_def sample_tail_def)
  have i: "invoke (h_http sample_handler) ''POST'' (method_msg sample_target ''f:r'' ?msg) 0 = ((Some ?rs, None), 1)"
    by (simp add: invoke_sample sample_handler_def)
  have r: "h_result sample_handler (Payload ?rs) = (\<lparr>cr_Value' = sample_tail, cr_TailCall = True, cr_Error = False, cr_Message = '''', cr_Stack = ''''\<rparr>, None)"
    by (simp add: sample_handler_def)
  show ?thesis
    using continuation_types [OF h(1) i _ r] h(2) by auto
qed

theorem delete_actor_spec_witness:
  "\<exists>act' w' r'. handlerActor sample_handler sample_target ''f'' ''r'' (Some (json_fields [(''command'', ''delete'')])) False 0
       [(''kar_app_rpc_Fork_7'', MStr ''n1'')] = (Ok (None, None, None), act', w', r') \<and>
     mem_view r' ''kar_app_rpc_Fork_7'' = None"
proof -
  let ?x = "handlerActor sample_handler sample_target ''f'' ''r'' (Some (json_fields [(''command'', ''delete'')])) False 0
       [(''kar_app_rpc_Fork_7'', MStr ''n1'')]"
  have "fst ?x = Ok (None, None, None)"
    by code_simp
  then have x: "?x = (Ok (None, None, None), fst (snd ?x), fst (snd (snd ?x)), snd (snd (snd ?x)))"
    by (simp only: prod_eq_iff fst_conv snd_conv simp_thms)
  have m: "js_unmarshal (h_json sample_handler) (json_fields [(''command'', ''delete'')]) = Inr [(''command'', ''delete'')]"
    "mget '''' [(''command'', ''delete'')] ''command'' = ''delete''"
    by code_simp+
  have K: "MangleKey (h_sc sample_handler) (place [s_Name sample_target, s_ID sample_target]) = ''kar_app_rpc_Fork_7''"
    by code_simp
  have "redis (h_api sample_handler) mem_view star_match"
    by (simp add: sample_handler_def mem.redis_axioms)
  from delete_actor_spec [OF this m x refl refl] x show ?thesis
    unfolding K by blast
qed

end
