(* ===== verification/Rest_Routes.thy ===== *)
theory Rest_Routes
  imports Actor_Handlers Rpc_Topics
begin

text \<open>
  The routes of the REST interface of a node that invoke actors and services, manage bindings and topics and report on the
  system, and the commands of the command line built on the same operations: \<^verbatim>\<open>routes-invoke.go\<close>, \<^verbatim>\<open>routes-reminders.go\<close>,
  \<^verbatim>\<open>routes-events.go\<close>, \<^verbatim>\<open>routes-system.go\<close>, \<^verbatim>\<open>repl.go\<close> and the keys and the purge of \<^verbatim>\<open>runtime-main.go\<close>, all under
  \<^verbatim>\<open>src/core/internal/runtime\<close>.  The router and \<^verbatim>\<open>net/http\<close> are the records of what a route reads of a request and what it
  answers; the routes of the state of actors are in \<^verbatim>\<open>Actor_State\<close>.
\<close>

section \<open>Requests\<close>

record call_req =
  c_service :: string
  c_type :: string
  c_id :: string
  c_path :: string
  c_body :: string
  c_session :: string                                \<comment> \<open>form value \<^verbatim>\<open>session\<close>\<close>
  c_method :: string
  c_pragma :: "string list"                          \<comment> \<open>the values of the header \<^verbatim>\<open>Pragma\<close>\<close>
  c_header :: "err + string"                         \<comment> \<open>the header as JSON\<close>

text \<open>The texts of errors, and the two errors of libraries that the routes tell apart: \<^verbatim>\<open>context.DeadlineExceeded\<close> and
  \<^verbatim>\<open>sarama.ErrTopicAlreadyExists\<close>.\<close>

record route_env =
  x_text :: "err \<Rightarrow> string"
  x_deadline :: "err \<Rightarrow> bool"
  x_exists :: "err \<Rightarrow> bool"

definition header_text :: "call_req \<Rightarrow> string" where
  "header_text q = (case c_header q of Inl _ \<Rightarrow> '''' | Inr m \<Rightarrow> m)"

definition send_failure :: "route_env \<Rightarrow> sess \<Rightarrow> err \<Rightarrow> http_resp" where
  "send_failure x s e =
     (if ctx_done s \<and> e = ErrCtx then http_Error ''Service Unavailable'' 503
      else http_Error (''failed to send message: '' @ x_text x e) 500)"

text \<open>\<^verbatim>\<open>w.WriteHeader(http.StatusAccepted)\<close> followed by a body; a header that is added afterwards is not sent.\<close>

definition accepted :: "string \<Rightarrow> http_resp" where
  "accepted body = \<lparr>hr_code = 202, hr_header = [], hr_body = body\<rparr>"

definition reply_resp :: "Reply \<Rightarrow> http_resp" where
  "reply_resp rep = \<lparr>hr_code = StatusCode rep, hr_header = [(''Content-Type'', ContentType rep)], hr_body = Payload rep\<rparr>"

text \<open>The session of a caller is the flow and the id of its request.\<close>

definition session_flow :: "string \<Rightarrow> string" where
  "session_flow s = split_on CHR '':'' s ! 0"

definition session_parent :: "string \<Rightarrow> string" where
  "session_parent s = (let parts = split_on CHR '':'' s in if length parts \<ge> 2 then parts ! 1 else '''')"

abbreviation req_actor :: "call_req \<Rightarrow> Actor" where
  "req_actor q \<equiv> \<lparr>Type = c_type q, ID = c_id q\<rparr>"

section \<open>Invocations\<close>

type_synonym ('r, 'k) route = "('r, 'k) proc \<Rightarrow> (http_resp result \<times> ('r, 'k) proc) option"

definition tell_answer :: "route_env \<Rightarrow> runtime \<Rightarrow> sess \<Rightarrow> (unit result \<times> ('r, 'k) world) option \<Rightarrow> (http_resp result \<times> ('r, 'k) proc) option" where
  "tell_answer x rt s y =
     map_option (\<lambda>(z, w).
       ((case z of Ok _ \<Rightarrow> Ok (accepted ''OK'') | Error e \<Rightarrow> Ok (send_failure x s e) | Panicked \<Rightarrow> Panicked), rt, s, w)) y"

definition tellHelper :: "route_env \<Rightarrow> ('r, 'p, 'k) ambient \<Rightarrow> call_req \<Rightarrow> ('r, 'k) route" where
  "tellHelper x a q p =
     (case p of (rt, s, w) \<Rightarrow>
        tell_answer x rt s
          (if c_service q \<noteq> '''' then TellService a rt (c_service q) (c_path q) (c_body q) (header_text q) (c_method q) w
           else TellActor a rt (req_actor q) (c_path q) (c_body q) (session_parent (c_session q)) w))"

definition routeImplDelActor :: "route_env \<Rightarrow> ('r, 'p, 'k) ambient \<Rightarrow> call_req \<Rightarrow> ('r, 'k) route" where
  "routeImplDelActor x a q p = (case p of (rt, s, w) \<Rightarrow> tell_answer x rt s (DeleteActor a rt (req_actor q) w))"

definition callPromise :: "route_env \<Rightarrow> ('r, 'p, 'k) ambient \<Rightarrow> call_req \<Rightarrow> ('r, 'k) route" where
  "callPromise x a q p =
     (case (if c_service q \<noteq> '''' then CallPromiseService a (c_service q) (c_path q) (c_body q) (header_text q) (c_method q) p
            else CallPromiseActor a (req_actor q) (c_path q) (c_body q) p) of
        None \<Rightarrow> None
      | Some (Ok (request, None), p') \<Rightarrow> Some (Ok (accepted request), p')
      | Some (Ok (_, Some e), p') \<Rightarrow> Some (Ok (send_failure x (fst (snd p')) e), p')
      | Some (Error e, p') \<Rightarrow> Some (Error e, p')
      | Some (Panicked, p') \<Rightarrow> Some (Panicked, p'))"

definition routeImplAwaitPromise :: "route_env \<Rightarrow> json \<Rightarrow> string \<Rightarrow> runtime \<times> sess \<Rightarrow> (http_resp \<times> runtime \<times> sess) option" where
  "routeImplAwaitPromise x js body p =
     map_option (\<lambda>((b, er), rt, s).
       ((case er of
           Some e \<Rightarrow>
             if ctx_done s \<and> e = ErrCtx then http_Error ''Service Unavailable'' 503
             else http_Error (''failed to await promise: '' @ x_text x e) 500
         | None \<Rightarrow>
             (case js_unreply js (case b of None \<Rightarrow> '''' | Some v \<Rightarrow> v) of
                (_, Some e) \<Rightarrow> http_Error (''failed to unmarsall reply for promise: '' @ x_text x e) 500
              | (reply, None) \<Rightarrow> reply_resp reply)), rt, s))
       (AwaitPromise body p)"

datatype mode = Async | Promise | Sync

fun call_mode :: "string list \<Rightarrow> mode" where
  "call_mode [] = Sync"
| "call_mode (pragma # rest) =
     (if to_lower pragma = ''async'' then Async else if to_lower pragma = ''promise'' then Promise else call_mode rest)"

definition call_answer :: "route_env \<Rightarrow> call_req \<Rightarrow> sess \<Rightarrow> answer \<Rightarrow> http_resp result" where
  "call_answer x q s y =
     (case y of
        (_, Some e) \<Rightarrow>
          Ok (if x_deadline x e then http_Error (''timeout waiting for '' @ c_type q @ '' to be defined'') 408 else send_failure x s e)
      | (None, None) \<Rightarrow> Panicked
      | (Some reply, None) \<Rightarrow>
          Ok (if StatusCode reply = 204 then \<lparr>hr_code = 204, hr_header = [], hr_body = ''''\<rparr> else reply_resp reply))"

text \<open>\<open>mws\<close> and \<open>mw\<close> are what the rest of the process does while the call of a service or of an actor waits.\<close>

definition routeImplCall ::
  "route_env \<Rightarrow> ('r, 'p, 'k) ambient \<Rightarrow> (sess \<times> ('r, 'k) world \<Rightarrow> sess \<times> ('r, 'k) world) \<Rightarrow> (('r, 'k) proc \<Rightarrow> ('r, 'k) proc) \<Rightarrow>
    call_req \<Rightarrow> ('r, 'k) route" where
  "routeImplCall x a mws mw q p =
     (case call_mode (c_pragma q) of
        Async \<Rightarrow> tellHelper x a q p
      | Promise \<Rightarrow> callPromise x a q p
      | Sync \<Rightarrow>
          if c_service q \<noteq> '''' then
            (case p of (rt, sw) \<Rightarrow>
               (case CallService a rt (c_service q) (c_path q) (c_body q) (header_text q) (c_method q) mws sw of
                  None \<Rightarrow> None
                | Some (Ok y, sw') \<Rightarrow> Some (call_answer x q (fst sw') y, rt, sw')
                | Some (Error e, sw') \<Rightarrow> Some (Error e, rt, sw')
                | Some (Panicked, sw') \<Rightarrow> Some (Panicked, rt, sw')))
          else
            (case CallActor a (req_actor q) (c_path q) (c_body q) (session_flow (c_session q)) (session_parent (c_session q)) mw p of
               None \<Rightarrow> None
             | Some (Ok y, p') \<Rightarrow> Some (call_answer x q (fst (snd p')) y, p')
             | Some (Error e, p') \<Rightarrow> Some (Error e, p')
             | Some (Panicked, p') \<Rightarrow> Some (Panicked, p')))"

section \<open>Bindings and topics\<close>

record binding_req =
  b_method :: string
  b_actor :: Actor
  b_id :: string                                     \<comment> \<open>path parameter \<^verbatim>\<open>reminderId\<close> or \<^verbatim>\<open>subscriptionId\<close>\<close>
  b_body :: string
  b_nilOnAbsent :: string                            \<comment> \<open>form value\<close>
  b_contentType :: string
  b_accept :: string

text \<open>The command, the option \<^verbatim>\<open>nilOnAbsent\<close> and the payload of the request for the bindings.\<close>

definition binding_action :: "binding_req \<Rightarrow> (string \<times> string \<times> string) option" where
  "binding_action q =
     (if b_method q = ''GET'' then Some (''get'', b_nilOnAbsent q, '''')
      else if b_method q = ''PUT'' then Some (''set'', ''false'', b_body q)
      else if b_method q = ''DELETE'' then Some (''del'', b_nilOnAbsent q, '''')
      else None)"

definition routeImplBinding ::
  "string \<Rightarrow> route_env \<Rightarrow> ('r, 'p, 'k) ambient \<Rightarrow> (sess \<times> ('r, 'k) world \<Rightarrow> sess \<times> ('r, 'k) world) \<Rightarrow> binding_req \<Rightarrow> ('r, 'k) route" where
  "routeImplBinding kind x a mws q p =
     (case binding_action q of
        None \<Rightarrow> Some (Ok (http_Error (''Unsupported method '' @ b_method q) 405), p)
      | Some (action, noa, body) \<Rightarrow>
          (case p of (rt, sw) \<Rightarrow>
             (case Actor_Calls.Bindings a rt kind (b_actor q) (b_id q) noa action body (b_contentType q) (b_accept q) mws sw of
                None \<Rightarrow> None
              | Some (Ok (_, Some e), sw') \<Rightarrow> Some (Ok (send_failure x (fst sw') e), rt, sw')
              | Some (Ok (Some reply, None), sw') \<Rightarrow> Some (Ok (reply_resp reply), rt, sw')
              | Some (Ok (None, None), sw') \<Rightarrow> Some (Panicked, rt, sw')
              | Some (Error e, sw') \<Rightarrow> Some (Error e, rt, sw')
              | Some (Panicked, sw') \<Rightarrow> Some (Panicked, rt, sw'))))"

definition routeImplReminder where
  "routeImplReminder = routeImplBinding ''reminders''"

definition routeImplSubscription where
  "routeImplSubscription = routeImplBinding ''subscriptions''"

definition routeImplPublish where
  "routeImplPublish x producer topic buf k =
     (case Publish producer topic buf k of
        (Some e, k') \<Rightarrow> (http_Error (''publish error: '' @ x_text x e) 400, k')
      | (None, k') \<Rightarrow> (http_text ''OK'', k'))"

definition routeImplCreateTopic where
  "routeImplCreateTopic x ad topic params k =
     (case createTopic ad topic params k of
        (Some e, k') \<Rightarrow>
          (if x_exists x e then http_text ''Already existed''
           else http_Error (''Failed to create topic '' @ topic @ '': '' @ x_text x e) 500, k')
      | (None, k') \<Rightarrow> (\<lparr>hr_code = 201, hr_header = [(''Location'', ''/kar/v1/event/'' @ topic)], hr_body = ''''\<rparr>, k'))"

definition routeImplDeleteTopic where
  "routeImplDeleteTopic x ad topic k =
     (case deleteTopic ad topic k of
        (Some e, k') \<Rightarrow> (http_Error (''Failed to delete topic '' @ topic @ '': '' @ x_text x e) 500, k')
      | (None, k') \<Rightarrow> (http_text ''OK'', k'))"

section \<open>System\<close>

definition routeImplShutdown :: "sess \<Rightarrow> http_resp \<times> sess" where
  "routeImplShutdown s = (http_text ''OK'', s\<lparr>ctx_done := True\<rparr>)"

definition routeImplHealth :: http_resp where
  "routeImplHealth = http_text ''OK''"

text \<open>The parameters of the reports: the range orders, the encoder.\<close>

record report_env =
  y_rng_services :: "(string, string list) gomap \<Rightarrow> (string, string list) gomap"
  y_rng_ports :: "(string, int) gomap \<Rightarrow> (string, int) gomap"
  y_rng_topology :: "(string, string list) gomap \<Rightarrow> (string, string list) gomap"
  y_rng_actors :: "(string, string list) gomap \<Rightarrow> (string, string list) gomap"
  y_marshal :: "jval \<Rightarrow> err + string"
  y_indent :: "jval \<Rightarrow> err + string"                 \<comment> \<open>\<^verbatim>\<open>json.MarshalIndent\<close>\<close>

record sidecarData =
  sd_Port :: int
  sd_Actors :: "string list"
  sd_Services :: "string list"

text \<open>The first service of a node is its service proper, the others are the actor types; a node without services panics.\<close>

fun sidecar_table :: "(string, int) gomap \<Rightarrow> (string, string list) gomap \<Rightarrow> (string, sidecarData) gomap result" where
  "sidecar_table ports [] = Ok []"
| "sidecar_table ports ((node, []) # rest) = Panicked"
| "sidecar_table ports ((node, srv # acts) # rest) =
     (case sidecar_table ports rest of
        Ok m \<Rightarrow> Ok ((node, \<lparr>sd_Port = mget 0 ports node, sd_Actors = acts, sd_Services = [srv]\<rparr>) # m)
      | Error e \<Rightarrow> Error e
      | Panicked \<Rightarrow> Panicked)"

definition karTopology :: "report_env \<Rightarrow> rpc_state \<Rightarrow> (string, sidecarData) gomap result" where
  "karTopology y st =
     sidecar_table (fst (getPorts (y_rng_ports y) st)) (y_rng_topology y (fst (getTopology (y_rng_services y) st)))"

definition sidecar_json :: "sidecarData \<Rightarrow> jval" where
  "sidecar_json d = JObj [(''port'', JInt (sd_Port d)), (''actors'', JArr (map JStr (sd_Actors d))), (''services'', JArr (map JStr (sd_Services d)))]"

text \<open>The verb \<^verbatim>\<open>%v\<close> on a list of strings.\<close>

definition show_list :: "string list \<Rightarrow> string" where
  "show_list vs = ''['' @ join_with '' '' vs @ '']''"

definition newline :: string where
  "newline = [CHR 0x0A]"

definition sidecar_text :: "string \<times> sidecarData \<Rightarrow> string" where
  "sidecar_text = (\<lambda>(sidecar, d). newline @ sidecar @ '':'' @ itoa (sd_Port d) @ newline @ '' : '' @ show_list (sd_Actors d) @
     newline @ '' : '' @ show_list (sd_Services d))"

definition is_json :: "string \<Rightarrow> bool" where
  "is_json fmt \<longleftrightarrow> fmt = ''json'' \<or> fmt = ''application/json''"

text \<open>The report on the sidecars; an error of the encoder leaves it empty.  Its text lists them in the order of the parameter, which
  is any.\<close>

definition sidecar_report :: "report_env \<Rightarrow> string \<Rightarrow> string \<Rightarrow> rpc_state \<Rightarrow> string result" where
  "sidecar_report y head' fmt st =
     (case karTopology y st of
        Ok m \<Rightarrow>
          Ok (if is_json fmt then (case y_marshal y (JObj (map (\<lambda>(n, d). (n, sidecar_json d)) m)) of Inl _ \<Rightarrow> '''' | Inr s \<Rightarrow> s)
              else head' @ concat (map sidecar_text m))
      | Error e \<Rightarrow> Error e
      | Panicked \<Rightarrow> Panicked)"

definition implGetSidecars :: "report_env \<Rightarrow> rpc_state \<Rightarrow> string result" where
  "implGetSidecars y st = sidecar_report y '''' ''json'' st"

text \<open>\<^const>\<open>None\<close> is the nil map.\<close>

definition actor_text :: "string \<times> string list \<Rightarrow> string" where
  "actor_text = (\<lambda>(t, ids). t @ '': ['' @ newline @ concat (map (\<lambda>i. ''    '' @ i @ newline) (sort ids)) @ '']'' @ newline)"

definition actors_json :: "(string, string list) gomap \<Rightarrow> jval" where
  "actors_json m = JObj (map (\<lambda>(t, ids). (t, JArr (map JStr ids))) m)"

definition formatActorInstanceMap :: "report_env \<Rightarrow> (string, string list) gomap option \<Rightarrow> string \<Rightarrow> err + string" where
  "formatActorInstanceMap y actorInfo fmt =
     (if is_json fmt then y_indent y (case actorInfo of None \<Rightarrow> JNull | Some m \<Rightarrow> actors_json m)
      else Inr (concat (map actor_text (y_rng_actors y (case actorInfo of None \<Rightarrow> [] | Some m \<Rightarrow> m)))))"

text \<open>
  \<^verbatim>\<open>routeImplGetInformation\<close>: \<open>all_active\<close> is the result of \<^const>\<open>getAllActiveActors\<close> and \<open>local\<close> that of
  \<^const>\<open>getLocalActivatedSessions\<close>.  The error of the first one, and that of formatting its result, are in a variable of
  the inner block only.
\<close>

definition information :: "string \<Rightarrow> (err + string) \<Rightarrow> route_env \<Rightarrow> string \<Rightarrow> http_resp" where
  "information fmt data x component =
     (case data of
        Inl e \<Rightarrow> http_Error (''Failed to acquire '' @ component @ '' information: '' @ x_text x e) 500
      | Inr s \<Rightarrow> \<lparr>hr_code = 200, hr_header = [(''Content-Type'', fmt)], hr_body = s\<rparr>)"

definition routeImplGetInformation ::
  "route_env \<Rightarrow> report_env \<Rightarrow> string \<Rightarrow> string \<Rightarrow> (string, string list) gomap option \<times> err option \<Rightarrow> (string, string list) gomap \<Rightarrow>
    rpc_state \<Rightarrow> http_resp result" where
  "routeImplGetInformation x y acc component all_active local st =
     (let fmt = (if acc = ''application/json'' then ''application/json'' else ''text/plain'');
          q = [CHR 0x22]
      in if component = ''id'' then
           Ok (information fmt (Inr (if is_json fmt then ''{'' @ q @ ''id'' @ q @ '':'' @ q @ i_Node (self st) @ q @ ''}''
             else i_Node (self st) @ newline)) x component)
         else if component = ''sidecars'' \<or> component = ''Sidecars'' then
           (case sidecar_report y (newline @ ''Sidecar'' @ newline @ '' : Actors'' @ newline @ '' : Services'') fmt st of
              Ok s \<Rightarrow> Ok (information fmt (Inr s) x component)
            | Error e \<Rightarrow> Error e
            | Panicked \<Rightarrow> Panicked)
         else if component = ''actors'' \<or> component = ''Actors'' then
           Ok (information fmt (Inr (case all_active of
               (_, Some _) \<Rightarrow> ''''
             | (m, None) \<Rightarrow> (case formatActorInstanceMap y m fmt of Inl _ \<Rightarrow> '''' | Inr s \<Rightarrow> s)))
             x component)
         else if component = ''sidecar_actors'' then Ok (information fmt (formatActorInstanceMap y (Some local) fmt) x component)
         else Ok (http_Error (''Invalid information query: '' @ component) 400))"

section \<open>Command line\<close>

text \<open>What a command prints.\<close>

datatype line = Stdout string | Stderr string

record ('r, 'p) cli_env =
  z_unval :: "string \<Rightarrow> err + jval"
  z_marshal :: "jval \<Rightarrow> err + string"
  z_unresult :: "string \<Rightarrow> err + actorCallResult"
  z_show :: "jval \<Rightarrow> string"                          \<comment> \<open>the verb \<^verbatim>\<open>%v\<close>\<close>
  z_text :: "err \<Rightarrow> string"
  z_bodyType :: string                               \<comment> \<open>\<^verbatim>\<open>config.RestBodyContentType\<close>\<close>
  z_report :: report_env
  z_state :: "('r, 'p) state_env"

definition has_prefix :: "string \<Rightarrow> string \<Rightarrow> bool" where
  "has_prefix s pre \<longleftrightarrow> take (length pre) s = pre"

definition status_lines :: "Reply \<Rightarrow> line list" where
  "status_lines reply = [Stderr (''[STDERR] HTTP status: '' @ itoa (StatusCode reply)), Stderr (''[STDERR] '' @ Payload reply)]"

definition actor_lines :: "('r, 'p) cli_env \<Rightarrow> Reply \<Rightarrow> line list" where
  "actor_lines z reply =
     (if StatusCode reply = 204 then [Stdout ''Method completed normally with void result.'']
      else if StatusCode reply = 200 then
        (if has_prefix (ContentType reply) ''application/kar+json'' then
           (case z_unresult z (Payload reply) of
              Inl e \<Rightarrow> [Stderr (''[STDERR] Internal error: malformed method result: '' @ z_text z e)]
            | Inr res \<Rightarrow>
                if cr_Error res
                then [Stderr (''[STDERR] Exception raised: '' @ cr_Message res), Stderr (''[STDERR] Stacktrace: '' @ cr_Stack res)]
                else [Stdout (''Method result: '' @ z_show z (cr_Value' res))])
         else [Stdout (Payload reply)])
      else status_lines reply)"

text \<open>An argument that is not JSON is taken for a string.\<close>

definition method_args :: "('r, 'p) cli_env \<Rightarrow> string list \<Rightarrow> jval" where
  "method_args z as = JArr (map (\<lambda>a. case z_unval z a of Inl _ \<Rightarrow> JStr a | Inr v \<Rightarrow> v) as)"

text \<open>A command: the exit code and the output.\<close>

definition cli_answer :: "(Reply \<Rightarrow> line list) \<Rightarrow> (answer result \<times> 'q) option \<Rightarrow> ((int \<times> line list) result \<times> 'q) option" where
  "cli_answer lines y =
     map_option (\<lambda>(v, q).
       (case v of
          Ok (_, Some _) \<Rightarrow> Ok (1, [])
        | Ok (Some reply, None) \<Rightarrow> Ok (0, lines reply)
        | Ok (None, None) \<Rightarrow> Panicked
        | Error e \<Rightarrow> Error e
        | Panicked \<Rightarrow> Panicked, q)) y"

definition invokeActorMethod ::
  "('r, 'p) cli_env \<Rightarrow> ('r, 'p, 'k) ambient \<Rightarrow> string list \<Rightarrow> (('r, 'k) proc \<Rightarrow> ('r, 'k) proc) \<Rightarrow> ('r, 'k) proc \<Rightarrow>
    ((int \<times> line list) result \<times> ('r, 'k) proc) option" where
  "invokeActorMethod z a as mw p =
     (case as of
        t # i # m # rest \<Rightarrow>
          (case z_marshal z (method_args z rest) of
             Inl _ \<Rightarrow> Some (Ok (1, []), p)
           | Inr payload \<Rightarrow> cli_answer (actor_lines z) (CallActor a \<lparr>Type = t, ID = i\<rparr> (''/'' @ m) payload '''' '''' mw p))
      | _ \<Rightarrow> Some (Panicked, p))"

text \<open>\<^verbatim>\<open>strings.ToUpper\<close>, on ASCII letters.\<close>

definition to_upper :: "string \<Rightarrow> string" where
  "to_upper = map (\<lambda>c. if CHR ''a'' \<le> c \<and> c \<le> CHR ''z'' then char_of (of_char c - 32 :: nat) else c)"

definition service_lines :: "Reply \<Rightarrow> line list" where
  "service_lines reply = (if StatusCode reply \<noteq> 200 then status_lines reply else [Stdout (Payload reply)])"

definition body_header :: "string \<Rightarrow> string" where
  "body_header ct = (let q = [CHR 0x22] in ''{'' @ q @ ''Content-Type'' @ q @ '': ['' @ q @ ct @ q @ '']}'')"

definition invokeServiceEndpoint ::
  "('r, 'p) cli_env \<Rightarrow> ('r, 'p, 'k) ambient \<Rightarrow> string list \<Rightarrow> (sess \<times> ('r, 'k) world \<Rightarrow> sess \<times> ('r, 'k) world) \<Rightarrow>
    runtime \<Rightarrow> sess \<times> ('r, 'k) world \<Rightarrow> ((int \<times> line list) result \<times> sess \<times> ('r, 'k) world) option" where
  "invokeServiceEndpoint z a as mws rt sw =
     (case as of
        m # service # path # rest \<Rightarrow>
          (let (body, header) = (case rest of [] \<Rightarrow> ('''', '''') | b # _ \<Rightarrow> (b, body_header (z_bodyType z)))
           in cli_answer service_lines (CallService a rt service (''/'' @ path) body header (to_upper m) mws sw))
      | _ \<Rightarrow> Some (Panicked, sw))"

text \<open>
  \<^verbatim>\<open>getInformation\<close>: \<open>component\<close>, \<open>actorType\<close>, \<open>actorId\<close>, \<open>resident\<close> and \<open>style\<close> are the options of the command, \<open>all_active\<close> the result of
  \<^const>\<open>getAllActiveActors\<close>.  The errors are in variables of inner blocks.
\<close>

definition state_report :: "('r, 'p) cli_env \<Rightarrow> string \<Rightarrow> string \<Rightarrow> 'r \<Rightarrow> string result \<times> 'r" where
  "state_report z actorType actorId r =
     (case actorGetAllState (z_state z) actorType actorId r of
        (Ok m, r') \<Rightarrow>
          (Ok (if m = [] then ''Actor '' @ actorType @ ''['' @ actorId @ ''] has no persisted state''
               else case y_indent (z_report z) (JObj m) of
                      Inl _ \<Rightarrow> ''''
                    | Inr s \<Rightarrow> ''Persisted state of actor '' @ actorType @ ''['' @ actorId @ ''] is:'' @ newline @ s), r')
      | (Error _, r') \<Rightarrow> (Ok '''', r')
      | (Panicked, r') \<Rightarrow> (Panicked, r'))"

definition instances_prefix :: "string \<Rightarrow> bool \<Rightarrow> string" where
  "instances_prefix actorType resident =
     (if resident then
        (if actorType \<noteq> '''' then ''Memory-resident instances of actor type '' @ actorType @ '' are:'' @ newline
         else ''Listing all memory-resident actor instances:'' @ newline)
      else
        (if actorType \<noteq> '''' then ''Known instances of actor type '' @ actorType @ '' are:'' @ newline
         else ''Listing all known actor instances:'' @ newline))"

definition or_empty :: "err + string \<Rightarrow> string" where
  "or_empty y = (case y of Inl _ \<Rightarrow> '''' | Inr s \<Rightarrow> s)"

definition getInformation ::
  "('r, 'p) cli_env \<Rightarrow> string \<Rightarrow> string \<Rightarrow> string \<Rightarrow> bool \<Rightarrow> string \<Rightarrow> (string, string list) gomap option \<times> err option \<Rightarrow> rpc_state \<Rightarrow>
    'r \<Rightarrow> (int \<times> line list) result \<times> 'r" where
  "getInformation z component actorType actorId resident style all_active st r =
     (let opt = to_lower component;
          out = (\<lambda>(v, r'). (case v of Ok s \<Rightarrow> Ok (0, [Stdout s]) | Error e \<Rightarrow> Error e | Panicked \<Rightarrow> Panicked, r'));
          shown = (\<lambda>m. instances_prefix actorType resident @ or_empty (formatActorInstanceMap (z_report z) m style))
      in if opt = ''sidecar'' \<or> opt = ''sidecars'' then
           out (sidecar_report (z_report z) (newline @ ''Sidecar : host : port '' @ newline @ '' : Actors'' @ newline @ '' : Services'') style st, r)
         else if opt = ''actor'' \<or> opt = ''actors'' then
           (if actorId \<noteq> '''' then out (state_report z actorType actorId r)
            else if resident then
              out (Ok (case all_active of (_, Some _) \<Rightarrow> instances_prefix actorType resident | (m, None) \<Rightarrow> shown m), r)
            else
              (case getAllSessions (st_api (z_state z)) (st_sc (z_state z)) actorType r of
                 (Ok m, r') \<Rightarrow> out (Ok (shown (Some m)), r')
               | (Error _, r') \<Rightarrow> out (Ok (instances_prefix actorType resident), r')
               | (Panicked, r') \<Rightarrow> (Panicked, r')))
         else (Ok (1, []), r))"

section \<open>Keys of an application\<close>

definition mangle :: "string \<Rightarrow> string \<Rightarrow> string" where
  "mangle app key = ''kar'' @ Separator # app @ Separator # key"

text \<open>\<^verbatim>\<open>parts[1]\<close> is evaluated only after \<^verbatim>\<open>parts[0] == "kar"\<close>, and panics if there is no second part.\<close>

definition unmangle :: "string \<Rightarrow> string \<Rightarrow> string result" where
  "unmangle app key =
     (let parts = split_on Separator key
      in if parts ! 0 \<noteq> ''kar'' then Ok key
         else if length parts < 2 then Panicked
         else if parts ! 1 = app then Ok (join_with [Separator] (drop 2 parts))
         else Ok key)"

text \<open>\<^verbatim>\<open>purge\<close>: errors are logged; \<^const>\<open>None\<close> stands for a scan that has not ended.\<close>

definition purge ::
  "'k sarama_admin \<Rightarrow> ('r, 'p) redigo \<Rightarrow> StoreConfig \<Rightarrow> nat \<Rightarrow> string \<Rightarrow> string \<Rightarrow> 'k \<times> 'r \<Rightarrow> (unit result \<times> 'k \<times> 'r) option" where
  "purge ad api sc fuel topic pattern s =
     (case s of (k, r) \<Rightarrow>
        map_option (\<lambda>(v, r'). (case v of Panicked \<Rightarrow> Panicked | _ \<Rightarrow> Ok (), snd (deleteTopic ad topic k), r'))
          (Purge api sc fuel pattern r))"

section \<open>Properties\<close>

lemma session_parts:
  assumes "CHR '':'' \<notin> set fl" "CHR '':'' \<notin> set rid"
  shows "session_flow (fl @ '':'' @ rid) = fl" "session_parent (fl @ '':'' @ rid) = rid"
  using assms by (simp_all add: session_flow_def session_parent_def split_on_append split_on_absent)

text \<open>A call of an actor whose response arrives while it waits returns the reply of the callee.\<close>

lemma CallActor_answered:
  assumes "json_lib (a_json a)" "js_marshal (a_json a) (actor_msg ''call'' path payload) = Inr b" "fl \<noteq> ''''"
    and "Send (a_env a) (a_fuel a) (a_rnd a) (call_request False (newRequestId (a_uuid a)) (to_actor actor fl actorEndpoint)
      (defaultTimeout (a_now a) (MissingComponentTimeout rt)) parent (Some b)) w = Some (Ok (), w1)"
    and "rs_RequestID m = newRequestId (a_uuid a)" "rs_ErrMsg m = ''''" "rs_Value m = Some v" "js_reply (a_json a) rep = Inr v"
    "int64 (StatusCode rep)"
  shows "\<exists>rt' s'. CallActor a actor path payload fl parent (\<lambda>(rt, s, w). (rt, accept_response m s, w)) (rt, s, w) =
    Some (Ok (Some rep, None), rt', s', w1) \<and> map_of (pending s') (newRequestId (a_uuid a)) = None"
proof -
  have "js_unreply (a_json a) v = (rep, None)"
    using json_lib.reply [OF assms(1,9)] assms(8) by auto
  moreover have "async (a_env a) (a_fuel a) (a_rnd a) (a_uuid a) (to_actor actor fl actorEndpoint)
      (defaultTimeout (a_now a) (MissingComponentTimeout rt)) parent (Some b) (s, w) =
      Some (Ok (newRequestId (a_uuid a), nresult s), store_request (newRequestId (a_uuid a)) s, w1)"
    using assms(4) by (simp add: async_def issue_def)
  ultimately show ?thesis
    using assms(2,3,5-7) by (simp add: CallActor_def Let_def select_result_def read_reply_def store_request_def accept_response_def)
qed


text \<open>The keys of an application in the store: stripping the prefix of the application gives the key back exactly when the name
  of the application has no underscore; otherwise the prefix stays.  Distinct keys stay distinct.\<close>

theorem unmangle_mangle:
  "unmangle app (mangle app key) = Ok (if Separator \<notin> set app then key else mangle app key) \<and> inj (mangle app)"
proof
  have parts: "split_on Separator (mangle app key) = ''kar'' # split_on Separator (app @ Separator # key)"
    by (simp add: mangle_def split_on_append Separator_def)
  show "unmangle app (mangle app key) = Ok (if Separator \<notin> set app then key else mangle app key)"
  proof (cases "Separator \<in> set app")
    case False
    then show ?thesis
      using parts by (simp add: unmangle_def split_on_append join_split)
  next
    case True
    have "split_on Separator (app @ Separator # key) ! 0 \<in> set (split_on Separator (app @ Separator # key))"
      by (rule nth_mem) simp
    then have "split_on Separator (app @ Separator # key) ! 0 \<noteq> app"
      using True split_on_free by metis
    then show ?thesis
      using parts True by (cases "split_on Separator (app @ Separator # key)") (simp_all add: unmangle_def)
  qed
  show "inj (mangle app)"
    by (simp add: inj_on_def mangle_def)
qed

text \<open>An error of the collection of the active actors is not reported: the answer is 200 without content.\<close>

lemma information_hides_error:
  "routeImplGetInformation x y acc ''actors'' (m, Some e) local st =
     Ok \<lparr>hr_code = 200, hr_header = [(''Content-Type'', if acc = ''application/json'' then ''application/json'' else ''text/plain'')], hr_body = ''''\<rparr>"
  by (simp add: routeImplGetInformation_def information_def)

text \<open>Every node in the topology has a service, so the table of the sidecars can be made in every state.\<close>

lemma sidecar_table_Ok: "\<forall>(n, srvs) \<in> set t. srvs \<noteq> [] \<Longrightarrow> \<exists>m. sidecar_table ports t = Ok m"
  by (induction ports t rule: sidecar_table.induct) auto

lemma wf_fold_mput: "wf_map m \<Longrightarrow> wf_map (fold (\<lambda>node m. mput node (g m node) m) ns m)"
  by (induction ns arbitrary: m) (simp_all add: wf_map_mput)

lemma node_services:
  assumes "\<forall>n v. map_of m n = Some v \<longrightarrow> v \<noteq> []"
  shows "\<forall>n v. map_of (fold (\<lambda>n m. mput n (mget [] m n @ [srv]) m) ns m) n = Some v \<longrightarrow> v \<noteq> []"
  using assms
proof (induction ns arbitrary: m)
  case (Cons a ns)
  have "\<forall>n v. map_of (mput a (mget [] m a @ [srv]) m) n = Some v \<longrightarrow> v \<noteq> []"
    using Cons.prems by auto
  from Cons.IH [OF this] show ?case
    by simp
qed simp

lemma topology_nonempty:
  assumes "wf_map m" "\<forall>n v. map_of m n = Some v \<longrightarrow> v \<noteq> []"
  shows "wf_map (fold (\<lambda>(srv, ns) m. fold (\<lambda>n m. mput n (mget [] m n @ [srv]) m) ns m) t m) \<and>
    (\<forall>n v. map_of (fold (\<lambda>(srv, ns) m. fold (\<lambda>n m. mput n (mget [] m n @ [srv]) m) ns m) t m) n = Some v \<longrightarrow> v \<noteq> [])"
  using assms
proof (induction t arbitrary: m)
  case (Cons x t)
  obtain srv ns where x: "x = (srv, ns)"
    by force
  show ?case
    using Cons.IH [OF wf_fold_mput [OF Cons.prems(1)] node_services [OF Cons.prems(2)]] x by simp
qed simp

lemma karTopology_Ok:
  assumes "range_order (y_rng_topology y)"
  shows "\<exists>m. karTopology y st = Ok m"
proof -
  let ?t = "fst (getTopology (y_rng_services y) st)"
  have "wf_map ?t \<and> (\<forall>n v. map_of ?t n = Some v \<longrightarrow> v \<noteq> [])"
    using topology_nonempty [of "[]"] by (simp add: getTopology_def)
  then have "\<forall>(n, srvs) \<in> set (y_rng_topology y ?t). srvs \<noteq> []"
    using range_order_set [OF assms] wf_map_map_of by fastforce
  then show ?thesis
    unfolding karTopology_def by (rule sidecar_table_Ok)
qed

section \<open>Samples\<close>

definition sample_call_req :: call_req where
  "sample_call_req = \<lparr>c_service = '''', c_type = ''Fork'', c_id = ''7'', c_path = ''put'', c_body = '''', c_session = ''f:r'', c_method = ''POST'',
     c_pragma = [''no-cache''], c_header = Inr ''{}''\<rparr>"

definition sample_reply :: Reply where
  "sample_reply = \<lparr>StatusCode = 200, ContentType = ''text/plain'', Payload = ''5''\<rparr>"

definition sample_resp :: "string \<Rightarrow> Response" where
  "sample_resp v = \<lparr>rs_RequestID = ''req-u'', rs_Value = Some v, rs_Deadline = 0, rs_ErrMsg = '''', rs_Node = ''n1''\<rparr>"

definition sample_texts :: route_env where
  "sample_texts = \<lparr>x_text = (\<lambda>e. ''error''), x_deadline = (\<lambda>e. False), x_exists = (\<lambda>e. False)\<rparr>"


text \<open>
  The table takes the first service of a node for its service and the others for its actor types.  The topology lists them
  in the order in which Go ranges over the routing table: the same state gives two tables.
\<close>

definition two_services :: rpc_state where
  "two_services = sample_st\<lparr>service2nodes := [(''shop'', [''n1'']), (''Fork'', [''n1''])]\<rparr>"

definition ordered_report :: "((string, string list) gomap \<Rightarrow> (string, string list) gomap) \<Rightarrow> report_env" where
  "ordered_report rng = \<lparr>y_rng_services = rng, y_rng_ports = (\<lambda>m. m), y_rng_topology = (\<lambda>m. m), y_rng_actors = (\<lambda>m. m),
     y_marshal = (\<lambda>v. Inr ''''), y_indent = (\<lambda>v. Inr '''')\<rparr>"

lemma service_by_chance:
  "range_order (rev :: (string, string list) gomap \<Rightarrow> _)"
  "map_of (case karTopology (ordered_report (\<lambda>m. m)) two_services of Ok m \<Rightarrow> map (\<lambda>(n, d). (n, sd_Services d)) m) ''n1'' = Some [''shop'']"
  "map_of (case karTopology (ordered_report rev) two_services of Ok m \<Rightarrow> map (\<lambda>(n, d). (n, sd_Services d)) m) ''n1'' = Some [''Fork'']"
  by (simp add: range_order_def) code_simp+

end
