(* ===== verification/Debug_Kar.thy ===== *)
theory Debug_Kar
  imports Debug_Routes Rest_Routes
begin

text \<open>
  The commands of \<^verbatim>\<open>debugServe\<close> (\<^verbatim>\<open>routes-debug.go\<close>) that run an operation of the command line
  in the sidecar of the debugger: \<^verbatim>\<open>kar invoke\<close>, \<^verbatim>\<open>kar rest\<close>, \<^verbatim>\<open>kar get\<close>, \<^verbatim>\<open>kar purge\<close>
  and \<^verbatim>\<open>kar drain\<close>.  They lead to a message for the debuggers or to an error for the one that
  asked, as the commands of \<^const>\<open>serve_command\<close> do.  The theorem relates them to the operations of the
  command line.
\<close>

section \<open>Answers\<close>

definition serve_json :: "('r, 'p) cli_env \<Rightarrow> jval \<Rightarrow> serve" where
  "serve_json z v = (case z_marshal z v of Inl e \<Rightarrow> ToOne (Some e) | Inr b \<Rightarrow> ToAll (Some b))"

text \<open>The arguments of \<^verbatim>\<open>kar invoke\<close> and \<^verbatim>\<open>kar rest\<close>, of the message decoded as a map of lists.\<close>

definition kar_args :: "(string, string list) gomap \<Rightarrow> err + string list" where
  "kar_args argsMap =
     (case map_of argsMap ''args'' of
        None \<Rightarrow> Inl (ErrMsg ''Error: no arguments provided.'')
      | Some args \<Rightarrow>
          if length args < 3 then Inl (ErrMsg ''Error: too few arguments provided.'') else Inr args)"

text \<open>What becomes of a reply; a reply that is missing without an error is dereferenced.\<close>

definition serve_answer :: "(Reply \<Rightarrow> serve) \<Rightarrow> (answer result \<times> 'q) option \<Rightarrow> (serve result \<times> 'q) option" where
  "serve_answer render y =
     map_option (\<lambda>(v, q).
       (case v of
          Ok (_, Some e) \<Rightarrow> Ok (ToOne (Some e))
        | Ok (Some reply, None) \<Rightarrow> Ok (render reply)
        | Ok (None, None) \<Rightarrow> Panicked
        | Error e \<Rightarrow> Error e
        | Panicked \<Rightarrow> Panicked, q)) y"

section \<open>kar invoke\<close>

definition invoke_result :: "('r, 'p) cli_env \<Rightarrow> Reply \<Rightarrow> (string, jval) gomap" where
  "invoke_result z reply =
     (if StatusCode reply = 200 then
        if has_prefix (ContentType reply) ''application/kar+json'' then
          (case z_unresult z (Payload reply) of
             Inl _ \<Rightarrow> []
           | Inr res \<Rightarrow> if cr_Error res then [(''error'', JStr (cr_Message res))] else [(''value'', cr_Value' res)])
        else [(''value'', JStr (Payload reply))]
      else [])"

definition invoke_json :: "('r, 'p) cli_env \<Rightarrow> string \<Rightarrow> Reply \<Rightarrow> jval" where
  "invoke_json z commandId reply =
     JObj ([(''commandId'', JStr commandId), (''command'', JStr ''kar invoke''), (''status'', JInt (StatusCode reply))] @
       invoke_result z reply)"

text \<open>
  The call runs in a goroutine, so that the loop of \<^verbatim>\<open>debugServe\<close> goes on: \<open>serve_invoke\<close> is what the loop does, an
  error or the start of the goroutine with its call, and \<open>doInvoke\<close> is the goroutine.
\<close>

definition serve_invoke :: "('r, 'p) cli_env \<Rightarrow> (string, string list) gomap \<Rightarrow> serve + (Actor \<times> string \<times> string)" where
  "serve_invoke z argsMap =
     (case kar_args argsMap of
        Inl e \<Rightarrow> Inl (ToOne (Some e))
      | Inr args \<Rightarrow>
          (case z_marshal z (method_args z (drop 3 args)) of
             Inl e \<Rightarrow> Inl (ToOne (Some e))
           | Inr payload \<Rightarrow> Inr (\<lparr>Type = args ! 0, ID = args ! 1\<rparr>, ''/'' @ args ! 2, payload)))"

definition doInvoke ::
  "('r, 'p) cli_env \<Rightarrow> ('r, 'p, 'k) ambient \<Rightarrow> string \<Rightarrow> Actor \<times> string \<times> string \<Rightarrow> (('r, 'k) proc \<Rightarrow> ('r, 'k) proc) \<Rightarrow>
    ('r, 'k) proc \<Rightarrow> (serve result \<times> ('r, 'k) proc) option" where
  "doInvoke z a commandId = (\<lambda>(actor, path, payload) mw p.
     serve_answer (\<lambda>reply. serve_json z (invoke_json z commandId reply)) (CallActor a actor path payload '''' '''' mw p))"

section \<open>kar rest\<close>

definition rest_json :: "string \<Rightarrow> Reply \<Rightarrow> jval" where
  "rest_json commandId reply =
     JObj [(''commandId'', JStr commandId), (''command'', JStr ''kar rest''), (''status'', JInt (StatusCode reply)),
       (if StatusCode reply \<noteq> 200 then ''error'' else ''value'', JStr (Payload reply))]"

definition serve_rest ::
  "('r, 'p) cli_env \<Rightarrow> ('r, 'p, 'k) ambient \<Rightarrow> string \<Rightarrow> (string, string list) gomap \<Rightarrow>
    (sess \<times> ('r, 'k) world \<Rightarrow> sess \<times> ('r, 'k) world) \<Rightarrow> runtime \<Rightarrow> sess \<times> ('r, 'k) world \<Rightarrow>
    (serve result \<times> sess \<times> ('r, 'k) world) option" where
  "serve_rest z a commandId argsMap mws rt sw =
     (case kar_args argsMap of
        Inl e \<Rightarrow> Some (Ok (ToOne (Some e)), sw)
      | Inr args \<Rightarrow>
          (let meth = to_upper (args ! 0); service = args ! 1; path = ''/'' @ args ! 2;
               (body, header) = (if length args > 3 then (args ! 3, body_header (z_bodyType z)) else ('''', ''''))
           in serve_answer (\<lambda>reply. serve_json z (rest_json commandId reply))
                (CallService a rt service path body header meth mws sw)))"

section \<open>kar get, purge and drain\<close>

text \<open>
  \<^verbatim>\<open>kar get\<close>: an error of reading the state leaves the entry out; an error of \<^verbatim>\<open>GetAllSessions\<close> is in a variable of
  the inner block, so that the entry is the empty text.
\<close>

definition get_json :: "string \<Rightarrow> string \<Rightarrow> (string \<times> string) list \<Rightarrow> jval" where
  "get_json commandId subsystem extra =
     JObj (map (\<lambda>(k, v). (k, JStr v))
       ([(''commandId'', commandId), (''command'', ''kar get''), (''subsystem'', subsystem)] @ extra))"

definition get_state :: "('r, 'p) cli_env \<Rightarrow> string \<Rightarrow> string \<Rightarrow> 'r \<Rightarrow> (string \<times> string) list result \<times> 'r" where
  "get_state z actorType actorId r =
     (case actorGetAllState (z_state z) actorType actorId r of
        (Ok actorState, r') \<Rightarrow>
          (Ok (if actorState = [] then []
               else case z_marshal z (JObj actorState) of Inl _ \<Rightarrow> [] | Inr b \<Rightarrow> [(''state'', b)]), r')
      | (Error _, r') \<Rightarrow> (Ok [], r')
      | (Panicked, r') \<Rightarrow> (Panicked, r'))"

definition get_actors :: "('r, 'p) cli_env \<Rightarrow> string \<Rightarrow> 'r \<Rightarrow> (string \<times> string) list result \<times> 'r" where
  "get_actors z actorType r =
     (case getAllSessions (st_api (z_state z)) (st_sc (z_state z)) actorType r of
        (Ok m, r') \<Rightarrow> (Ok [(''actors'', or_empty (z_marshal z (actors_json m)))], r')
      | (Error _, r') \<Rightarrow> (Ok [(''actors'', '''')], r')
      | (Panicked, r') \<Rightarrow> (Panicked, r'))"

definition serve_get :: "('r, 'p) cli_env \<Rightarrow> (string, string) gomap \<Rightarrow> rpc_state \<Rightarrow> 'r \<Rightarrow> serve result \<times> 'r" where
  "serve_get z msg st r =
     (let subsystem = mget '''' msg ''subsystem''; commandId = mget '''' msg ''commandId'';
          send = (\<lambda>name (v, r'). (map_result (\<lambda>extra. serve_json z (get_json commandId name extra)) v, r'))
      in if subsystem = ''sidecars'' \<or> subsystem = ''sidecar'' then
           send ''sidecars'' (map_result (\<lambda>s. [(''sidecars'', s)]) (implGetSidecars (z_report z) st), r)
         else if subsystem = ''actor'' \<or> subsystem = ''actors'' then
           send ''actors''
             (if mget '''' msg ''actorId'' \<noteq> ''''
              then get_state z (mget '''' msg ''actorType'') (mget '''' msg ''actorId'') r
              else get_actors z (mget '''' msg ''actorType'') r)
         else (Ok (ToOne (Some (ErrMsg (''Invalid command: '' @ subsystem)))), r))"

definition serve_purge where
  "serve_purge ad api sc fuel app = purge ad api sc fuel (''kar'' @ Separator # app) ''*''"

definition serve_drain where
  "serve_drain ad api sc fuel app = purge ad api sc fuel (''kar'' @ Separator # app) (''pubsub'' @ Separator # ''*'')"

section \<open>The command line and the debugger agree\<close>

text \<open>
  The outcome of a command at the debugger and on the command line: an error is an error for the debugger and the exit code 1, and
  a reply is rendered by both; panics and errors of the model are the same.
\<close>

definition agrees :: "(Reply \<Rightarrow> serve) \<Rightarrow> (Reply \<Rightarrow> line list) \<Rightarrow> serve result \<Rightarrow> (int \<times> line list) result \<Rightarrow> bool" where
  "agrees render lines x y =
     (case (x, y) of
        (Ok s, Ok (code, out)) \<Rightarrow>
          (code = 1 \<and> out = [] \<and> (\<exists>e. s = ToOne (Some e))) \<or> (code = 0 \<and> (\<exists>reply. s = render reply \<and> out = lines reply))
      | (Error e, Error e') \<Rightarrow> e = e'
      | (Panicked, Panicked) \<Rightarrow> True
      | _ \<Rightarrow> False)"

lemma answers_agree: "rel_option (rel_prod (agrees render lines) (=)) (serve_answer render y) (cli_answer lines y)"
  by (cases y) (auto simp: serve_answer_def cli_answer_def agrees_def split: result.splits option.splits prod.splits)

lemma three_args:
  assumes "3 \<le> length args"
  obtains t i m rest where "args = t # i # m # rest"
  using assms by (metis Suc_le_length_iff numeral_3_eq_3)

lemma kar_args_three: "map_of argsMap ''args'' = Some args \<Longrightarrow> 3 \<le> length args \<Longrightarrow> kar_args argsMap = Inr args"
  by (simp add: kar_args_def)

lemma invoke_as_cli:
  assumes "map_of argsMap ''args'' = Some args" and "3 \<le> length args"
  shows "case serve_invoke z argsMap of
           Inl x \<Rightarrow> (\<exists>e. x = ToOne (Some e)) \<and> invokeActorMethod z a args mw p = Some (Ok (1, []), p)
         | Inr started \<Rightarrow> rel_option (rel_prod (agrees (\<lambda>reply. serve_json z (invoke_json z cid reply)) (actor_lines z)) (=))
             (doInvoke z a cid started mw p) (invokeActorMethod z a args mw p)"
  by (rule three_args [OF assms(2)])
    (auto simp: serve_invoke_def kar_args_three [OF assms] invokeActorMethod_def doInvoke_def answers_agree split: sum.splits)

lemma rest_as_cli:
  assumes "map_of argsMap ''args'' = Some args" and "3 \<le> length args"
  shows "rel_option (rel_prod (agrees (\<lambda>reply. serve_json z (rest_json cid reply)) service_lines) (=))
           (serve_rest z a cid argsMap mws rt sw) (invokeServiceEndpoint z a args mws rt sw)"
proof (rule three_args [OF assms(2)])
  fix t i m rest
  assume "args = t # i # m # rest"
  then show ?thesis
    by (cases rest) (simp_all add: serve_rest_def kar_args_three [OF assms] invokeServiceEndpoint_def answers_agree Let_def)
qed


definition sample_cli :: "(mem, reply) cli_env" where
  "sample_cli = \<lparr>z_unval = (\<lambda>_. Inl ErrNil), z_marshal = (\<lambda>_. Inr ''[]''), z_unresult = (\<lambda>_. Inl ErrNil), z_show = (\<lambda>_. ''''),
     z_text = (\<lambda>_. ''''), z_bodyType = ''application/json'', z_report = ordered_report id, z_state = sample_state\<rparr>"

definition sample_args :: "string list" where
  "sample_args = [''Fork'', ''7'', ''put'']"



text \<open>A failure to read the sessions is reported to the debugger as an empty text without an error.\<close>

lemma sessions_error_hidden:
  assumes "getAllSessions (st_api (z_state z)) (st_sc (z_state z)) (mget [] msg ''actorType'') r = (Error e, r')"
    and "mget [] msg ''subsystem'' = ''actors''" and "mget [] msg ''actorId'' = []"
  shows "serve_get z msg st r = (Ok (serve_json z (get_json (mget [] msg ''commandId'') ''actors'' [(''actors'', [])])), r')"
  using assms by (simp add: serve_get_def get_actors_def Let_def)

end
