(* ===== verification/Deadlocks.thy ===== *)
theory Deadlocks
  imports KAR_Prelude
begin

text \<open>
  The deadlock detector of the debugger client (\<^verbatim>\<open>cmd/kar-debugger/kar-debugger.go\<close>): the
  table of busy actors the sidecars report, the graph of pending calls built from it
  (\<^verbatim>\<open>makeDeadlockGraph\<close>), and the depth-first search for a cycle of calls that belong to
  different flows (\<^verbatim>\<open>checkDeadlockCycles\<close>, \<^verbatim>\<open>checkDeadlock\<close>).

  The search marks the actors on its path in the graph and takes the marks back when it
  leaves them, so it visits every simple path from the pseudo-actor of the root requests.
  Its recursion is bounded by fuel; any fuel above the number of actors gives the answer,
  which is a cycle exactly when the table has one.  The order in which Go ranges over its
  maps is a parameter.

  The slices \<^verbatim>\<open>append(path, edge)\<close> of two iterations share their array, but an iteration
  overwrites only the slot of an earlier one whose result was dropped, so a path is a list.
\<close>

section \<open>The table of busy actors\<close>

record actorJson_t =
  aj_ActorType :: string
  aj_ActorId :: string

definition no_actor :: actorJson_t where
  "no_actor = \<lparr>aj_ActorType = [], aj_ActorId = []\<rparr>"

record busySent_t =
  bs_Actor :: actorJson_t
  bs_ParentId :: string
  bs_RequestValue :: string
  bs_FlowId :: string
  bs_IsHandling :: bool
  bs_isVisited :: bool

definition no_sent :: busySent_t where
  "no_sent = \<lparr>bs_Actor = no_actor, bs_ParentId = [], bs_RequestValue = [], bs_FlowId = [],
     bs_IsHandling = False, bs_isVisited = False\<rparr>"

record busyInfo_t =
  bi_ActorHandling :: "(string, busySent_t) gomap"
  bi_ActorSent :: "(string, busySent_t) gomap"

section \<open>The graph of pending calls\<close>

record request_t =
  rq_RequestId :: string
  rq_CallStack :: string
  rq_RequestValue :: string

record edge_t =
  eg_SrcActor :: actorJson_t
  eg_DstActor :: actorJson_t
  eg_Req :: request_t
  eg_ParentValue :: string

record node_t =
  nd_Edges :: "(request_t, edge_t) gomap"
  nd_IsVisited :: bool

definition no_node :: node_t where
  "no_node = \<lparr>nd_Edges = [], nd_IsVisited = False\<rparr>"

type_synonym graph_t = "(actorJson_t, node_t) gomap"

text \<open>
  The first loop of \<^verbatim>\<open>makeDeadlockGraph\<close> gives the pseudo-actor an edge for each root
  request, a parent that nobody sent; the second adds an edge for each sent request.
\<close>

definition root_edge :: "busyInfo_t \<Rightarrow> busySent_t \<Rightarrow> edge_t" where
  "root_edge b info =
     (let parentInfo = mget no_sent (bi_ActorHandling b) (bs_ParentId info);
          myReq = \<lparr>rq_RequestId = bs_ParentId info, rq_CallStack = bs_FlowId info,
                   rq_RequestValue = bs_RequestValue parentInfo\<rparr>
      in \<lparr>eg_SrcActor = no_actor, eg_DstActor = bs_Actor parentInfo, eg_Req = myReq,
          eg_ParentValue = []\<rparr>)"

definition add_root :: "busyInfo_t \<Rightarrow> string \<times> busySent_t \<Rightarrow> graph_t \<Rightarrow> graph_t" where
  "add_root b = (\<lambda>(_, info) g.
     case map_of (bi_ActorSent b) (bs_ParentId info) of
       Some _ \<Rightarrow> g
     | None \<Rightarrow>
         let edge = root_edge b info; node = mget no_node g no_actor
         in mput no_actor (node\<lparr>nd_Edges := mput (eg_Req edge) edge (nd_Edges node)\<rparr>) g)"

definition sent_edge :: "busyInfo_t \<Rightarrow> string \<Rightarrow> busySent_t \<Rightarrow> edge_t" where
  "sent_edge b reqId info =
     (let parentInfo = mget no_sent (bi_ActorHandling b) (bs_ParentId info);
          myReq = \<lparr>rq_RequestId = reqId, rq_CallStack = bs_FlowId info,
                   rq_RequestValue = bs_RequestValue info\<rparr>
      in \<lparr>eg_SrcActor = bs_Actor parentInfo, eg_DstActor = bs_Actor info, eg_Req = myReq,
          eg_ParentValue = bs_RequestValue parentInfo\<rparr>)"

definition add_sent :: "busyInfo_t \<Rightarrow> string \<times> busySent_t \<Rightarrow> graph_t \<Rightarrow> graph_t" where
  "add_sent b = (\<lambda>(reqId, info) g.
     let edge = sent_edge b reqId info;
         srcActor = eg_SrcActor edge;
         node = (case map_of g srcActor of
                   Some node \<Rightarrow> node
                 | None \<Rightarrow> \<lparr>nd_Edges = [], nd_IsVisited = False\<rparr>)
     in mput srcActor (node\<lparr>nd_Edges := mput (eg_Req edge) edge (nd_Edges node)\<rparr>) g)"

type_synonym sent_range = "(string, busySent_t) gomap \<Rightarrow> (string, busySent_t) gomap"
type_synonym edge_range = "(request_t, edge_t) gomap \<Rightarrow> (request_t, edge_t) gomap"

definition makeDeadlockGraph :: "sent_range \<Rightarrow> sent_range \<Rightarrow> busyInfo_t \<Rightarrow> graph_t" where
  "makeDeadlockGraph rng1 rng2 b =
     (let retgraph = [(no_actor, \<lparr>nd_Edges = [], nd_IsVisited = False\<rparr>)];
          retgraph = fold (add_root b) (rng1 (bi_ActorSent b)) retgraph
      in fold (add_sent b) (rng2 (bi_ActorSent b)) retgraph)"

section \<open>The search\<close>

text \<open>The loop over the path when the search comes back to an actor it is visiting.\<close>

fun close_path :: "actorJson_t \<Rightarrow> edge_t list \<Rightarrow> edge_t list \<Rightarrow> bool \<times> edge_t list" where
  "close_path a path [] = (True, path)"
| "close_path a path (edge # rest) =
     (if eg_DstActor edge = a then
        if rq_CallStack (eg_Req edge) = rq_CallStack (eg_Req (last path)) then (False, [])
        else (True, edge # rest)
      else close_path a path rest)"

text \<open>The loop over the edges of an actor, with the recursive call as its argument.\<close>

type_synonym search = "graph_t \<Rightarrow> actorJson_t \<Rightarrow> edge_t list \<Rightarrow> ((bool \<times> edge_t list) \<times> graph_t) option"

fun try_edges :: "search \<Rightarrow> edge_t list \<Rightarrow> graph_t \<Rightarrow> edge_t list \<Rightarrow>
    ((bool \<times> edge_t list) \<times> graph_t) option" where
  "try_edges chk [] g path = Some ((False, []), g)"
| "try_edges chk (edge # es) g path =
     (case chk g (eg_DstActor edge) (path @ [edge]) of
        None \<Rightarrow> None
      | Some ((c, npath), g') \<Rightarrow>
          if c then Some ((c, npath), g') else try_edges chk es g' path)"

definition set_visited :: "bool \<Rightarrow> actorJson_t \<Rightarrow> graph_t \<Rightarrow> graph_t" where
  "set_visited v a g = mput a ((mget no_node g a)\<lparr>nd_IsVisited := v\<rparr>) g"

fun checkDeadlockCycles :: "nat \<Rightarrow> edge_range \<Rightarrow> search" where
  "checkDeadlockCycles 0 rng g a path = None"
| "checkDeadlockCycles (Suc fuel) rng g a path =
     (if nd_IsVisited (mget no_node g a) then Some (close_path a path path, g)
      else
        let g = set_visited True a g
        in case try_edges (checkDeadlockCycles fuel rng)
                  (map snd (rng (nd_Edges (mget no_node g a)))) g path of
             None \<Rightarrow> None
           | Some (r, g) \<Rightarrow> Some (r, set_visited False a g))"

definition checkDeadlock :: "nat \<Rightarrow> sent_range \<Rightarrow> sent_range \<Rightarrow> edge_range \<Rightarrow> busyInfo_t \<Rightarrow>
    edge_t list option" where
  "checkDeadlock fuel rng1 rng2 rng b =
     (case checkDeadlockCycles fuel rng (makeDeadlockGraph rng1 rng2 b) no_actor [] of
        None \<Rightarrow> None
      | Some ((_, path), _) \<Rightarrow> Some path)"

section \<open>Specification: calls that wait in a circle\<close>

text \<open>The calls an actor waits for, as the table of busy actors has them.\<close>

definition waits :: "busyInfo_t \<Rightarrow> actorJson_t \<Rightarrow> edge_t set" where
  "waits b a =
     {root_edge b info | reqId info. (reqId, info) \<in> set (bi_ActorSent b) \<and> a = no_actor \<and>
        map_of (bi_ActorSent b) (bs_ParentId info) = None} \<union>
     {sent_edge b reqId info | reqId info. (reqId, info) \<in> set (bi_ActorSent b) \<and>
        eg_SrcActor (sent_edge b reqId info) = a}"

fun walk :: "(actorJson_t \<Rightarrow> edge_t set) \<Rightarrow> actorJson_t \<Rightarrow> edge_t list \<Rightarrow> bool" where
  "walk E a [] \<longleftrightarrow> True"
| "walk E a (e # es) \<longleftrightarrow> e \<in> E a \<and> walk E (eg_DstActor e) es"

text \<open>
  A lasso is a chain of calls from \<open>a\<close> over distinct actors that comes back to one of them;
  the call that first led to this actor and the one that comes back are of different flows,
  so the second waits for the first and, through the chain, the first for the second.
\<close>

definition lasso :: "(actorJson_t \<Rightarrow> edge_t set) \<Rightarrow> actorJson_t \<Rightarrow> edge_t list \<Rightarrow> bool" where
  "lasso E a es \<longleftrightarrow> walk E a es \<and> distinct (a # map eg_DstActor (butlast es)) \<and>
     (\<exists>e \<in> set (butlast es). eg_DstActor e = eg_DstActor (last es) \<and>
        rq_CallStack (eg_Req e) \<noteq> rq_CallStack (eg_Req (last es)))"

definition cycle_of :: "edge_t list \<Rightarrow> edge_t list" where
  "cycle_of es = dropWhile (\<lambda>e. eg_DstActor e \<noteq> eg_DstActor (last es)) es"

section \<open>The search is sound and complete\<close>

definition marks :: "(actorJson_t \<Rightarrow> edge_t set) \<Rightarrow> graph_t \<Rightarrow> actorJson_t set \<Rightarrow> bool" where
  "marks E g V \<longleftrightarrow> (\<forall>a. nd_IsVisited (mget no_node g a) = (a \<in> V) \<and>
     snd ` set (nd_Edges (mget no_node g a)) = E a)"

lemma marks_enter: "marks E g V \<Longrightarrow> marks E (set_visited True a g) (insert a V)"
  by (auto simp: marks_def set_visited_def)

lemma marks_leave: "marks E g (insert a V) \<Longrightarrow> a \<notin> V \<Longrightarrow> marks E (set_visited False a g) V"
  by (auto simp: marks_def set_visited_def)

text \<open>The lassos that extend a path, and a search that answers for a set of lassos.\<close>

definition lassos :: "(actorJson_t \<Rightarrow> edge_t set) \<Rightarrow> actorJson_t \<Rightarrow> edge_t list \<Rightarrow> edge_t list set" where
  "lassos E a path = {es. lasso E a es \<and> (\<exists>suf. es = path @ suf)}"

definition answers :: "(actorJson_t \<Rightarrow> edge_t set) \<Rightarrow> actorJson_t set \<Rightarrow> edge_t list set \<Rightarrow>
    ((bool \<times> edge_t list) \<times> graph_t) option \<Rightarrow> bool" where
  "answers E V L r \<longleftrightarrow> (\<exists>c npath g. r = Some ((c, npath), g) \<and> marks E g V \<and>
     (if c then \<exists>es \<in> L. npath = cycle_of es else L = {} \<and> npath = []))"

lemma answers_leave:
  assumes "answers E (insert a V) L r" and "a \<notin> V"
  shows "answers E V L (case r of None \<Rightarrow> None | Some (x, g) \<Rightarrow> Some (x, set_visited False a g))"
proof -
  obtain c npath g where r: "r = Some ((c, npath), g)" and g: "marks E g (insert a V)"
    and c: "if c then \<exists>es \<in> L. npath = cycle_of es else L = {} \<and> npath = []"
    using assms(1) unfolding answers_def by blast
  show ?thesis
    unfolding answers_def r option.case prod.case
    by (intro exI conjI, rule refl, rule marks_leave [OF g assms(2)], rule c)
qed

lemma try_edges_answers:
  assumes "\<And>e g. e \<in> set es \<Longrightarrow> marks E g V \<Longrightarrow>
      answers E V (L e) (chk g (eg_DstActor e) (path @ [e]))"
    and "marks E g V"
  shows "answers E V (\<Union>e \<in> set es. L e) (try_edges chk es g path)"
  using assms
proof (induction es arbitrary: g)
  case Nil
  then show ?case
    by (auto simp: answers_def)
next
  case (Cons e es)
  obtain c npath g' where r: "chk g (eg_DstActor e) (path @ [e]) = Some ((c, npath), g')"
    and g': "marks E g' V" and c: "if c then \<exists>es \<in> L e. npath = cycle_of es else L e = {} \<and> npath = []"
    using Cons.prems(1) [of e g] Cons.prems(2) unfolding answers_def by auto
  show ?case
  proof (cases c)
    case True
    then show ?thesis
      using r g' c by (auto simp: answers_def)
  next
    case False
    have "answers E V (\<Union>e \<in> set es. L e) (try_edges chk es g' path)"
      by (rule Cons.IH) (use Cons.prems(1) g' in auto)
    then show ?thesis
      using False r c by simp
  qed
qed

lemma walk_append [simp]:
  "walk E a (es @ fs) \<longleftrightarrow> walk E a es \<and> walk E (last (a # map eg_DstActor es)) fs"
  by (induction es arbitrary: a) auto

lemma close_path_first:
  assumes "\<exists>e \<in> set rest. eg_DstActor e = a"
  shows "close_path a path rest =
     (let c = dropWhile (\<lambda>e. eg_DstActor e \<noteq> a) rest
      in if rq_CallStack (eg_Req (hd c)) = rq_CallStack (eg_Req (last path)) then (False, [])
         else (True, c))"
  using assms by (induction rest) (force simp: Let_def)+

text \<open>The trail of a path is the actors on it; the search has marked all but the last.\<close>

definition trail :: "actorJson_t \<Rightarrow> edge_t list \<Rightarrow> actorJson_t list" where
  "trail a path = a # map eg_DstActor path"

lemma trail_simps [simp]: "trail a path \<noteq> []" "trail a (path @ [e]) = trail a path @ [eg_DstActor e]"
  by (simp_all add: trail_def)

lemma hd_cycle_of:
  assumes "e \<in> set (butlast es)" and "eg_DstActor e = eg_DstActor (last es)"
    and "distinct (map eg_DstActor (butlast es))"
  shows "hd (cycle_of es) = e"
proof -
  obtain p l where es: "es = p @ [l]"
    using assms(1) by (cases es rule: rev_cases) auto
  obtain p1 p2 where p: "p = p1 @ e # p2"
    using assms(1) es by (metis butlast_snoc split_list)
  have "\<forall>x \<in> set p1. eg_DstActor x \<noteq> eg_DstActor l"
    using assms(2,3) unfolding es p by (auto simp: butlast_append image_iff)
  then show ?thesis
    using assms(2) unfolding es p cycle_of_def by (simp add: dropWhile_append2)
qed

lemma close_path_lasso:
  assumes "walk E a path" and "distinct (butlast (trail a path))" and "path \<noteq> []"
  shows "close_path (eg_DstActor (last path)) path path =
     (if lasso E a path then (True, cycle_of path) else (False, []))"
proof -
  let ?a = "eg_DstActor (last path)"
  let ?flow = "\<lambda>e. rq_CallStack (eg_Req e)"
  obtain p l where path: "path = p @ [l]"
    using assms(3) by (cases path rule: rev_cases) auto
  have ex: "\<exists>e \<in> set path. eg_DstActor e = ?a"
    using assms(3) last_in_set by blast
  then have c: "close_path ?a path path =
      (if ?flow (hd (cycle_of path)) = ?flow (last path) then (False, []) else (True, cycle_of path))"
    by (subst close_path_first) (simp_all add: Let_def cycle_of_def)
  have hd: "hd (cycle_of path) \<in> set path \<and> eg_DstActor (hd (cycle_of path)) = ?a"
  proof -
    have "cycle_of path \<noteq> []"
      using ex by (simp add: cycle_of_def dropWhile_eq_Nil_conv)
    then show ?thesis
      using hd_dropWhile [of "\<lambda>e. eg_DstActor e \<noteq> ?a" path] hd_in_set [of "cycle_of path"]
        set_dropWhileD unfolding cycle_of_def by metis
  qed
  have "lasso E a path \<longleftrightarrow> ?flow (hd (cycle_of path)) \<noteq> ?flow (last path)"
  proof
    assume "lasso E a path"
    then show "?flow (hd (cycle_of path)) \<noteq> ?flow (last path)"
      using hd_cycle_of unfolding lasso_def by (metis distinct.simps(2))
  next
    assume d: "?flow (hd (cycle_of path)) \<noteq> ?flow (last path)"
    then have "hd (cycle_of path) \<in> set (butlast path)"
      using hd unfolding path by auto
    then show "lasso E a path"
      using assms(1,2) d hd unfolding lasso_def by (auto simp: path trail_def)
  qed
  then show ?thesis
    using c by simp
qed

lemma lassos_closed:
  assumes "path \<noteq> []" and "eg_DstActor (last path) \<in> set (butlast (trail a path))"
  shows "lassos E a path = {es. es = path \<and> lasso E a path}"
proof -
  have "suf = []" if "lasso E a (path @ suf)" for suf
  proof (rule ccontr)
    assume "suf \<noteq> []"
    then have "distinct (trail a path)"
      using that by (auto simp: lasso_def butlast_append trail_def)
    then show False
      using assms by (cases path rule: rev_cases) (auto simp: trail_def)
  qed
  then show ?thesis
    unfolding lassos_def by (metis (mono_tags, lifting) append_Nil2)
qed

lemma lassos_open:
  assumes "distinct (trail a path)"
  shows "lassos E a path = (\<Union>e \<in> E (last (trail a path)). lassos E a (path @ [e]))"
proof
  show "(\<Union>e \<in> E (last (trail a path)). lassos E a (path @ [e])) \<subseteq> lassos E a path"
    by (auto simp: lassos_def)
  show "lassos E a path \<subseteq> (\<Union>e \<in> E (last (trail a path)). lassos E a (path @ [e]))"
  proof
    fix es assume "es \<in> lassos E a path"
    then obtain suf where es: "es = path @ suf" and l: "lasso E a (path @ suf)"
      by (auto simp: lassos_def)
    have "\<not> lasso E a path"
      using assms by (cases path rule: rev_cases) (auto simp: lasso_def trail_def image_iff)
    then obtain e suf' where suf: "suf = e # suf'"
      using l by (cases suf) auto
    then have "e \<in> E (last (trail a path))"
      using l by (auto simp: lasso_def trail_def)
    then show "es \<in> (\<Union>e \<in> E (last (trail a path)). lassos E a (path @ [e]))"
      using l unfolding es suf lassos_def by auto
  qed
qed

lemma trail_set: "set (trail start path) = insert (last (trail start path)) (set (butlast (trail start path)))"
  by (metis append_butlast_last_id list.set_intros(1) list.simps(15) rotate1.simps(2)
      set_rotate1 trail_simps(1))

lemma trail_distinct:
  assumes "last (trail start path) \<notin> set (butlast (trail start path))" and "distinct (butlast (trail start path))"
  shows "distinct (trail start path)"
  using assms by (metis append_butlast_last_id distinct_append distinct_singleton
      disjoint_insert(1) inf_bot_right list.simps(15) list.set(1) trail_simps(1))

lemma visited_answers:
  assumes "walk E start path" and "distinct (butlast (trail start path))"
    and "marks E g (set (butlast (trail start path)))"
    and returns: "last (trail start path) \<in> set (butlast (trail start path))"
  shows "answers E (set (butlast (trail start path))) (lassos E start path)
    (checkDeadlockCycles (Suc fuel) rng g (last (trail start path)) path)"
proof -
  have ne: "path \<noteq> []"
    using returns by (auto simp: trail_def)
  then have a: "last (trail start path) = eg_DstActor (last path)"
    by (simp add: trail_def last_map)
  have "nd_IsVisited (mget no_node g (last (trail start path)))"
    using returns assms(3) by (simp add: marks_def)
  then show ?thesis
    using assms ne a close_path_lasso [OF assms(1,2) ne] lassos_closed [OF ne, of start E]
    by (auto simp: answers_def)
qed

text \<open>
  A finite set of actors closed under the calls that wait: what the search needs to end.
\<close>

locale waiting =
  fixes E :: "actorJson_t \<Rightarrow> edge_t set"
    and start :: actorJson_t
    and N :: "actorJson_t set"
  assumes finite_actors: "finite N"
    and start_actor: "start \<in> N"
    and closed_actors: "a \<in> N \<Longrightarrow> e \<in> E a \<Longrightarrow> eg_DstActor e \<in> N"
begin

lemma walk_actors: "a \<in> N \<Longrightarrow> walk E a es \<Longrightarrow> set (trail a es) \<subseteq> N"
  by (induction es arbitrary: a) (auto simp: trail_def dest: closed_actors)

lemma cycles_answers:
  assumes rng: "range_order rng"
  shows "walk E start path \<Longrightarrow> distinct (butlast (trail start path)) \<Longrightarrow>
    marks E g (set (butlast (trail start path))) \<Longrightarrow>
    card (N - set (butlast (trail start path))) < fuel \<Longrightarrow>
    answers E (set (butlast (trail start path))) (lassos E start path)
      (checkDeadlockCycles fuel rng g (last (trail start path)) path)"
proof (induction fuel arbitrary: g path)
  case (Suc fuel)
  let ?V = "set (butlast (trail start path))" and ?a = "last (trail start path)"
  note trail = trail_set [of start path]
  show ?case
  proof (cases "?a \<in> ?V")
    case True
    then show ?thesis
      by (rule visited_answers [OF Suc.prems(1-3)])
  next
    case False
    let ?g = "set_visited True ?a g"
    let ?es = "map snd (rng (nd_Edges (mget no_node ?g ?a)))"
    have d: "distinct (trail start path)"
      by (rule trail_distinct [OF False Suc.prems(2)])
    have g: "marks E ?g (set (trail start path))"
      using marks_enter [OF Suc.prems(3)] trail by simp
    have es: "set ?es = E ?a"
      using g range_order_set [OF rng] by (simp add: marks_def)
    have "?a \<in> N"
      using walk_actors [OF start_actor Suc.prems(1)] by (simp add: subset_iff)
    then have "card (N - set (trail start path)) < card (N - ?V)"
      using False finite_actors unfolding trail by (intro psubset_card_mono) auto
    then have card: "card (N - set (trail start path)) < fuel"
      using Suc.prems(4) by simp
    have "answers E (set (trail start path)) (\<Union>e \<in> set ?es. lassos E start (path @ [e]))
        (try_edges (checkDeadlockCycles fuel rng) ?es ?g path)"
    proof (rule try_edges_answers [OF _ g])
      fix e h assume "e \<in> set ?es" and "marks E h (set (trail start path))"
      then show "answers E (set (trail start path)) (lassos E start (path @ [e]))
          (checkDeadlockCycles fuel rng h (eg_DstActor e) (path @ [e]))"
        using Suc.IH [of "path @ [e]" h] Suc.prems(1) d card es by (simp add: trail_def)
    qed
    then have "answers E ?V (\<Union>e \<in> set ?es. lassos E start (path @ [e]))
        (case try_edges (checkDeadlockCycles fuel rng) ?es ?g path of
           None \<Rightarrow> None | Some (x, g) \<Rightarrow> Some (x, set_visited False ?a g))"
      unfolding trail by (rule answers_leave [OF _ False])
    then show ?thesis
      using False Suc.prems(3) unfolding es lassos_open [OF d]
      by (simp add: marks_def Let_def)
  qed
qed simp

lemma search_spec:
  assumes "range_order rng" and "marks E g {}" and "card N < fuel"
  shows "\<exists>c path g'. checkDeadlockCycles fuel rng g start [] = Some ((c, path), g') \<and>
    marks E g' {} \<and>
    (if c then \<exists>es. lasso E start es \<and> path = cycle_of es
     else (\<nexists>es. lasso E start es) \<and> path = [])"
proof -
  have "lassos E start [] = Collect (lasso E start)"
    by (simp add: lassos_def)
  then have "answers E {} (Collect (lasso E start)) (checkDeadlockCycles fuel rng g start [])"
    using cycles_answers [OF assms(1), of "[]" g fuel] assms(2,3) by (simp add: trail_def)
  then show ?thesis
    unfolding answers_def by (elim exE, rule_tac x = c in exI) (auto split: if_splits)
qed

end

section \<open>The graph holds the calls that wait\<close>

definition link :: "actorJson_t \<times> edge_t \<Rightarrow> graph_t \<Rightarrow> graph_t" where
  "link = (\<lambda>(a, e) g. mput a ((mget no_node g a)
     \<lparr>nd_Edges := mput (eg_Req e) e (nd_Edges (mget no_node g a))\<rparr>) g)"

definition root_links :: "busyInfo_t \<Rightarrow> (string, busySent_t) gomap \<Rightarrow> (actorJson_t \<times> edge_t) list" where
  "root_links b xs = map (\<lambda>(_, info). (no_actor, root_edge b info))
     (filter (\<lambda>(_, info). map_of (bi_ActorSent b) (bs_ParentId info) = None) xs)"

definition sent_links :: "busyInfo_t \<Rightarrow> (string, busySent_t) gomap \<Rightarrow> (actorJson_t \<times> edge_t) list" where
  "sent_links b xs = map (\<lambda>(reqId, info).
     let e = sent_edge b reqId info in (eg_SrcActor e, e)) xs"

lemma fold_add_root: "fold (add_root b) xs g = fold link (root_links b xs) g"
  by (induction xs arbitrary: g)
    (auto simp: root_links_def add_root_def link_def Let_def split: option.splits)

lemma fold_add_sent: "fold (add_sent b) xs g = fold link (sent_links b xs) g"
proof (induction xs arbitrary: g)
  case (Cons x xs)
  have "add_sent b x g = link (let e = sent_edge b (fst x) (snd x) in (eg_SrcActor e, e)) g"
    by (cases x) (simp add: add_sent_def link_def Let_def mget_def no_node_def split: option.splits)
  then show ?case
    using Cons by (simp add: sent_links_def case_prod_beta)
qed (simp add: sent_links_def)

definition built :: "(actorJson_t \<Rightarrow> edge_t set) \<Rightarrow> graph_t \<Rightarrow> bool" where
  "built E g \<longleftrightarrow> (\<forall>a. let n = mget no_node g a
     in \<not> nd_IsVisited n \<and> (\<forall>(r, e) \<in> set (nd_Edges n). r = eg_Req e) \<and>
        snd ` set (nd_Edges n) = E a)"

lemma mput_same_set: "\<forall>v' . (k, v') \<in> set m \<longrightarrow> v' = v \<Longrightarrow> set (mput k v m) = insert (k, v) (set m)"
  by (induction m) auto

lemma built_link:
  assumes "built E g" and "\<forall>e' \<in> E a. eg_Req e' = eg_Req e \<longrightarrow> e' = e"
  shows "built (E(a := insert e (E a))) (link (a, e) g)"
proof -
  have "\<forall>v'. (eg_Req e, v') \<in> set (nd_Edges (mget no_node g a)) \<longrightarrow> v' = e"
    using assms unfolding built_def Let_def by force
  from mput_same_set [OF this] show ?thesis
    using assms(1) unfolding built_def link_def Let_def by (auto simp: image_iff)
qed

definition functional :: "(actorJson_t \<Rightarrow> edge_t set) \<Rightarrow> bool" where
  "functional U \<longleftrightarrow> (\<forall>a. \<forall>e \<in> U a. \<forall>e' \<in> U a. eg_Req e = eg_Req e' \<longrightarrow> e = e')"

lemma built_links:
  assumes "functional U"
  shows "built E g \<Longrightarrow> \<forall>a. E a \<subseteq> U a \<Longrightarrow> \<forall>(a, e) \<in> set ls. e \<in> U a \<Longrightarrow>
    built (\<lambda>a. E a \<union> {e. (a, e) \<in> set ls}) (fold link ls g)"
proof (induction ls arbitrary: E g)
  case (Cons l ls)
  obtain a e where l: "l = (a, e)"
    by (cases l)
  let ?E = "E(a := insert e (E a))"
  have e: "e \<in> U a"
    using Cons.prems(3) by (simp add: l)
  have "\<forall>e' \<in> E a. eg_Req e' = eg_Req e \<longrightarrow> e' = e"
    using assms e Cons.prems(2) unfolding functional_def by blast
  then have "built ?E (link l g)"
    unfolding l by (rule built_link [OF Cons.prems(1)])
  moreover have "\<forall>a. ?E a \<subseteq> U a"
    using Cons.prems by (auto simp: l)
  ultimately have "built (\<lambda>a. ?E a \<union> {e. (a, e) \<in> set ls}) (fold link ls (link l g))"
    by (rule Cons.IH) (use Cons.prems(3) in simp)
  moreover have "(\<lambda>a. ?E a \<union> {e. (a, e) \<in> set ls}) = (\<lambda>a. E a \<union> {e. (a, e) \<in> set (l # ls)})"
    by (rule ext) (auto simp: l)
  ultimately show ?case
    by simp
qed simp

lemma waits_links:
  "set xs = set (bi_ActorSent b) \<Longrightarrow> set ys = set (bi_ActorSent b) \<Longrightarrow>
   waits b a = {e. (a, e) \<in> set (root_links b xs @ sent_links b ys)}"
  by (auto simp: waits_def root_links_def sent_links_def Let_def image_iff)

lemma waits_functional:
  assumes "wf_map (bi_ActorSent b)"
  shows "functional (waits b)"
  unfolding functional_def
proof (intro allI ballI impI)
  fix a e e' assume e: "e \<in> waits b a" and e': "e' \<in> waits b a" and r: "eg_Req e = eg_Req e'"
  let ?key = "\<lambda>e. map_of (bi_ActorSent b) (rq_RequestId (eg_Req e))"
  have key: "(\<exists>info. x = root_edge b info \<and> ?key x = None) \<or>
      (\<exists>info. x = sent_edge b (rq_RequestId (eg_Req x)) info \<and> ?key x = Some info)"
    if "x \<in> waits b a" for x
    using that wf_map_map_of [OF assms]
    by (auto simp: waits_def root_edge_def sent_edge_def Let_def)
  show "e = e'"
    using key [OF e] key [OF e'] r
    by (elim disjE exE conjE) (simp_all, auto simp: root_edge_def Let_def)
qed

lemma makeDeadlockGraph_marks:
  assumes "range_order rng1" and "range_order rng2" and "wf_map (bi_ActorSent b)"
  shows "marks (waits b) (makeDeadlockGraph rng1 rng2 b) {}"
proof -
  let ?ls = "root_links b (rng1 (bi_ActorSent b)) @ sent_links b (rng2 (bi_ActorSent b))"
  have w: "waits b a = {e. (a, e) \<in> set ?ls}" for a
    by (rule waits_links) (simp_all add: range_order_set assms)
  have "built (\<lambda>_. {}) [(no_actor, \<lparr>nd_Edges = [], nd_IsVisited = False\<rparr>)]"
    by (simp add: built_def mget_def no_node_def)
  then have "built (\<lambda>a. {} \<union> {e. (a, e) \<in> set ?ls}) (makeDeadlockGraph rng1 rng2 b)"
    unfolding makeDeadlockGraph_def Let_def fold_add_root fold_add_sent
      fold_append [of link, symmetric, unfolded fun_eq_iff comp_def, rule_format]
    by (rule built_links [OF waits_functional [OF assms(3)]]) (auto simp: w)
  then show ?thesis
    by (simp add: built_def marks_def Let_def w)
qed

definition busy_actors :: "busyInfo_t \<Rightarrow> actorJson_t set" where
  "busy_actors b = insert no_actor
     ((\<lambda>(_, info). eg_DstActor (root_edge b info)) ` set (bi_ActorSent b) \<union>
      (\<lambda>(_, info). bs_Actor info) ` set (bi_ActorSent b))"

lemma card_busy_actors: "card (busy_actors b) \<le> 2 * length (bi_ActorSent b) + 1"
proof -
  let ?xs = "no_actor # map (\<lambda>(_, info). eg_DstActor (root_edge b info)) (bi_ActorSent b) @
      map (\<lambda>(_, info). bs_Actor info) (bi_ActorSent b)"
  have "busy_actors b = set ?xs"
    by (simp add: busy_actors_def)
  then show ?thesis
    using card_length [of ?xs] by simp
qed

interpretation busy: waiting "waits b" no_actor "busy_actors b" for b
proof unfold_locales
  show "finite (busy_actors b)" and "no_actor \<in> busy_actors b"
    by (simp_all add: busy_actors_def)
  show "eg_DstActor e \<in> busy_actors b" if "a \<in> busy_actors b" and "e \<in> waits b a" for a e
    using that(2) by (force simp: waits_def busy_actors_def sent_edge_def Let_def)
qed

text \<open>C13 \<^verbatim>\<open>checkDeadlock\<close> always ends, within a depth of twice the number of pending calls, and
  decides whether the busy actors deadlock: it returns no path exactly when no chain of
  pending calls that starts at a root request comes back, over distinct actors, to an actor it
  reached in another flow; otherwise it returns the cycle of such a chain.  This holds for every
  order in which the maps are ranged over, and a call back in the same flow (reentrancy) is
  never reported.\<close>

theorem checkDeadlock_decides:
  assumes "range_order rng1" and "range_order rng2" and "range_order rng"
    and "wf_map (bi_ActorSent b)" and "2 * length (bi_ActorSent b) + 1 < fuel"
  shows "\<exists>path. checkDeadlock fuel rng1 rng2 rng b = Some path \<and>
    (if path = [] then \<nexists>es. lasso (waits b) no_actor es
     else \<exists>es. lasso (waits b) no_actor es \<and> path = cycle_of es)"
proof -
  have "card (busy_actors b) < fuel"
    using card_busy_actors [of b] assms(5) by simp
  then obtain c path g where r: "checkDeadlockCycles fuel rng (makeDeadlockGraph rng1 rng2 b) no_actor [] =
      Some ((c, path), g)"
    and c: "if c then \<exists>es. lasso (waits b) no_actor es \<and> path = cycle_of es
      else (\<nexists>es. lasso (waits b) no_actor es) \<and> path = []"
    using busy.search_spec [OF assms(3) makeDeadlockGraph_marks [OF assms(1,2,4)]] by blast
  have "cycle_of es \<noteq> []" if "lasso (waits b) no_actor es" for es
    using that by (auto simp: lasso_def cycle_of_def dropWhile_eq_Nil_conv dest: in_set_butlastD)
  then show ?thesis
    using r c by (auto simp: checkDeadlock_def split: if_splits)
qed

definition busy_example :: busyInfo_t where
  "busy_example =
     (let actor = \<lambda>i. \<lparr>aj_ActorType = ''Fork'', aj_ActorId = i\<rparr>;
          sent = \<lambda>i p f. \<lparr>bs_Actor = actor i, bs_ParentId = p, bs_RequestValue = [],
                  bs_FlowId = f, bs_IsHandling = False, bs_isVisited = False\<rparr>
      in \<lparr>bi_ActorHandling = [(''p'', sent ''1'' [] ''f''), (''q'', sent ''2'' [] ''g'')],
          bi_ActorSent = [(''r'', sent ''2'' ''p'' ''f''), (''s'', sent ''1'' ''q'' ''g'')]\<rparr>)"

lemma busy_example_path:
  "checkDeadlock 6 (\<lambda>m. m) rev (\<lambda>m. m) busy_example =
     Some [root_edge busy_example (mget no_sent (bi_ActorSent busy_example) ''r''),
           sent_edge busy_example ''r'' (mget no_sent (bi_ActorSent busy_example) ''r''),
           sent_edge busy_example ''s'' (mget no_sent (bi_ActorSent busy_example) ''s'')]"
  by code_simp

theorem checkDeadlock_decides_witness:
  "\<exists>path es. checkDeadlock 6 (\<lambda>m. m) rev (\<lambda>m. m) busy_example = Some path \<and> length path = 3 \<and>
     lasso (waits busy_example) no_actor es \<and> path = cycle_of es"
proof -
  have "range_order (rev :: (string, busySent_t) gomap \<Rightarrow> _)"
    by (simp add: range_order_def)
  moreover have "wf_map (bi_ActorSent busy_example)" and "2 * length (bi_ActorSent busy_example) + 1 < 6"
    by (simp_all add: busy_example_def Let_def wf_map_def)
  ultimately show ?thesis
    using checkDeadlock_decides [of "\<lambda>m. m" rev "\<lambda>m. m" busy_example 6]
    unfolding busy_example_path by simp
qed

end
