(* ===== verification/Kafka_Reader.thy ===== *)
theory Kafka_Reader
  imports Debug_Conditions
begin

text \<open>
  The part of the debugger client (\<^verbatim>\<open>cmd/kar-debugger/kar-debugger.go\<close>) that reads the
  messages of an application from Kafka: the connection (\<^verbatim>\<open>kafkaInit\<close>), the decoding of a
  message, the merging of the messages of all partitions into one entry per request, and the
  selection of entries by conditions or their count by selected fields (\<^verbatim>\<open>processReadKafka\<close>).

  The Kafka library is a parameter.  The partitions are read by concurrent goroutines that
  merge under a lock, so that the merged sequence is some interleaving of the partitions,
  chosen by a parameter; the theorems hold for all of them.
\<close>

section \<open>Connecting\<close>

record kafka_conf =
  kc_Version :: string
  kc_TLS_Enable :: bool
  kc_InsecureSkipVerify :: bool
  kc_SASL_Enable :: bool
  kc_User :: string
  kc_Password :: string

definition new_conf :: kafka_conf where
  "new_conf = \<lparr>kc_Version = [], kc_TLS_Enable = False, kc_InsecureSkipVerify = False,
     kc_SASL_Enable = False, kc_User = [], kc_Password = []\<rparr>"

record ('c, 's) sarama =
  sa_ParseKafkaVersion :: "string \<Rightarrow> string"
  sa_NewClient :: "string list \<Rightarrow> kafka_conf \<Rightarrow> err + 'c"
  sa_NewConsumerFromClient :: "'c \<Rightarrow> err + 's"
  sa_text :: "err \<Rightarrow> string"

record ('c, 's) kafka_vars =
  kv_Client :: "'c option"
  kv_Consumer :: "'s option"
  kv_Topic :: string
  kv_Err :: "err option"

definition bool_env :: "(string \<Rightarrow> string) \<Rightarrow> string \<Rightarrow> bool \<Rightarrow> err + bool" where
  "bool_env getenv name dflt =
     (let tmp = getenv name
      in if tmp = [] then Inr dflt
         else case parse_bool tmp of
                None \<Rightarrow> Inl (ErrMsg (''Error parsing '' @ name @ '' '' @ [CHR 0x22] @ tmp @ [CHR 0x22] @ '' as bool''))
              | Some b \<Rightarrow> Inr b)"

text \<open>
  The second block of \<^verbatim>\<open>kafkaInit\<close> assigns to \<^verbatim>\<open>enableTLS\<close> again, and \<^verbatim>\<open>TLSSkipVerify\<close> stays
  false.
\<close>

definition kafka_config :: "('c, 's) sarama \<Rightarrow> (string \<Rightarrow> string) \<Rightarrow> err + kafka_conf" where
  "kafka_config sa getenv =
     (let user = (if getenv ''KAFKA_USERNAME'' = [] then ''token'' else getenv ''KAFKA_USERNAME'');
          password = getenv ''KAFKA_PASSWORD'';
          version = (if getenv ''KAFKA_VERSION'' = [] then ''2.8.1'' else getenv ''KAFKA_VERSION'')
      in case bool_env getenv ''KAFKA_ENABLE_TLS'' False of
           Inl e \<Rightarrow> Inl e
         | Inr enableTLS \<Rightarrow>
             (let skipVerify = False
              in case bool_env getenv ''KAFKA_TLS_SKIP_VERIFY'' enableTLS of
                   Inl e \<Rightarrow> Inl e
                 | Inr enableTLS \<Rightarrow>
                     (let conf = new_conf\<lparr>kc_Version := sa_ParseKafkaVersion sa version\<rparr>;
                          conf = (if enableTLS
                                  then conf\<lparr>kc_TLS_Enable := True,
                                       kc_InsecureSkipVerify := skipVerify\<rparr>
                                  else conf)
                      in Inr (if password \<noteq> []
                              then conf\<lparr>kc_SASL_Enable := True, kc_User := user,
                                   kc_Password := password\<rparr>
                              else conf))))"

definition kafkaInit :: "('c, 's) sarama \<Rightarrow> (string \<Rightarrow> string) \<Rightarrow> string \<Rightarrow>
    ('c, 's) kafka_vars \<Rightarrow> ('c, 's) kafka_vars" where
  "kafkaInit sa getenv appName kv =
     (let brokersStr = getenv ''KAFKA_BROKERS''
      in if brokersStr = []
         then kv\<lparr>kv_Err := Some (ErrMsg ''At least one Kafka broker is required. Make sure to set the environment variable KAFKA_BROKERS.'')\<rparr>
         else case kafka_config sa getenv of
           Inl e \<Rightarrow> kv\<lparr>kv_Err := Some e\<rparr>
         | Inr conf \<Rightarrow>
             (case sa_NewClient sa (split_on (CHR '','') brokersStr) conf of
                Inl e \<Rightarrow> kv\<lparr>kv_Client := None,
                           kv_Err := Some (ErrMsg (''Error making client: '' @ sa_text sa e))\<rparr>
              | Inr client \<Rightarrow>
                  (case sa_NewConsumerFromClient sa client of
                     Inl e \<Rightarrow> kv\<lparr>kv_Client := Some client, kv_Consumer := None,
                                kv_Err := Some (ErrMsg (''Error making consumer: '' @ sa_text sa e))\<rparr>
                   | Inr consumer \<Rightarrow>
                       kv\<lparr>kv_Client := Some client, kv_Consumer := Some consumer,
                          kv_Topic := ''kar_'' @ appName\<rparr>)))"

section \<open>Decoding a message\<close>

record reqMsg_t =
  rm_ActorType :: string
  rm_ActorId :: string
  rm_Path :: string
  rm_Payload :: jval
  rm_Sequence :: int
  rm_Timestamp :: int
  rm_Deadline :: int

definition no_reqMsg :: reqMsg_t where
  "no_reqMsg = \<lparr>rm_ActorType = [], rm_ActorId = [], rm_Path = [], rm_Payload = JNull,
     rm_Sequence = 0, rm_Timestamp = 0, rm_Deadline = 0\<rparr>"

record kafkaReq_t =
  kr_RequestId :: string
  kr_ParentId :: string
  kr_RequestType :: string
  kr_MsgFound :: bool
  kr_EarliestTailCall :: reqMsg_t
  kr_LatestTailCall :: reqMsg_t
  kr_Response :: jval
  kr_ResponseTimestamp :: int

record genMsg_t =
  gm_IsResponse :: bool
  gm_RequestId :: string
  gm_ParentId :: string
  gm_RequestType :: string
  gm_Sequence :: int
  gm_Timestamp :: int
  gm_Deadline :: int
  gm_ActorId :: string
  gm_ActorType :: string
  gm_Path :: string
  gm_Payload :: jval
  gm_Response :: jval

record kmsg =
  km_Timestamp :: time
  km_Headers :: "(string \<times> string) list"
  km_Value :: string
  km_Offset :: int

text \<open>\<^verbatim>\<open>json.Unmarshal\<close> into a map and into any value: what is stored, and the error.\<close>

record client_json =
  cj_unobj :: "string \<Rightarrow> (string, jval) gomap \<times> err option"
  cj_unany :: "string \<Rightarrow> jval \<times> err option"
  cj_marshal :: "jval \<Rightarrow> string"

definition unpackRequestValue :: "client_json \<Rightarrow> string \<Rightarrow> (string, jval) gomap \<times> err option" where
  "unpackRequestValue js s =
     (case cj_unobj js s of (retval, e) \<Rightarrow>
        case map_of retval ''payload'' of
          Some (JStr payloadStr) \<Rightarrow>
            (case cj_unany js payloadStr of (payloadMap, e) \<Rightarrow> (mput ''payload'' payloadMap retval, e))
        | _ \<Rightarrow> (retval, e))"

definition unpackResponseValue :: "client_json \<Rightarrow> string \<Rightarrow> (string, jval) gomap \<times> err option" where
  "unpackResponseValue js s =
     (case cj_unobj js s of (retval, e) \<Rightarrow>
        case map_of retval ''Payload'' of
          Some (JStr payloadStr) \<Rightarrow>
            (case cj_unany js payloadStr of (payloadMap, e) \<Rightarrow> (mput ''payload'' payloadMap retval, e))
        | _ \<Rightarrow> (retval, e))"

definition read_header :: "string \<Rightarrow> string \<Rightarrow> genMsg_t \<Rightarrow> genMsg_t" where
  "read_header key val m =
     (if key = ''RequestID'' then m\<lparr>gm_RequestId := val\<rparr>
      else if key = ''Type'' then
        if val = ''Call'' then m\<lparr>gm_IsResponse := False, gm_RequestType := ''call''\<rparr>
        else if val = ''Tell'' then m\<lparr>gm_IsResponse := False, gm_RequestType := ''tell''\<rparr>
        else if val = ''Response'' then m\<lparr>gm_IsResponse := True, gm_RequestType := ''call''\<rparr>
        else if val = ''Done'' then m\<lparr>gm_IsResponse := True, gm_RequestType := ''tell''\<rparr>
        else m
      else if key = ''Sequence'' then m\<lparr>gm_Sequence := fst (parse_int val)\<rparr>
      else if key = ''Deadline'' then m\<lparr>gm_Deadline := fst (parse_int val)\<rparr>
      else if key = ''Parent'' then m\<lparr>gm_ParentId := val\<rparr>
      else if key = ''Session'' then m\<lparr>gm_ActorId := val\<rparr>
      else if key = ''Service'' then m\<lparr>gm_ActorType := val\<rparr>
      else m)"

fun read_record_headers :: "(string \<times> string) list \<Rightarrow> genMsg_t \<Rightarrow> genMsg_t" where
  "read_record_headers [] m = m"
| "read_record_headers ((key, val) # hs) m =
     (if key = ''Method'' \<and> val = ''handlerDebugger'' then m
      else read_record_headers hs (read_header key val m))"

definition handleMessage :: "client_json \<Rightarrow> kmsg \<Rightarrow> genMsg_t" where
  "handleMessage js msg =
     (let m = read_record_headers (km_Headers msg)
                \<lparr>gm_IsResponse = False, gm_RequestId = [], gm_ParentId = [], gm_RequestType = [],
                 gm_Sequence = 0, gm_Timestamp = Unix (km_Timestamp msg), gm_Deadline = 0,
                 gm_ActorId = [], gm_ActorType = [], gm_Path = [], gm_Payload = JNull,
                 gm_Response = JNull\<rparr>
      in if \<not> gm_IsResponse m then
           (case unpackRequestValue js (km_Value msg) of
              (reqVal, None) \<Rightarrow>
                m\<lparr>gm_Path := (case map_of reqVal ''path'' of Some (JStr p) \<Rightarrow> p | _ \<Rightarrow> []),
                  gm_Payload := mget JNull reqVal ''payload''\<rparr>
            | (_, Some _) \<Rightarrow> m)
         else
           (case unpackResponseValue js (km_Value msg) of
              (respVal, None) \<Rightarrow> m\<lparr>gm_Response := JObj respVal\<rparr>
            | (_, Some _) \<Rightarrow> m))"

section \<open>Merging the messages of a request\<close>

definition reqMsg_of :: "genMsg_t \<Rightarrow> reqMsg_t" where
  "reqMsg_of m = \<lparr>rm_ActorType = gm_ActorType m, rm_ActorId = gm_ActorId m, rm_Path = gm_Path m,
     rm_Payload = gm_Payload m, rm_Sequence = gm_Sequence m, rm_Timestamp = gm_Timestamp m,
     rm_Deadline = gm_Deadline m\<rparr>"

text \<open>The two branches of the loop body: the request has an entry or not.\<close>

definition update_entry :: "genMsg_t \<Rightarrow> kafkaReq_t \<Rightarrow> kafkaReq_t" where
  "update_entry m cur =
     (let cur = cur\<lparr>kr_RequestType := gm_RequestType m\<rparr>
      in if gm_IsResponse m
         then cur\<lparr>kr_Response := gm_Response m, kr_ResponseTimestamp := gm_Timestamp m\<rparr>
         else if rm_Sequence (kr_EarliestTailCall cur) > gm_Sequence m \<or> \<not> kr_MsgFound cur
         then cur\<lparr>kr_MsgFound := True, kr_EarliestTailCall := reqMsg_of m\<rparr>
         else if rm_Sequence (kr_LatestTailCall cur) < gm_Sequence m \<or> \<not> kr_MsgFound cur
         then cur\<lparr>kr_MsgFound := True, kr_LatestTailCall := reqMsg_of m\<rparr>
         else cur)"

definition new_entry :: "genMsg_t \<Rightarrow> kafkaReq_t" where
  "new_entry m =
     (let req = \<lparr>kr_RequestId = gm_RequestId m, kr_ParentId = [], kr_RequestType = [],
                 kr_MsgFound = False, kr_EarliestTailCall = no_reqMsg,
                 kr_LatestTailCall = no_reqMsg, kr_Response = JNull, kr_ResponseTimestamp = 0\<rparr>
      in if gm_IsResponse m
         then req\<lparr>kr_Response := gm_Response m, kr_ResponseTimestamp := gm_Timestamp m\<rparr>
         else req\<lparr>kr_RequestType := gm_RequestType m, kr_ParentId := gm_ParentId m,
                  kr_MsgFound := True, kr_EarliestTailCall := reqMsg_of m,
                  kr_LatestTailCall := reqMsg_of m\<rparr>)"

type_synonym retmap = "(string, kafkaReq_t) gomap"

definition merge_msg :: "genMsg_t \<Rightarrow> retmap \<Rightarrow> retmap" where
  "merge_msg m retmap =
     mput (gm_RequestId m)
       (case map_of retmap (gm_RequestId m) of
          Some cur \<Rightarrow> update_entry m cur
        | None \<Rightarrow> new_entry m) retmap"

section \<open>Reading the partitions\<close>

text \<open>
  A consumer of a partition: the high water mark when it is opened and when its goroutine
  starts, and the messages that its channel delivers.  \<^verbatim>\<open>ConsumePartition\<close> gives no consumer
  on an error.
\<close>

record pconsumer =
  pc_mark :: int
  pc_hwo :: int
  pc_msgs :: "kmsg list"

record 's topic_reader =
  tr_Partitions :: "'s \<Rightarrow> string \<Rightarrow> err + int list"
  tr_oldest :: "string \<Rightarrow> int \<Rightarrow> int"
  tr_ConsumePartition :: "'s \<Rightarrow> string \<Rightarrow> int \<Rightarrow> int \<Rightarrow> pconsumer option"

definition open_partition :: "'s topic_reader \<Rightarrow> 's \<Rightarrow> string \<Rightarrow> int \<Rightarrow>
    (int, pconsumer option) gomap \<Rightarrow> (int, pconsumer option) gomap" where
  "open_partition tr consumer topic part pcs =
     (let oldest = tr_oldest tr topic part;
          pc = tr_ConsumePartition tr consumer topic part oldest
      in mput part
           (case pc of
              None \<Rightarrow> None
            | Some c \<Rightarrow> if pc_mark c = oldest then None else Some c) pcs)"

text \<open>
  The loop of a goroutine stops after the last message below the mark; before that it waits
  for more messages, so that the result is \<^const>\<open>None\<close> if the message never comes.  The
  encoding of a decoded message as JSON and back does not fail.
\<close>

fun read_until :: "int \<Rightarrow> kmsg list \<Rightarrow> kmsg list option" where
  "read_until hwo [] = None"
| "read_until hwo (msg # msgs) =
     (if km_Offset msg = hwo - 1 then Some [msg] else map_option ((#) msg) (read_until hwo msgs))"

fun read_all :: "pconsumer option list \<Rightarrow> kmsg list list option" where
  "read_all [] = Some []"
| "read_all (None # pcs) = read_all pcs"
| "read_all (Some c # pcs) =
     (case read_until (pc_hwo c) (pc_msgs c) of
        None \<Rightarrow> None
      | Some msgs \<Rightarrow> map_option ((#) msgs) (read_all pcs))"

text \<open>The interleavings of the goroutines.\<close>

inductive interleaves :: "'a list list \<Rightarrow> 'a list \<Rightarrow> bool" where
  none: "(\<forall>l \<in> set ls. l = []) \<Longrightarrow> interleaves ls []"
| one: "interleaves (before @ xs # after) ys \<Longrightarrow> interleaves (before @ (x # xs) # after) (x # ys)"

section \<open>Selecting the entries\<close>

definition reqMsg_json :: "reqMsg_t \<Rightarrow> jval" where
  "reqMsg_json r = JObj
     [(''ActorType'', JStr (rm_ActorType r)), (''ActorId'', JStr (rm_ActorId r)),
      (''Path'', JStr (rm_Path r)), (''Payload'', rm_Payload r),
      (''Sequence'', JFloat (float64_of_int (rm_Sequence r))),
      (''Timestamp'', JFloat (float64_of_int (rm_Timestamp r))),
      (''Deadline'', JFloat (float64_of_int (rm_Deadline r)))]"

definition kafkaReq_json :: "kafkaReq_t \<Rightarrow> jval" where
  "kafkaReq_json r = JObj
     [(''RequestId'', JStr (kr_RequestId r)), (''ParentId'', JStr (kr_ParentId r)),
      (''RequestType'', JStr (kr_RequestType r)), (''MsgFound'', JBool (kr_MsgFound r)),
      (''EarliestTailCall'', reqMsg_json (kr_EarliestTailCall r)),
      (''LatestTailCall'', reqMsg_json (kr_LatestTailCall r)),
      (''Response'', kr_Response r),
      (''ResponseTimestamp'', JFloat (float64_of_int (kr_ResponseTimestamp r)))]"

text \<open>
  The client has copies of \<^verbatim>\<open>access\<close>, \<^verbatim>\<open>cond\<close> and \<^verbatim>\<open>runConds\<close> in its \<^verbatim>\<open>parser.go\<close>, whose text is
  that of \<^verbatim>\<open>debug-parser.go\<close>; the rule for identifiers, and so the parser, differs.
\<close>

definition client_access :: "jval \<Rightarrow> string list \<Rightarrow> jval result" where
  "client_access obj query = access obj query"

definition client_cond :: "(string \<Rightarrow> string \<Rightarrow> bool) \<Rightarrow> jval \<Rightarrow> Cond_p \<Rightarrow> bool result" where
  "client_cond re obj c = cond re obj c"

definition client_runConds :: "(string \<Rightarrow> string \<Rightarrow> bool) \<Rightarrow> (string \<Rightarrow> err + CondList_p) \<Rightarrow> jval \<Rightarrow>
    string \<Rightarrow> bool result" where
  "client_runConds re prs obj conds =
     (case prs conds of
        Inl _ \<Rightarrow> Ok False
      | Inr cl \<Rightarrow>
          foldr (\<lambda>c rest. case client_cond re obj c of Ok True \<Rightarrow> rest | r \<Rightarrow> r)
            ((case cl_Head cl of None \<Rightarrow> [] | Some cs \<Rightarrow> cs) @ [cl_Tail cl]) (Ok True))"

text \<open>
  The conditions are run on the \<^verbatim>\<open>kafkaReq_t\<close> itself, a struct, which is neither a map nor a
  slice: \<^verbatim>\<open>access\<close> treats it as it treats any scalar, here \<^const>\<open>JNull\<close> (an accessor has at
  least one step).
\<close>

definition struct_value :: "kafkaReq_t \<Rightarrow> jval" where
  "struct_value req = JNull"

definition keep_entry :: "(string \<Rightarrow> string \<Rightarrow> bool) \<Rightarrow> (string \<Rightarrow> err + CondList_p) \<Rightarrow>
    (string, string) gomap \<Rightarrow> string \<Rightarrow> kafkaReq_t \<Rightarrow> bool result" where
  "keep_entry re prs debugMsg reqId req =
     (if mget [] debugMsg ''conds'' = [] \<and> reqId = mget [] debugMsg ''reqId'' then Ok True
      else client_runConds re prs (struct_value req) (mget [] debugMsg ''conds''))"

fun keep_entries :: "(string \<Rightarrow> kafkaReq_t \<Rightarrow> bool result) \<Rightarrow> retmap \<Rightarrow> retmap \<Rightarrow> retmap result" where
  "keep_entries keep [] retmap = Ok retmap"
| "keep_entries keep ((reqId, req) # rest) retmap =
     (case keep reqId req of
        Ok b \<Rightarrow> keep_entries keep rest (if b then retmap else mdel reqId retmap)
      | Error e \<Rightarrow> Error e
      | Panicked \<Rightarrow> Panicked)"

text \<open>The selected fields of an entry; a selection starts with a name that is dropped.\<close>

fun select_fields :: "jval \<Rightarrow> string list \<Rightarrow> (string, jval) gomap \<Rightarrow> (string, jval) gomap result" where
  "select_fields obj [] myId = Ok myId"
| "select_fields obj (sel # sels) myId =
     (case client_access obj (tl (split_on (CHR ''.'') sel)) of
        Ok v \<Rightarrow> select_fields obj sels (mput sel v myId)
      | Error _ \<Rightarrow> select_fields obj sels myId
      | Panicked \<Rightarrow> Panicked)"

definition count_key :: "string \<Rightarrow> (string, int) gomap \<Rightarrow> (string, int) gomap" where
  "count_key k countmap =
     (case map_of countmap k of
        Some n \<Rightarrow> mput k (n + 1) countmap
      | None \<Rightarrow> mput k 1 countmap)"

fun count_entries :: "client_json \<Rightarrow> string list \<Rightarrow> retmap \<Rightarrow> (string, int) gomap \<Rightarrow>
    (string, int) gomap result" where
  "count_entries js sels [] countmap = Ok countmap"
| "count_entries js sels ((_, req) # rest) countmap =
     (case select_fields (kafkaReq_json req) sels [] of
        Ok myId \<Rightarrow> count_entries js sels rest (count_key (cj_marshal js (JObj myId)) countmap)
      | Error e \<Rightarrow> Error e
      | Panicked \<Rightarrow> Panicked)"

section \<open>processReadKafka\<close>

record reader_env =
  re_json :: client_json
  re_match :: "string \<Rightarrow> string \<Rightarrow> bool"
  re_parser :: "string \<Rightarrow> err + CondList_p"
  re_sched :: "kmsg list list \<Rightarrow> kmsg list"
  re_rng_pcs :: "(int, pconsumer option) gomap \<Rightarrow> (int, pconsumer option) gomap"
  re_rng :: "retmap \<Rightarrow> retmap"

datatype vkr = Requests retmap | Counts "(string, int) gomap"

definition merge_all :: "client_json \<Rightarrow> kmsg list \<Rightarrow> retmap" where
  "merge_all js msgs = fold merge_msg (map (handleMessage js) msgs) []"

definition select_entries :: "reader_env \<Rightarrow> (string, string) gomap \<Rightarrow> retmap \<Rightarrow> vkr result" where
  "select_entries e debugMsg retmap =
     (let selections = map trim_space (split_on (CHR '','') (mget [] debugMsg ''select''))
      in case keep_entries (keep_entry (re_match e) (re_parser e) debugMsg) (re_rng e retmap) retmap of
           Error er \<Rightarrow> Error er
         | Panicked \<Rightarrow> Panicked
         | Ok kept \<Rightarrow>
             if mget [] debugMsg ''select'' \<noteq> [] then
               (case count_entries (re_json e) selections (re_rng e kept) [] of
                  Ok countmap \<Rightarrow> Ok (Counts countmap)
                | Error er \<Rightarrow> Error er
                | Panicked \<Rightarrow> Panicked)
             else Ok (Requests kept))"

text \<open>\<^const>\<open>None\<close>: some goroutine waits for ever for the message below the mark of its partition.\<close>

definition processReadKafka :: "'s topic_reader \<Rightarrow> reader_env \<Rightarrow> ('c, 's) kafka_vars \<Rightarrow>
    (string, string) gomap \<Rightarrow> vkr result option" where
  "processReadKafka tr e kv debugMsg =
     (case kv_Err kv of
        Some er \<Rightarrow> Some (Error er)
      | None \<Rightarrow>
          (case kv_Consumer kv of
             None \<Rightarrow> Some Panicked
           | Some consumer \<Rightarrow>
               (case tr_Partitions tr consumer (kv_Topic kv) of
                  Inl er \<Rightarrow> Some (Error er)
                | Inr partitions \<Rightarrow>
                    (let pcs = fold (open_partition tr consumer (kv_Topic kv)) partitions []
                     in case read_all (map snd (re_rng_pcs e pcs)) of
                          None \<Rightarrow> None
                        | Some mss \<Rightarrow>
                            Some (select_entries e debugMsg (merge_all (re_json e) (re_sched e mss)))))))"

section \<open>One entry per request\<close>

lemma interleaves_set: "interleaves ls ys \<Longrightarrow> set ys = set (concat ls)"
proof (induction rule: interleaves.induct)
  case (none ls)
  then show ?case
    by auto
qed auto

definition step_entry :: "genMsg_t \<Rightarrow> kafkaReq_t option \<Rightarrow> kafkaReq_t option" where
  "step_entry m entry = Some (case entry of Some cur \<Rightarrow> update_entry m cur | None \<Rightarrow> new_entry m)"

lemma merge_entry:
  "map_of (fold merge_msg ms M) r = fold step_entry (filter (\<lambda>m. gm_RequestId m = r) ms) (map_of M r)"
  by (induction ms arbitrary: M) (simp_all add: merge_msg_def step_entry_def)

lemma fold_step_entry: "fold step_entry ms (Some e) = Some (fold update_entry ms e)"
  by (induction ms arbitrary: e) (simp_all add: step_entry_def)

text \<open>The requests among messages, and an entry that starts or ends at one of them.\<close>

definition requests :: "genMsg_t list \<Rightarrow> genMsg_t set" where
  "requests ms = {m \<in> set ms. \<not> gm_IsResponse m}"

definition earliest :: "genMsg_t list \<Rightarrow> kafkaReq_t \<Rightarrow> bool" where
  "earliest ms e \<longleftrightarrow> kr_MsgFound e = (requests ms \<noteq> {}) \<and>
     (kr_MsgFound e \<longrightarrow> (\<exists>m \<in> requests ms. kr_EarliestTailCall e = reqMsg_of m \<and>
        (\<forall>m' \<in> requests ms. gm_Sequence m \<le> gm_Sequence m')))"

definition latest :: "genMsg_t list \<Rightarrow> kafkaReq_t \<Rightarrow> bool" where
  "latest ms e \<longleftrightarrow> (\<exists>m \<in> requests ms. kr_LatestTailCall e = reqMsg_of m \<and>
        (\<forall>m' \<in> requests ms. gm_Sequence m' \<le> gm_Sequence m))"

lemma requests_snoc: "requests (ms @ [m]) = (if gm_IsResponse m then requests ms else insert m (requests ms))"
  by (auto simp: requests_def)

lemma reqMsg_of_Sequence [simp]: "rm_Sequence (reqMsg_of m) = gm_Sequence m"
  by (simp add: reqMsg_of_def)

lemma earliest_update: "earliest ms e \<Longrightarrow> earliest (ms @ [m]) (update_entry m e)"
  unfolding earliest_def requests_snoc update_entry_def Let_def by (auto; force)

lemma latest_update:
  assumes "earliest ms e" and "latest ms e"
  shows "latest (ms @ [m]) (update_entry m e)"
  using assms unfolding earliest_def latest_def requests_snoc update_entry_def Let_def
  by (auto; force)

lemma update_ParentId [simp]: "kr_ParentId (update_entry m e) = kr_ParentId e"
  "kr_RequestId (update_entry m e) = kr_RequestId e"
  by (simp_all add: update_entry_def Let_def)

lemma new_entry_ends: "earliest [m] (new_entry m) \<and> (gm_IsResponse m \<or> latest [m] (new_entry m))"
  by (auto simp: earliest_def latest_def requests_def new_entry_def Let_def)

lemma fold_update_ends:
  "earliest ms e \<Longrightarrow> earliest (ms @ ms') (fold update_entry ms' e) \<and>
    (latest ms e \<longrightarrow> latest (ms @ ms') (fold update_entry ms' e))"
proof (induction ms' arbitrary: ms e)
  case (Cons m ms')
  from Cons.IH [OF earliest_update [OF Cons.prems], of m] latest_update [OF Cons.prems, of m]
  show ?case
    by simp
qed simp

lemma entry_ends:
  assumes "filter (\<lambda>m. gm_RequestId m = r) ms = m # ms'"
  shows "\<exists>e. map_of (fold merge_msg ms []) r = Some e \<and> earliest (m # ms') e \<and>
    (gm_IsResponse m \<or> latest (m # ms') e \<and> kr_ParentId e = gm_ParentId m)"
proof -
  have "map_of (fold merge_msg ms []) r = Some (fold update_entry ms' (new_entry m))"
    by (simp add: merge_entry assms fold_step_entry step_entry_def [of m None])
  moreover have "kr_ParentId (fold update_entry ms' e) = kr_ParentId e" for e
    by (induction ms' arbitrary: e) simp_all
  ultimately show ?thesis
    using fold_update_ends [of "[m]" "new_entry m" ms'] new_entry_ends [of m]
    by (auto simp: new_entry_def Let_def)
qed

text \<open>C32 However the goroutines that read the partitions interleave, a request that has a message
  in one of them gets one entry, and the entry's earliest tail call is the request message
  with the least sequence number.  Its latest tail call is the one with the greatest sequence
  number, and its parent the one of the message, unless a response of the request was read before all of them.\<close>

theorem tail_calls_extremes:
  assumes "interleaves mss ms" and "msg \<in> set (concat mss)"
    and "gm_RequestId (handleMessage js msg) = r" and "\<not> gm_IsResponse (handleMessage js msg)"
  defines "calls \<equiv> {m \<in> handleMessage js ` set (concat mss). gm_RequestId m = r \<and> \<not> gm_IsResponse m}"
    and "first \<equiv> hd (filter (\<lambda>m. gm_RequestId m = r) (map (handleMessage js) ms))"
  shows "\<exists>e. map_of (merge_all js ms) r = Some e \<and> kr_MsgFound e \<and>
    kr_EarliestTailCall e \<in> reqMsg_of ` calls \<and>
    rm_Sequence (kr_EarliestTailCall e) = Min (gm_Sequence ` calls) \<and>
    (gm_IsResponse first \<or>
     kr_LatestTailCall e \<in> reqMsg_of ` calls \<and>
     rm_Sequence (kr_LatestTailCall e) = Max (gm_Sequence ` calls) \<and>
     kr_ParentId e = gm_ParentId first)"
proof -
  let ?f = "filter (\<lambda>m. gm_RequestId m = r) (map (handleMessage js) ms)"
  have set: "set ms = set (concat mss)"
    using assms(1) by (rule interleaves_set)
  then have calls: "calls = requests ?f"
    by (auto simp: calls_def requests_def)
  have fin: "finite (gm_Sequence ` requests ?f)"
    by (simp add: requests_def)
  have "handleMessage js msg \<in> requests ?f"
    using assms(2-4) set by (simp add: requests_def)
  then obtain m ms' where f: "?f = m # ms'" and ne: "requests ?f \<noteq> {}"
    by (cases ?f) (auto simp: requests_def)
  from entry_ends [OF f] obtain e where e: "map_of (merge_all js ms) r = Some e"
    and early: "earliest ?f e"
    and late: "gm_IsResponse first \<or> latest ?f e \<and> kr_ParentId e = gm_ParentId first"
    by (auto simp: merge_all_def f first_def)
  have "kr_MsgFound e \<and> kr_EarliestTailCall e \<in> reqMsg_of ` calls \<and>
      rm_Sequence (kr_EarliestTailCall e) = Min (gm_Sequence ` calls)"
    using early ne fin unfolding calls earliest_def by (auto intro!: Min_eqI [symmetric])
  moreover have "kr_LatestTailCall e \<in> reqMsg_of ` calls \<and>
      rm_Sequence (kr_LatestTailCall e) = Max (gm_Sequence ` calls)" if "latest ?f e"
    using that fin unfolding calls latest_def by (auto intro!: Max_eqI [symmetric])
  ultimately show ?thesis
    using e late by blast
qed

definition plain_client_json :: client_json where
  "plain_client_json = \<lparr>cj_unobj = (\<lambda>s. ([(''path'', JStr s)], None)), cj_unany = (\<lambda>s. (JStr s, None)),
     cj_marshal = (\<lambda>_. [])\<rparr>"

definition call_msg :: "string \<Rightarrow> string \<Rightarrow> kmsg" where
  "call_msg n p = \<lparr>km_Timestamp = 0, km_Headers = [(''Type'', ''Call''), (''RequestID'', ''r''),
     (''Sequence'', n), (''Parent'', ''p'')], km_Value = p, km_Offset = 0\<rparr>"

definition response_msg :: kmsg where
  "response_msg = \<lparr>km_Timestamp = 0, km_Headers = [(''Type'', ''Response''), (''RequestID'', ''r'')],
     km_Value = [], km_Offset = 0\<rparr>"

lemma handle_call_msg:
  "handleMessage plain_client_json (call_msg n p) =
     \<lparr>gm_IsResponse = False, gm_RequestId = ''r'', gm_ParentId = ''p'', gm_RequestType = ''call'',
      gm_Sequence = fst (parse_int n), gm_Timestamp = Unix 0, gm_Deadline = 0, gm_ActorId = [],
      gm_ActorType = [], gm_Path = p, gm_Payload = JNull, gm_Response = JNull\<rparr>"
  by (simp add: handleMessage_def call_msg_def plain_client_json_def read_header_def
      unpackRequestValue_def mget_def Let_def)

lemma handle_response_msg:
  "handleMessage plain_client_json response_msg =
     \<lparr>gm_IsResponse = True, gm_RequestId = ''r'', gm_ParentId = [], gm_RequestType = ''call'',
      gm_Sequence = 0, gm_Timestamp = Unix 0, gm_Deadline = 0, gm_ActorId = [],
      gm_ActorType = [], gm_Path = [], gm_Payload = JNull, gm_Response = JObj [(''path'', JStr [])]\<rparr>"
  by (simp add: handleMessage_def response_msg_def plain_client_json_def read_header_def
      unpackResponseValue_def mget_def Let_def)

lemma interleaves_example:
  "interleaves [[call_msg (itoa 2) ''/b''], [call_msg (itoa 1) ''/a'', response_msg]]
     [call_msg (itoa 2) ''/b'', call_msg (itoa 1) ''/a'', response_msg]"
proof -
  let ?a = "call_msg (itoa 1) ''/a''"
  have "interleaves [[], [] :: kmsg list] []"
    by (rule interleaves.none) simp
  then have "interleaves [[], [response_msg]] [response_msg]"
    using interleaves.one [of "[[]]" "[]" "[]" "[]" response_msg] by simp
  then have "interleaves [[], [?a, response_msg]] [?a, response_msg]"
    using interleaves.one [of "[[]]" "[response_msg]" "[]" "[response_msg]" ?a] by simp
  then show ?thesis
    using interleaves.one [of "[]" "[]" "[[?a, response_msg]]" "[?a, response_msg]"] by simp
qed

theorem tail_calls_extremes_witness:
  "\<exists>e. map_of (merge_all plain_client_json
       [call_msg (itoa 2) ''/b'', call_msg (itoa 1) ''/a'', response_msg]) ''r'' = Some e \<and>
     rm_Sequence (kr_EarliestTailCall e) = 1 \<and> rm_Sequence (kr_LatestTailCall e) = 2 \<and>
     kr_ParentId e = ''p''"
proof -
  have i: "int64 1" "int64 2"
    by (simp_all add: int64_def)
  have "{m \<in> handleMessage plain_client_json ` set (concat [[call_msg (itoa 2) ''/b''],
      [call_msg (itoa 1) ''/a'', response_msg]]). gm_RequestId m = ''r'' \<and> \<not> gm_IsResponse m} =
      {handleMessage plain_client_json (call_msg (itoa 2) ''/b''),
       handleMessage plain_client_json (call_msg (itoa 1) ''/a'')}"
    by (auto simp: handle_call_msg handle_response_msg)
  then show ?thesis
    using tail_calls_extremes [OF interleaves_example, of "call_msg (itoa 2) ''/b''" plain_client_json "''r''"]
    by (auto simp: handle_call_msg handle_response_msg i)
qed

section \<open>Counting and selecting\<close>

definition total :: "(string, int) gomap \<Rightarrow> int" where
  "total m = sum_list (map snd m)"

lemma total_mput:
  "wf_map m \<Longrightarrow> total (mput k v m) = total m - mget 0 m k + v"
proof (induction m)
  case (Cons p m)
  then show ?case
    by (cases p) (auto simp: total_def mget_def wf_map_def)
qed (simp add: total_def mget_def)

lemma total_count_key: "wf_map m \<Longrightarrow> total (count_key k m) = total m + 1 \<and> wf_map (count_key k m)"
  by (auto simp: count_key_def total_mput mget_def wf_intros split: option.split)

text \<open>Every entry is counted once, under its selected fields.\<close>

lemma count_entries_total:
  "count_entries js sels entries m = Ok m' \<Longrightarrow> wf_map m \<Longrightarrow> total m' = total m + int (length entries)"
  by (induction js sels entries m rule: count_entries.induct)
    (auto simp: total_count_key split: result.splits)

text \<open>
  A response that is read before its request leaves the entry without parent and without
  latest tail call; requests and responses are in the partitions of different processes.
\<close>

lemma response_read_first:
  "\<exists>e. map_of (merge_all plain_client_json [response_msg, call_msg (itoa 1) ''/a'']) ''r'' = Some e \<and>
     kr_MsgFound e \<and> rm_Path (kr_EarliestTailCall e) = ''/a'' \<and> kr_LatestTailCall e = no_reqMsg \<and>
     kr_ParentId e = []"
  by (simp add: merge_all_def merge_msg_def new_entry_def update_entry_def handle_call_msg
      handle_response_msg reqMsg_of_def int64_def Let_def)

text \<open>
  The command line client sends the request to look for as \<^verbatim>\<open>requestId\<close>, and \<^verbatim>\<open>processReadKafka\<close>
  looks up \<^verbatim>\<open>reqId\<close>: without conditions only an entry with the empty identifier is kept.
\<close>

lemma keep_by_id:
  assumes "mget [] debugMsg ''conds'' = []" and "map_of debugMsg ''reqId'' = None" and "prs [] = Inl er"
  shows "keep_entry re prs debugMsg reqId req = Ok (reqId = [])"
  using assms by (simp add: keep_entry_def client_runConds_def mget_def)

text \<open>A condition on a field of the entry never holds, since the entry is not turned into a map.\<close>

lemma cond_on_struct:
  assumes "e_Accessor (c_LHS c) = Some (q # qs)"
  shows "client_cond re (struct_value req) c = Ok False"
  using assms by (simp add: client_cond_def cond_def operand_def struct_value_def child_def)

text \<open>\<^verbatim>\<open>KAFKA_TLS_SKIP_VERIFY\<close> never skips the verification; set to false it turns TLS off.\<close>

lemma skip_verify_ignored: "kafka_config sa getenv = Inr conf \<Longrightarrow> \<not> kc_InsecureSkipVerify conf"
  by (auto simp: kafka_config_def new_conf_def Let_def split: sum.splits if_splits)

lemma skip_verify_disables_TLS:
  assumes "getenv ''KAFKA_TLS_SKIP_VERIFY'' = ''false''" and "kafka_config sa getenv = Inr conf"
  shows "\<not> kc_TLS_Enable conf"
  using assms
  by (auto simp: kafka_config_def bool_env_def parse_bool_def new_conf_def Let_def
      split: sum.splits if_splits)

end
