(* ===== verification/Debugger_Client.thy ===== *)
theory Debugger_Client
  imports Deadlocks Kafka_Reader
begin

text \<open>
  The server side of the debugger client (\<^verbatim>\<open>cmd/kar-debugger/kar-debugger.go\<close>): the state it
  keeps of paused actors, breakpoints and connections, the messages it gets from the sidecar
  (\<^verbatim>\<open>listenSidecar\<close>, \<^verbatim>\<open>handleNotifyPause\<close>), and the requests of the command line clients
  (\<^verbatim>\<open>serveDebugger\<close>).

  A message is bytes with the results of decoding it with \<^verbatim>\<open>encoding/json\<close> at the types the code
  uses, which are parameters; errors of decoding are ignored by the code.  Connections of
  command line clients are numbers.  What the code prints is left out; what it sends is kept.
\<close>

section \<open>State\<close>

record actor_t =
  at_actorType :: string
  at_actorId :: string

record pauseInfo_t =
  pi_ActorType :: string
  pi_ActorId :: string
  pi_RequestId :: string
  pi_FlowId :: string
  pi_RequestValue :: string
  pi_ResponseValue :: string
  pi_IsResponse :: string
  pi_BreakpointId :: string
  pi_NodeId :: string
  pi_IsPaused :: bool
  pi_PauseDepth :: int
  pi_EndActorId :: string
  pi_EndActorType :: string
  pi_ChildActorId :: string
  pi_ChildActorType :: string
  pi_CanStep :: bool

record clientBreakpoint_t =
  cb_BreakpointId :: string
  cb_BreakpointType :: string
  cb_ActorType :: string
  cb_ActorId :: string
  cb_Path :: string
  cb_FlowId :: string
  cb_IsRequest :: string
  cb_Nodes :: "(string, unit) gomap"
  cb_NodesList :: "string list"
  cb_DeleteOnHit :: string
  cb_HitActorType :: string
  cb_HitActorId :: string
  cb_NumPausedActors :: int
  cb_isPaused :: bool

type_synonym paused = "(actor_t, pauseInfo_t) gomap"
type_synonym bkpts = "(string, clientBreakpoint_t) gomap"

text \<open>
  \<open>cs_nilBreakpoints\<close> tells that \<^verbatim>\<open>breakpoints\<close> is a nil map, which cannot be written;
  \<open>cs_goroutines\<close> holds the notifications that \<^verbatim>\<open>notifyBreakpoint\<close> hands to a goroutine,
  \<open>cs_answered\<close> the commands whose response channel was written.
\<close>

record ('c, 's) client_state =
  cs_kafka :: "('c, 's) kafka_vars"
  cs_pausedActors :: paused
  cs_busyInfo :: busyInfo_t
  cs_breakpoints :: bkpts
  cs_nilBreakpoints :: bool
  cs_respChans :: "(string, unit) gomap"
  cs_stepBreakpoints :: "(string, string) gomap"
  cs_idToConn :: "(string, nat) gomap"
  cs_goroutines :: "(string \<times> string) list"
  cs_answered :: "string list"
  cs_toDebuggers :: "(nat \<times> string) list"
  cs_toSidecar :: "string list"

record ('c, 's) client_env =
  ce_strs :: "string \<Rightarrow> (string, string) gomap"
  ce_gen :: "string \<Rightarrow> (string, jval) gomap"
  ce_pause :: "string \<Rightarrow> pauseInfo_t"
  ce_bks :: "string \<Rightarrow> (string, bkpts) gomap"
  ce_pauses :: "string \<Rightarrow> (string, pauseInfo_t list) gomap"
  ce_busy :: "string \<Rightarrow> (string, busyInfo_t) gomap"
  ce_jstrs :: "(string, string) gomap \<Rightarrow> string"
  ce_sarama :: "('c, 's) sarama"
  ce_getenv :: "string \<Rightarrow> string"
  ce_rng_paused :: "paused \<Rightarrow> paused"
  ce_rng_sent :: sent_range
  ce_fuel :: nat

section \<open>Pauses and breakpoints\<close>

text \<open>The breakpoint of an actor that leaves its pause; this block occurs twice in \<^verbatim>\<open>listenSidecar\<close>.\<close>

definition release_pause :: "pauseInfo_t option \<Rightarrow> bkpts \<Rightarrow> bkpts" where
  "release_pause info bks =
     (case info of
        Some actorInfo \<Rightarrow>
          if pi_PauseDepth actorInfo = 0 then
            (case map_of bks (pi_BreakpointId actorInfo) of
               None \<Rightarrow> bks
             | Some bk \<Rightarrow>
                 (let bk = bk\<lparr>cb_isPaused := False, cb_NumPausedActors := cb_NumPausedActors bk - 1\<rparr>;
                      bk = (if cb_NumPausedActors bk \<le> 0
                            then bk\<lparr>cb_HitActorType := [], cb_HitActorId := []\<rparr> else bk)
                  in mput (pi_BreakpointId actorInfo) bk bks))
          else bks
      | None \<Rightarrow> bks)"

definition unpause_actor :: "actor_t \<Rightarrow> paused \<times> bkpts \<Rightarrow> paused \<times> bkpts" where
  "unpause_actor a = (\<lambda>(paused, bks). (mdel a paused, release_pause (map_of paused a) bks))"

definition unpause_entry :: "string \<Rightarrow> actor_t \<times> pauseInfo_t \<Rightarrow> paused \<times> bkpts \<Rightarrow> paused \<times> bkpts" where
  "unpause_entry srcNodeId = (\<lambda>(actor, info) pb.
     if pi_NodeId info = srcNodeId then unpause_actor actor pb else pb)"

definition on_unpause :: "(paused \<Rightarrow> paused) \<Rightarrow> (string, string) gomap \<Rightarrow> paused \<times> bkpts \<Rightarrow>
    paused \<times> bkpts" where
  "on_unpause rng msg pb =
     (let pb = unpause_actor \<lparr>at_actorType = mget [] msg ''actorType'', at_actorId = mget [] msg ''actorId''\<rparr> pb
      in if mget [] msg ''actorId'' = [] \<and> mget [] msg ''actorType'' = []
         then fold (unpause_entry (mget [] msg ''srcNodeId'')) (rng (fst pb)) pb
         else pb)"

definition handleNotifyPause :: "string \<Rightarrow> string \<Rightarrow> pauseInfo_t \<Rightarrow> paused \<times> bkpts \<Rightarrow> paused \<times> bkpts" where
  "handleNotifyPause actorType actorId myInfo = (\<lambda>(paused, bks).
     let myActor = \<lparr>at_actorType = actorType, at_actorId = actorId\<rparr>;
         bks = (case map_of paused myActor of
                  Some _ \<Rightarrow> bks
                | None \<Rightarrow>
                    (case map_of bks (pi_BreakpointId myInfo) of
                       Some bk \<Rightarrow>
                         if pi_PauseDepth myInfo = 0
                         then mput (pi_BreakpointId myInfo)
                                (bk\<lparr>cb_NumPausedActors := cb_NumPausedActors bk + 1\<rparr>) bks
                         else bks
                     | None \<Rightarrow> bks))
     in (mput myActor myInfo paused, bks))"

definition on_listPausedActors :: "pauseInfo_t \<Rightarrow> paused \<times> bkpts \<Rightarrow> paused \<times> bkpts" where
  "on_listPausedActors info = (\<lambda>(paused, bks).
     (mput \<lparr>at_actorType = pi_ActorType info, at_actorId = pi_ActorId info\<rparr> info paused,
      case map_of bks (pi_BreakpointId info) of
        Some bk \<Rightarrow>
          if pi_PauseDepth info = 0
          then mput (pi_BreakpointId info) (bk\<lparr>cb_NumPausedActors := cb_NumPausedActors bk + 1\<rparr>) bks
          else bks
      | None \<Rightarrow> bks))"

section \<open>Indirect pauses\<close>

definition actor_of :: "actorJson_t \<Rightarrow> actor_t" where
  "actor_of a = \<lparr>at_actorType = aj_ActorType a, at_actorId = aj_ActorId a\<rparr>"

text \<open>
  The inner loop of \<^verbatim>\<open>listBusyActors\<close> goes from a request to its parents.  Its number of
  iterations is bounded by fuel: it does not end on a circle of parents.
\<close>

fun pause_parents :: "nat \<Rightarrow> busyInfo_t \<Rightarrow> pauseInfo_t option \<Rightarrow> string \<Rightarrow> string \<Rightarrow> string \<Rightarrow> int \<Rightarrow>
    paused \<Rightarrow> paused option" where
  "pause_parents fuel info endInfo flow curReq childReq depth paused =
     (if curReq = [] then Some paused
      else case fuel of
        0 \<Rightarrow> None
      | Suc n \<Rightarrow>
          (let sentInfo = map_of (bi_ActorSent info) curReq;
               curActor = (case sentInfo of
                             Some i \<Rightarrow> actor_of (bs_Actor i)
                           | None \<Rightarrow> actor_of (bs_Actor (mget no_sent (bi_ActorHandling info) curReq)));
               child = mget no_sent (bi_ActorSent info) childReq;
               paused = (case (endInfo, map_of paused curActor) of
                           (Some e, None) \<Rightarrow>
                             mput curActor
                               (e\<lparr>pi_IsPaused := True, pi_PauseDepth := depth,
                                  pi_ActorId := at_actorId curActor, pi_ActorType := at_actorType curActor,
                                  pi_RequestId := childReq, pi_FlowId := flow,
                                  pi_RequestValue := bs_RequestValue child,
                                  pi_ChildActorId := aj_ActorId (bs_Actor child),
                                  pi_ChildActorType := aj_ActorType (bs_Actor child),
                                  pi_CanStep := True, pi_IsResponse := ''request''\<rparr>) paused
                         | _ \<Rightarrow> paused)
           in pause_parents n info endInfo flow
                (case sentInfo of Some i \<Rightarrow> bs_ParentId i | None \<Rightarrow> []) curReq (depth + 1) paused))"

declare pause_parents.simps [simp del]

text \<open>
  One iteration of the outer loop.  \<open>endInfo\<close> is \<^const>\<open>None\<close> when the actor of the request is
  not paused; it is the entry of the actor before the fields of its end are filled in.
\<close>

definition pause_callers :: "nat \<Rightarrow> busyInfo_t \<Rightarrow> string \<times> busySent_t \<Rightarrow>
    (string, bool) gomap \<times> paused \<Rightarrow> ((string, bool) gomap \<times> paused) option" where
  "pause_callers fuel info = (\<lambda>(req, curInfo) (visited, paused).
     if mget False visited req then Some (visited, paused)
     else
       let visited = mput req True visited;
           curActor = actor_of (bs_Actor curInfo);
           endInfo = (case map_of paused curActor of
                        Some tmp \<Rightarrow> if pi_PauseDepth tmp = 0 then Some tmp else None
                      | None \<Rightarrow> None);
           paused = (case endInfo of
                       Some tmp \<Rightarrow>
                         mput curActor
                           (tmp\<lparr>pi_IsPaused := True, pi_PauseDepth := 0,
                              pi_EndActorId := at_actorId curActor, pi_EndActorType := at_actorType curActor,
                              pi_FlowId := bs_FlowId curInfo, pi_CanStep := bs_ParentId curInfo \<noteq> []\<rparr>) paused
                     | None \<Rightarrow> paused)
       in map_option (Pair visited)
            (pause_parents fuel info endInfo (bs_FlowId curInfo) (bs_ParentId curInfo) req 1 paused))"

fun pause_requests :: "nat \<Rightarrow> busyInfo_t \<Rightarrow> (string, busySent_t) gomap \<Rightarrow>
    (string, bool) gomap \<times> paused \<Rightarrow> paused option" where
  "pause_requests fuel info [] vp = Some (snd vp)"
| "pause_requests fuel info (r # rs) vp =
     (case pause_callers fuel info r vp of
        None \<Rightarrow> None
      | Some vp' \<Rightarrow> pause_requests fuel info rs vp')"

definition on_listBusyActors :: "nat \<Rightarrow> sent_range \<Rightarrow> busyInfo_t \<Rightarrow> paused \<Rightarrow> paused option" where
  "on_listBusyActors fuel rng info paused = pause_requests fuel info (rng (bi_ActorSent info)) ([], paused)"

section \<open>listenSidecar\<close>

text \<open>
  How an iteration of the loop ends: the listener goes on, returns with \<^verbatim>\<open>breakpointsLock\<close> held,
  panics, or never leaves the loop over the parents of a request.
\<close>

datatype listen = Listening | Returned_locked | Crashed | Looping

definition to_debugger :: "nat \<Rightarrow> string \<Rightarrow> ('c, 's) client_state \<Rightarrow> ('c, 's) client_state" where
  "to_debugger c bytes st = st\<lparr>cs_toDebuggers := cs_toDebuggers st @ [(c, bytes)]\<rparr>"

text \<open>The answer to the command line client that is waiting for it.\<close>

definition reply_command :: "bool \<Rightarrow> (string, string) gomap \<Rightarrow> string \<Rightarrow> ('c, 's) client_state \<Rightarrow>
    ('c, 's) client_state" where
  "reply_command once msg bytes st =
     (let commandId = mget [] msg ''commandId'';
          st' = (case map_of (cs_idToConn st) commandId of
                   Some c \<Rightarrow> to_debugger c bytes st
                 | None \<Rightarrow> st)
      in if once \<or> map_of msg ''keepAlive'' = None
         then st'\<lparr>cs_idToConn := mdel commandId (cs_idToConn st')\<rparr> else st')"

definition with_pauses :: "(paused \<times> bkpts \<Rightarrow> paused \<times> bkpts) \<Rightarrow> ('c, 's) client_state \<Rightarrow>
    ('c, 's) client_state" where
  "with_pauses f st =
     (case f (cs_pausedActors st, cs_breakpoints st) of
        (p, b) \<Rightarrow> st\<lparr>cs_pausedActors := p, cs_breakpoints := b\<rparr>)"

definition on_notifyBreakpoint :: "('c, 's) client_env \<Rightarrow> string \<Rightarrow> ('c, 's) client_state \<Rightarrow>
    listen \<times> ('c, 's) client_state" where
  "on_notifyBreakpoint e msgBytes st =
     (let msg = ce_strs e msgBytes;
          bkId = mget [] msg ''breakpointId''
      in case map_of (cs_breakpoints st) bkId of
           None \<Rightarrow> (Listening, st)
         | Some bk \<Rightarrow>
             if cb_DeleteOnHit bk = ''true'' \<and> bkId = [] then (Crashed, st)
             else
               let hit = cb_DeleteOnHit bk \<noteq> ''true'' \<and>
                         (cb_NumPausedActors bk = 0 \<or> \<not> cb_isPaused bk);
                   st = (if hit
                         then st\<lparr>cs_breakpoints := mput bkId
                                (bk\<lparr>cb_HitActorType := mget [] msg ''actorType'',
                                    cb_HitActorId := mget [] msg ''actorId'', cb_isPaused := True\<rparr>)
                                (cs_breakpoints st)\<rparr>
                         else st);
                   st = (if cb_DeleteOnHit bk = ''true''
                         then st\<lparr>cs_goroutines := cs_goroutines st @ [(cb_BreakpointId bk, msgBytes)]\<rparr>
                         else st)
               in (Listening, with_pauses (handleNotifyPause (mget [] msg ''actorType'')
                                (mget [] msg ''actorId'') (ce_pause e msgBytes)) st))"

text \<open>The goroutine of a step breakpoint, run at some later time.\<close>

definition run_goroutine :: "('c, 's) client_state \<Rightarrow> ('c, 's) client_state" where
  "run_goroutine st =
     (case cs_goroutines st of
        [] \<Rightarrow> st
      | (bkId, msgBytes) # gs \<Rightarrow>
          (let st = st\<lparr>cs_goroutines := gs\<rparr>
           in case map_of (cs_stepBreakpoints st) bkId of
                None \<Rightarrow> st
              | Some cmdId \<Rightarrow>
                  (case map_of (cs_idToConn st) cmdId of
                     None \<Rightarrow> st
                   | Some c \<Rightarrow> to_debugger c msgBytes st)))"

fun node_names :: "jval list \<Rightarrow> string list option" where
  "node_names [] = Some []"
| "node_names (JStr s # vs) = map_option ((#) s) (node_names vs)"
| "node_names (_ # vs) = None"

definition node_set :: "string list \<Rightarrow> (string, unit) gomap" where
  "node_set ns = fold (\<lambda>n. mput n ()) ns []"

definition new_breakpoint :: "(string, string) gomap \<Rightarrow> string list \<Rightarrow> clientBreakpoint_t" where
  "new_breakpoint msg nodes =
     \<lparr>cb_BreakpointId = mget [] msg ''breakpointId'', cb_BreakpointType = mget [] msg ''breakpointType'',
      cb_ActorType = mget [] msg ''actorType'', cb_ActorId = mget [] msg ''actorId'',
      cb_Path = mget [] msg ''path'', cb_FlowId = mget [] msg ''flowId'',
      cb_IsRequest = mget [] msg ''isRequest'', cb_Nodes = node_set nodes, cb_NodesList = [],
      cb_DeleteOnHit = (if mget [] msg ''deleteOnHit'' = ''true'' then ''true'' else []),
      cb_HitActorType = [], cb_HitActorId = [], cb_NumPausedActors = 0, cb_isPaused = False\<rparr>"

definition on_setBreakpoint :: "('c, 's) client_env \<Rightarrow> string \<Rightarrow> ('c, 's) client_state \<Rightarrow>
    listen \<times> ('c, 's) client_state" where
  "on_setBreakpoint e msgBytes st =
     (let msg = ce_strs e msgBytes;
          bkId = mget [] msg ''breakpointId'';
          st = (if mget [] msg ''deleteOnHit'' = ''true''
                then st\<lparr>cs_stepBreakpoints := mput bkId (mget [] msg ''commandId'') (cs_stepBreakpoints st)\<rparr>
                else st)
      in case map_of (ce_gen e msgBytes) ''nodes'' of
           Some (JArr vs) \<Rightarrow>
             (case (node_names vs, map_of (cs_breakpoints st) bkId) of
                (None, _) \<Rightarrow> (Crashed, st)
              | (Some nodes, None) \<Rightarrow>
                  if cs_nilBreakpoints st then (Crashed, st)
                  else (Listening, reply_command False msg (ce_jstrs e [(''breakpointId'', bkId)])
                          (st\<lparr>cs_breakpoints := mput bkId (new_breakpoint msg nodes) (cs_breakpoints st)\<rparr>))
              | (Some nodes, Some bk) \<Rightarrow>
                  (Listening, reply_command False msg (ce_jstrs e [(''breakpointId'', bkId)])
                     (st\<lparr>cs_breakpoints := mput bkId (bk\<lparr>cb_Nodes := node_set nodes\<rparr>) (cs_breakpoints st)\<rparr>)))
         | _ \<Rightarrow> (Returned_locked, st))"

text \<open>The map of nodes is shared with the stored breakpoint, so that the deletions are kept.\<close>

definition on_unsetBreakpoint :: "('c, 's) client_env \<Rightarrow> string \<Rightarrow> ('c, 's) client_state \<Rightarrow>
    listen \<times> ('c, 's) client_state" where
  "on_unsetBreakpoint e msgBytes st =
     (let bkId = mget [] (ce_strs e msgBytes) ''breakpointId''
      in case map_of (ce_gen e msgBytes) ''nodes'' of
           Some (JArr vs) \<Rightarrow>
             (case map_of (cs_breakpoints st) bkId of
                None \<Rightarrow> (Listening, st)
              | Some bk \<Rightarrow>
                  (case node_names vs of
                     None \<Rightarrow> (Crashed, st)
                   | Some nodes \<Rightarrow>
                       (let bk = bk\<lparr>cb_Nodes := fold mdel nodes (cb_Nodes bk)\<rparr>
                        in (Listening,
                            st\<lparr>cs_breakpoints := (if cb_Nodes bk = [] then mdel bkId (cs_breakpoints st)
                                                else mput bkId bk (cs_breakpoints st))\<rparr>))))
         | _ \<Rightarrow> (Crashed, st))"

definition on_listBreakpoints :: "bkpts option \<Rightarrow> ('c, 's) client_state \<Rightarrow> ('c, 's) client_state" where
  "on_listBreakpoints bks st =
     (case bks of
        None \<Rightarrow> st\<lparr>cs_breakpoints := [], cs_nilBreakpoints := True\<rparr>
      | Some bks \<Rightarrow>
          st\<lparr>cs_breakpoints := map (\<lambda>(bkId, bk). (bkId, bk\<lparr>cb_Nodes := node_set (cb_NodesList bk)\<rparr>)) bks,
             cs_nilBreakpoints := False\<rparr>)"

text \<open>The rest of \<^verbatim>\<open>listBusyActors\<close>: the table is kept, and the waiting command is told.\<close>

definition on_busyInfo :: "('c, 's) client_env \<Rightarrow> string \<Rightarrow> ('c, 's) client_state \<Rightarrow>
    listen \<times> ('c, 's) client_state" where
  "on_busyInfo e msgBytes st =
     (let info = mget \<lparr>bi_ActorHandling = [], bi_ActorSent = []\<rparr> (ce_busy e msgBytes) ''busyInfo'';
          commandId = mget [] (ce_strs e msgBytes) ''commandId'';
          st = st\<lparr>cs_busyInfo := info\<rparr>
      in case on_listBusyActors (ce_fuel e) (ce_rng_sent e) info (cs_pausedActors st) of
           None \<Rightarrow> (Looping, st)
         | Some paused \<Rightarrow>
             (let st = st\<lparr>cs_pausedActors := paused\<rparr>
              in (Listening,
                  case map_of (cs_respChans st) commandId of
                    None \<Rightarrow> st
                  | Some _ \<Rightarrow> st\<lparr>cs_answered := cs_answered st @ [commandId],
                               cs_respChans := mdel commandId (cs_respChans st)\<rparr>)))"

definition listenSidecar :: "('c, 's) client_env \<Rightarrow> string \<Rightarrow> ('c, 's) client_state \<Rightarrow>
    listen \<times> ('c, 's) client_state" where
  "listenSidecar e msgBytes st =
     (let msg = ce_strs e msgBytes
      in case map_of msg ''command'' of
           None \<Rightarrow> (Listening, st)
         | Some cmd \<Rightarrow>
             if cmd = ''appName'' then
               (Listening, st\<lparr>cs_kafka := kafkaInit (ce_sarama e) (ce_getenv e) (mget [] msg ''appName'') (cs_kafka st)\<rparr>)
             else if cmd = ''error'' then (Listening, reply_command False msg msgBytes st)
             else if cmd = ''unpause'' then (Listening, with_pauses (on_unpause (ce_rng_paused e) msg) st)
             else if cmd = ''notifyPause'' then
               (Listening, with_pauses (handleNotifyPause (mget [] msg ''actorType'') (mget [] msg ''actorId'')
                             (ce_pause e msgBytes)) st)
             else if cmd = ''notifyBreakpoint'' then on_notifyBreakpoint e msgBytes st
             else if cmd = ''setBreakpoint'' then on_setBreakpoint e msgBytes st
             else if cmd = ''unsetBreakpoint'' then on_unsetBreakpoint e msgBytes st
             else if cmd = ''listBreakpoints'' then
               (Listening, on_listBreakpoints (map_of (ce_bks e msgBytes) ''breakpoints'') st)
             else if cmd = ''listPausedActors'' then
               (Listening, with_pauses (fold on_listPausedActors (mget [] (ce_pauses e msgBytes) ''actorsList'')) st)
             else if cmd = ''listBusyActors'' then on_busyInfo e msgBytes st
             else if cmd = ''kar invoke'' \<or> cmd = ''kar rest'' \<or> cmd = ''kar get'' then
               (Listening, reply_command True msg msgBytes st)
             else (Listening, st))"

section \<open>serveDebugger\<close>

record ('c, 's) serve_env = "('c, 's) client_env" +
  se_reader :: "'s topic_reader"
  se_renv :: reader_env
  se_unstrs :: "string \<Rightarrow> (string, string) gomap \<times> err option"
  se_jvkr :: "vkr option \<Rightarrow> string"
  se_jpath :: "edge_t list \<Rightarrow> string"
  se_jreq :: "(string, busySent_t) gomap \<Rightarrow> string"
  se_jbk :: "(string, clientBreakpoint_t) gomap \<Rightarrow> string"
  se_jbks :: "(string, clientBreakpoint_t list) gomap \<Rightarrow> string"
  se_jpaused :: "(string, pauseInfo_t list) gomap \<Rightarrow> string"
  se_rng_bks :: "bkpts \<Rightarrow> bkpts"
  se_rng_edges :: edge_range

text \<open>
  How the handling of a command goes on: the connection is given up, the command is answered,
  the handler waits for the busy actors under a fresh command, panics, or is stuck.
\<close>

datatype serve = Hung_up | Answered | Waits string | Panics | Stuck

definition ask_busy :: "('c, 's) serve_env \<Rightarrow> string \<Rightarrow> ('c, 's) client_state \<Rightarrow> ('c, 's) client_state" where
  "ask_busy e uuid st =
     st\<lparr>cs_respChans := mput uuid () (cs_respChans st),
        cs_toSidecar := cs_toSidecar st @
          [ce_jstrs e [(''command'', ''listBusyActors''), (''commandId'', uuid)]]\<rparr>"

definition view_deadlocks :: "('c, 's) serve_env \<Rightarrow> nat \<Rightarrow> ('c, 's) client_state \<Rightarrow>
    serve \<times> ('c, 's) client_state" where
  "view_deadlocks e c st =
     (case checkDeadlock (ce_fuel e) (ce_rng_sent e) (ce_rng_sent e) (se_rng_edges e) (cs_busyInfo st) of
        None \<Rightarrow> (Stuck, st)
      | Some path \<Rightarrow> (Answered, to_debugger c (se_jpath e path) st))"

definition view_request :: "('c, 's) serve_env \<Rightarrow> nat \<Rightarrow> (string, string) gomap \<Rightarrow>
    ('c, 's) client_state \<Rightarrow> serve \<times> ('c, 's) client_state" where
  "view_request e c msg st =
     (let reqId = mget [] msg ''requestId'';
          req = (case map_of (bi_ActorHandling (cs_busyInfo st)) reqId of
                   Some r \<Rightarrow> Some (r\<lparr>bs_IsHandling := True\<rparr>)
                 | None \<Rightarrow> map_of (bi_ActorSent (cs_busyInfo st)) reqId);
          response = (case req of Some r \<Rightarrow> [(''request'', r)] | None \<Rightarrow> [])
      in (Answered, to_debugger c (se_jreq e response) st))"

definition view_breakpoint :: "('c, 's) serve_env \<Rightarrow> nat \<Rightarrow> (string, string) gomap \<Rightarrow>
    ('c, 's) client_state \<Rightarrow> serve \<times> ('c, 's) client_state" where
  "view_breakpoint e c msg st =
     (Answered, to_debugger c
       (case map_of msg ''breakpointId'' of
          Some bkid \<Rightarrow>
            se_jbk e (case map_of (cs_breakpoints st) bkid of Some bk \<Rightarrow> [(''breakpoint'', bk)] | None \<Rightarrow> [])
        | None \<Rightarrow> se_jbks e [(''breakpoints'', map snd (se_rng_bks e (cs_breakpoints st)))]) st)"

text \<open>The conditions on a paused actor; a method is compared with the path after its first character.\<close>

definition asks :: "(string, string) gomap \<Rightarrow> string \<Rightarrow> string \<Rightarrow> bool" where
  "asks msg key v = (case map_of msg key of Some val \<Rightarrow> v = val | None \<Rightarrow> True)"

definition asks_method :: "('c, 's) serve_env \<Rightarrow> (string, string) gomap \<Rightarrow> pauseInfo_t \<Rightarrow> bool result" where
  "asks_method e msg info =
     (case map_of msg ''method'' of
        None \<Rightarrow> Ok True
      | Some val \<Rightarrow>
          (case se_unstrs e (pi_RequestValue info) of
             (_, Some _) \<Rightarrow> Ok False
           | (reqInfo, None) \<Rightarrow>
               if mget [] reqInfo ''path'' = [] then Panicked
               else Ok (tl (mget [] reqInfo ''path'') = val)))"

definition asks_type :: "('c, 's) serve_env \<Rightarrow> (string, string) gomap \<Rightarrow> pauseInfo_t \<Rightarrow> bool" where
  "asks_type e msg info =
     (case map_of msg ''requestType'' of
        None \<Rightarrow> True
      | Some val \<Rightarrow>
          (case se_unstrs e (pi_RequestValue info) of
             (_, Some _) \<Rightarrow> False
           | (reqInfo, None) \<Rightarrow> mget [] reqInfo ''command'' = val))"

definition shows_actor :: "('c, 's) serve_env \<Rightarrow> (string, string) gomap \<Rightarrow> pauseInfo_t \<Rightarrow> bool result" where
  "shows_actor e msg info =
     (if \<not> (asks msg ''actorId'' (pi_ActorId info) \<and> asks msg ''actorType'' (pi_ActorType info) \<and>
            asks msg ''requestId'' (pi_RequestId info) \<and> asks msg ''isResponse'' (pi_IsResponse info) \<and>
            asks msg ''breakpointId'' (pi_BreakpointId info) \<and> asks msg ''nodeId'' (pi_NodeId info))
      then Ok False
      else case asks_method e msg info of
             Ok True \<Rightarrow> Ok (asks_type e msg info)
           | r \<Rightarrow> r)"

fun shown_actors :: "('c, 's) serve_env \<Rightarrow> (string, string) gomap \<Rightarrow> pauseInfo_t list \<Rightarrow>
    pauseInfo_t list result" where
  "shown_actors e msg [] = Ok []"
| "shown_actors e msg (info # infos) =
     (case shows_actor e msg info of
        Ok b \<Rightarrow>
          (case shown_actors e msg infos of
             Ok pausedList \<Rightarrow> Ok (if b then info # pausedList else pausedList)
           | r \<Rightarrow> r)
      | Error er \<Rightarrow> Error er
      | Panicked \<Rightarrow> Panicked)"

definition view_paused :: "('c, 's) serve_env \<Rightarrow> nat \<Rightarrow> (string, string) gomap \<Rightarrow>
    ('c, 's) client_state \<Rightarrow> serve \<times> ('c, 's) client_state" where
  "view_paused e c msg st =
     (case shown_actors e msg (map snd (ce_rng_paused e (cs_pausedActors st))) of
        Ok pausedList \<Rightarrow> (Answered, to_debugger c (se_jpaused e [(''actors'', pausedList)]) st)
      | _ \<Rightarrow> (Panics, st))"

text \<open>A command up to the point where it waits for the busy actors, and from there.\<close>

definition serveDebugger :: "('c, 's) serve_env \<Rightarrow> string \<Rightarrow> nat \<Rightarrow> string \<Rightarrow> ('c, 's) client_state \<Rightarrow>
    serve \<times> ('c, 's) client_state" where
  "serveDebugger e uuid c msgBytes st =
     (let msg = ce_strs e msgBytes
      in case (map_of msg ''commandId'', map_of msg ''command'') of
           (Some cmdId, Some cmd) \<Rightarrow>
             (let st = st\<lparr>cs_idToConn := mput cmdId c (cs_idToConn st)\<rparr>
              in if cmd = ''vkr'' then
                   (case processReadKafka (se_reader e) (se_renv e) (cs_kafka st) msg of
                      None \<Rightarrow> (Stuck, st)
                    | Some Panicked \<Rightarrow> (Panics, st)
                    | Some (Error _) \<Rightarrow> (Answered, to_debugger c (se_jvkr e None) st)
                    | Some (Ok reqMap) \<Rightarrow> (Answered, to_debugger c (se_jvkr e (Some reqMap)) st))
                 else if cmd \<in> set [''unpause'', ''setBreakpoint'', ''unsetBreakpoint'', ''editResponse'',
                                   ''kar invoke'', ''kar get'', ''kar rest'']
                 then (Answered, st\<lparr>cs_toSidecar := cs_toSidecar st @ [msgBytes]\<rparr>)
                 else if cmd = ''viewDeadlocks'' \<or> cmd = ''viewRequest'' \<or>
                   (cmd = ''viewPausedActor'' \<and> mget [] msg ''ind'' = ''true'')
                 then (Waits uuid, ask_busy e uuid st)
                 else if cmd = ''viewBreakpoint'' then view_breakpoint e c msg st
                 else if cmd = ''viewPausedActor'' then view_paused e c msg st
                 else (Answered, st))
         | _ \<Rightarrow> (Hung_up, st))"

definition resumeDebugger :: "('c, 's) serve_env \<Rightarrow> nat \<Rightarrow> string \<Rightarrow> ('c, 's) client_state \<Rightarrow>
    serve \<times> ('c, 's) client_state" where
  "resumeDebugger e c msgBytes st =
     (let msg = ce_strs e msgBytes; cmd = mget [] msg ''command''
      in if cmd = ''viewDeadlocks'' then view_deadlocks e c st
         else if cmd = ''viewRequest'' then view_request e c msg st
         else view_paused e c msg st)"

text \<open>The jump back to the read of the next command.\<close>

definition serves_again :: "('c, 's) serve_env \<Rightarrow> string \<Rightarrow> bool" where
  "serves_again e msgBytes \<longleftrightarrow> map_of (ce_strs e msgBytes) ''keepAlive'' \<noteq> None"

section \<open>Which actors are paused\<close>

text \<open>The breakpoint that pauses an actor directly.\<close>

definition paused_by :: "paused \<Rightarrow> actor_t \<Rightarrow> string option" where
  "paused_by p a =
     (case map_of p a of
        Some i \<Rightarrow> if pi_PauseDepth i = 0 then Some (pi_BreakpointId i) else None
      | None \<Rightarrow> None)"

definition req_actor :: "busyInfo_t \<Rightarrow> string \<Rightarrow> actor_t" where
  "req_actor info r =
     actor_of (bs_Actor (case map_of (bi_ActorSent info) r of
                           Some i \<Rightarrow> i
                         | None \<Rightarrow> mget no_sent (bi_ActorHandling info) r))"

text \<open>The requests above a request in its chain of calls, and that the chain is no longer than \<open>n\<close>.\<close>

fun parents :: "nat \<Rightarrow> busyInfo_t \<Rightarrow> string \<Rightarrow> string list" where
  "parents 0 info r = []"
| "parents (Suc n) info r =
     (if r = [] then []
      else r # (case map_of (bi_ActorSent info) r of
                  Some i \<Rightarrow> parents n info (bs_ParentId i)
                | None \<Rightarrow> []))"

fun ends_within :: "nat \<Rightarrow> busyInfo_t \<Rightarrow> string \<Rightarrow> bool" where
  "ends_within 0 info r \<longleftrightarrow> r = []"
| "ends_within (Suc n) info r \<longleftrightarrow> r = [] \<or>
     (case map_of (bi_ActorSent info) r of Some i \<Rightarrow> ends_within n info (bs_ParentId i) | None \<Rightarrow> True)"

lemma pause_parents_Nil [simp]: "pause_parents n info e flow [] chld depth p = Some p"
  by (simp add: pause_parents.simps)

definition pause_indirect :: "busyInfo_t \<Rightarrow> pauseInfo_t option \<Rightarrow> string \<Rightarrow> string \<Rightarrow> string \<Rightarrow> int \<Rightarrow>
    paused \<Rightarrow> paused" where
  "pause_indirect info endInfo flow curReq childReq depth p =
     (case (endInfo, map_of p (req_actor info curReq)) of
        (Some e, None) \<Rightarrow>
          let chld = mget no_sent (bi_ActorSent info) childReq
          in mput (req_actor info curReq)
               (e\<lparr>pi_IsPaused := True, pi_PauseDepth := depth,
                  pi_ActorId := at_actorId (req_actor info curReq),
                  pi_ActorType := at_actorType (req_actor info curReq),
                  pi_RequestId := childReq, pi_FlowId := flow,
                  pi_RequestValue := bs_RequestValue chld,
                  pi_ChildActorId := aj_ActorId (bs_Actor chld),
                  pi_ChildActorType := aj_ActorType (bs_Actor chld),
                  pi_CanStep := True, pi_IsResponse := ''request''\<rparr>) p
      | _ \<Rightarrow> p)"

lemma pause_parents_Suc:
  assumes "r \<noteq> []"
  shows "pause_parents (Suc n) info e flow r chld depth p =
    pause_parents n info e flow
      (case map_of (bi_ActorSent info) r of Some i \<Rightarrow> bs_ParentId i | None \<Rightarrow> []) r (depth + 1)
      (pause_indirect info e flow r chld depth p)"
  using assms
  by (cases "map_of (bi_ActorSent info) r"; cases e)
    (subst pause_parents.simps; simp add: pause_indirect_def req_actor_def Let_def cong: option.case_cong)+

lemma pause_indirect_spec:
  assumes "1 \<le> depth"
  shows "dom (map_of (pause_indirect info e flow r chld depth p)) =
      dom (map_of p) \<union> (if e = None then {} else {req_actor info r})"
    and "paused_by (pause_indirect info e flow r chld depth p) = paused_by p"
  using assms
  by (auto simp: pause_indirect_def paused_by_def fun_eq_iff Let_def split: option.splits)

lemma pause_parents_spec:
  "ends_within n info r \<Longrightarrow> 1 \<le> depth \<Longrightarrow>
   \<exists>p'. pause_parents n info e flow r chld depth p = Some p' \<and>
     dom (map_of p') = dom (map_of p) \<union> (if e = None then {} else req_actor info ` set (parents n info r)) \<and>
     paused_by p' = paused_by p"
proof (induction n arbitrary: r chld depth p)
  case (Suc n)
  show ?case
  proof (cases "r = []")
    case False
    let ?p = "pause_indirect info e flow r chld depth p"
    let ?r = "case map_of (bi_ActorSent info) r of Some i \<Rightarrow> bs_ParentId i | None \<Rightarrow> []"
    have "ends_within n info ?r"
      using Suc.prems(1) False by (cases n) (auto split: option.splits)
    from Suc.IH [OF this, of "depth + 1" r ?p] Suc.prems(2) obtain p' where
      "pause_parents n info e flow ?r r (depth + 1) ?p = Some p'"
      "dom (map_of p') = dom (map_of ?p) \<union> (if e = None then {} else req_actor info ` set (parents n info ?r))"
      "paused_by p' = paused_by ?p"
      by auto
    moreover have "parents n info [] = []"
      by (cases n) simp_all
    ultimately show ?thesis
      using False pause_indirect_spec [OF Suc.prems(2), of info e flow r chld p]
      by (auto simp: pause_parents_Suc split: option.splits)
  qed simp
qed auto

definition callers_of :: "nat \<Rightarrow> busyInfo_t \<Rightarrow> paused \<Rightarrow> string \<times> busySent_t \<Rightarrow> actor_t set" where
  "callers_of n info p = (\<lambda>(_, i).
     if paused_by p (actor_of (bs_Actor i)) = None then {}
     else req_actor info ` set (parents n info (bs_ParentId i)))"

lemma pause_callers_spec:
  assumes "mget False v (fst x) = False" and "ends_within n info (bs_ParentId (snd x))"
  shows "\<exists>p'. pause_callers n info x (v, p) = Some (mput (fst x) True v, p') \<and>
    dom (map_of p') = dom (map_of p) \<union> callers_of n info p x \<and> paused_by p' = paused_by p"
proof -
  obtain q i where x: "x = (q, i)"
    by (cases x)
  let ?a = "actor_of (bs_Actor i)"
  define e where "e = (case map_of p ?a of
    Some tmp \<Rightarrow> if pi_PauseDepth tmp = 0 then Some tmp else None | None \<Rightarrow> None)"
  define p1 where "p1 = (case e of
      Some tmp \<Rightarrow> mput ?a (tmp\<lparr>pi_IsPaused := True, pi_PauseDepth := 0,
        pi_EndActorId := at_actorId ?a, pi_EndActorType := at_actorType ?a,
        pi_FlowId := bs_FlowId i, pi_CanStep := bs_ParentId i \<noteq> []\<rparr>) p
    | None \<Rightarrow> p)"
  have r: "pause_callers n info x (v, p) = map_option (Pair (mput q True v))
      (pause_parents n info e (bs_FlowId i) (bs_ParentId i) q 1 p1)"
    using assms(1) by (simp add: pause_callers_def x e_def p1_def Let_def)
  have p1: "dom (map_of p1) = dom (map_of p) \<and> paused_by p1 = paused_by p"
    by (auto simp: p1_def e_def paused_by_def fun_eq_iff split: option.splits)
  have "e = None \<longleftrightarrow> paused_by p ?a = None"
    by (auto simp: e_def paused_by_def split: option.splits)
  then show ?thesis
    using pause_parents_spec [of n info "bs_ParentId i" 1 e "bs_FlowId i" q p1] assms(2) p1 r
    by (auto simp: callers_of_def x)
qed

lemma pause_requests_spec:
  "distinct (map fst xs) \<Longrightarrow> \<forall>x \<in> set xs. mget False v (fst x) = False \<and> ends_within n info (bs_ParentId (snd x)) \<Longrightarrow>
   \<exists>p'. pause_requests n info xs (v, p) = Some p' \<and>
     dom (map_of p') = dom (map_of p) \<union> (\<Union>x \<in> set xs. callers_of n info p x) \<and> paused_by p' = paused_by p"
proof (induction xs arbitrary: v p)
  case (Cons x xs)
  from Cons.prems(2) pause_callers_spec [of v x n info p] obtain p1 where
    1: "pause_callers n info x (v, p) = Some (mput (fst x) True v, p1)"
      "dom (map_of p1) = dom (map_of p) \<union> callers_of n info p x" "paused_by p1 = paused_by p"
    by auto
  have "\<forall>y \<in> set xs. mget False (mput (fst x) True v) (fst y) = False \<and> ends_within n info (bs_ParentId (snd y))"
    using Cons.prems by (auto simp: image_iff)
  from Cons.IH [OF _ this, of p1] Cons.prems(1) obtain p2 where
    2: "pause_requests n info xs (mput (fst x) True v, p1) = Some p2"
      "dom (map_of p2) = dom (map_of p1) \<union> (\<Union>x \<in> set xs. callers_of n info p1 x)" "paused_by p2 = paused_by p1"
    by auto
  have "callers_of n info p1 = callers_of n info p"
    by (simp add: callers_of_def 1(3))
  then show ?case
    using 1 2 by auto
qed simp

text \<open>C31 When the chains of calls in the table of busy actors end, \<^verbatim>\<open>listBusyActors\<close> ends, and the
  actors recorded as paused are afterwards those recorded before and those above a request to
  a directly paused actor in its chain of calls, in whatever order the table is ranged over.
  The directly paused actors and their breakpoints stay the same.\<close>

theorem indirect_pauses:
  assumes "range_order rng" and "wf_map (bi_ActorSent info)"
    and "\<forall>(q, i) \<in> set (bi_ActorSent info). ends_within n info (bs_ParentId i)"
  shows "\<exists>p'. on_listBusyActors n rng info p = Some p' \<and>
    dom (map_of p') = dom (map_of p) \<union>
      {req_actor info r | q i r. (q, i) \<in> set (bi_ActorSent info) \<and>
         paused_by p (actor_of (bs_Actor i)) \<noteq> None \<and> r \<in> set (parents n info (bs_ParentId i))} \<and>
    paused_by p' = paused_by p"
proof -
  have "distinct (map fst (rng (bi_ActorSent info)))"
    using assms(1,2) by (metis range_order_wf wf_map_def)
  moreover have set: "set (rng (bi_ActorSent info)) = set (bi_ActorSent info)"
    using assms(1) by (rule range_order_set)
  moreover have "\<forall>x \<in> set (rng (bi_ActorSent info)). mget False [] (fst x) = False \<and>
      ends_within n info (bs_ParentId (snd x))"
    unfolding set using assms(3) by (simp add: case_prod_beta)
  ultimately obtain p' where "on_listBusyActors n rng info p = Some p'"
    "dom (map_of p') = dom (map_of p) \<union> (\<Union>x \<in> set (bi_ActorSent info). callers_of n info p x)"
    "paused_by p' = paused_by p"
    using pause_requests_spec unfolding on_listBusyActors_def by metis
  moreover have "(\<Union>x \<in> set (bi_ActorSent info). callers_of n info p x) =
      {req_actor info r | q i r. (q, i) \<in> set (bi_ActorSent info) \<and>
         paused_by p (actor_of (bs_Actor i)) \<noteq> None \<and> r \<in> set (parents n info (bs_ParentId i))}"
    by (auto simp: callers_of_def split: if_splits) blast+
  ultimately show ?thesis
    by auto
qed

definition chain_example :: busyInfo_t where
  "chain_example =
     (let actor = \<lambda>i. \<lparr>aj_ActorType = ''Site'', aj_ActorId = i\<rparr>;
          sent = \<lambda>i p. \<lparr>bs_Actor = actor i, bs_ParentId = p, bs_RequestValue = [],
                  bs_FlowId = ''f'', bs_IsHandling = False, bs_isVisited = False\<rparr>
      in \<lparr>bi_ActorHandling = [(''p'', sent ''1'' [])],
          bi_ActorSent = [(''q'', sent ''2'' ''p''), (''r'', sent ''3'' ''q'')]\<rparr>)"

definition pause_example :: pauseInfo_t where
  "pause_example = \<lparr>pi_ActorType = ''Site'', pi_ActorId = ''3'', pi_RequestId = ''r'', pi_FlowId = ''f'',
     pi_RequestValue = [], pi_ResponseValue = [], pi_IsResponse = ''request'', pi_BreakpointId = ''b'',
     pi_NodeId = ''n'', pi_IsPaused = False, pi_PauseDepth = 0, pi_EndActorId = [], pi_EndActorType = [],
     pi_ChildActorId = [], pi_ChildActorType = [], pi_CanStep = False\<rparr>"

definition site :: "string \<Rightarrow> actor_t" where
  "site i = \<lparr>at_actorType = ''Site'', at_actorId = i\<rparr>"

theorem indirect_pauses_witness:
  "\<exists>p'. on_listBusyActors 2 rev chain_example [(site ''3'', pause_example)] = Some p' \<and>
     {site ''1'', site ''2''} \<subseteq> dom (map_of p') \<and> paused_by p' (site ''3'') = Some ''b''"
proof -
  have "\<forall>(q, i) \<in> set (bi_ActorSent chain_example). ends_within 2 chain_example (bs_ParentId i)"
    by (simp add: chain_example_def Let_def numeral_2_eq_2)
  moreover have "wf_map (bi_ActorSent chain_example)"
    by (simp add: chain_example_def wf_map_def Let_def)
  moreover have "range_order (rev :: sent_range)"
    by (simp add: range_order_def)
  ultimately obtain p' where
    p': "on_listBusyActors 2 rev chain_example [(site ''3'', pause_example)] = Some p'"
    and d: "dom (map_of p') = dom (map_of [(site ''3'', pause_example)]) \<union>
      {req_actor chain_example r | q i r. (q, i) \<in> set (bi_ActorSent chain_example) \<and>
         paused_by [(site ''3'', pause_example)] (actor_of (bs_Actor i)) \<noteq> None \<and>
         r \<in> set (parents 2 chain_example (bs_ParentId i))}"
    and b: "paused_by p' = paused_by [(site ''3'', pause_example)]"
    using indirect_pauses [of rev chain_example 2 "[(site ''3'', pause_example)]"] by blast
  let ?i = "mget no_sent (bi_ActorSent chain_example) ''r''"
  have i: "(''r'', ?i) \<in> set (bi_ActorSent chain_example)"
    "paused_by [(site ''3'', pause_example)] (actor_of (bs_Actor ?i)) \<noteq> None"
    "set (parents 2 chain_example (bs_ParentId ?i)) = {''q'', ''p''}"
    "req_actor chain_example ''p'' = site ''1''" "req_actor chain_example ''q'' = site ''2''"
    "paused_by [(site ''3'', pause_example)] (site ''3'') = Some ''b''"
    by (simp_all add: chain_example_def Let_def mget_def paused_by_def actor_of_def site_def
        pause_example_def req_actor_def numeral_2_eq_2)
  have "req_actor chain_example r \<in> dom (map_of p')" if "r \<in> {''q'', ''p''}" for r
    unfolding d
    by (rule UnI2, rule CollectI, intro exI conjI, rule refl, rule i(1), rule i(2), use i(3) that in simp)
  from this [of "''p''"] this [of "''q''"] show ?thesis
    using p' b i(4-6) by simp
qed

section \<open>The counts of paused actors\<close>

definition hits :: "paused \<Rightarrow> string \<Rightarrow> actor_t set" where
  "hits p b = {a. paused_by p a = Some b}"

definition counted :: "paused \<times> bkpts \<Rightarrow> bool" where
  "counted = (\<lambda>(p, bks). \<forall>b bk. map_of bks b = Some bk \<longrightarrow> cb_NumPausedActors bk = int (card (hits p b)))"

lemma finite_hits [simp]: "finite (hits p b)"
  by (rule finite_subset [of _ "dom (map_of p)"])
    (auto simp: hits_def paused_by_def finite_dom_map_of split: option.splits)

lemma paused_by_mdel [simp]: "paused_by (mdel a p) = (paused_by p)(a := None)"
  by (rule ext) (simp add: paused_by_def)

lemma paused_by_mput [simp]:
  "paused_by (mput a i p) = (paused_by p)(a := if pi_PauseDepth i = 0 then Some (pi_BreakpointId i) else None)"
  by (rule ext) (simp add: paused_by_def)

lemma hits_mdel: "hits (mdel a p) b = hits p b - {a}"
  unfolding hits_def paused_by_mdel by (auto simp del: paused_by_mdel)

lemma card_hits_mdel: "int (card (hits (mdel a p) b)) = int (card (hits p b)) - (if a \<in> hits p b then 1 else 0)"
proof (cases "a \<in> hits p b")
  case True
  then have "0 < card (hits p b)"
    by (auto simp: card_gt_0_iff)
  then show ?thesis
    using True unfolding hits_mdel card_Diff_singleton [OF True] by simp
next
  case False
  then show ?thesis
    unfolding hits_mdel by simp
qed

lemma hits_mput_new:
  "map_of p a = None \<Longrightarrow> hits (mput a i p) b =
     (if pi_PauseDepth i = 0 \<and> pi_BreakpointId i = b then insert a (hits p b) else hits p b)"
  by (auto simp: hits_def paused_by_def)

lemma release_pause_count:
  "map_of (release_pause (map_of p a) bks) b = Some bk' \<Longrightarrow>
   \<exists>bk. map_of bks b = Some bk \<and> cb_NumPausedActors bk' = cb_NumPausedActors bk - (if a \<in> hits p b then 1 else 0)"
  by (auto simp: release_pause_def hits_def paused_by_def Let_def split: option.splits if_splits)

lemma unpause_actor_counted: "counted pb \<Longrightarrow> counted (unpause_actor a pb)"
  by (cases pb) (auto simp: counted_def unpause_actor_def card_hits_mdel dest!: release_pause_count)

lemma unpause_entry_counted: "counted pb \<Longrightarrow> counted (unpause_entry s x pb)"
  unfolding unpause_entry_def case_prod_beta by (simp add: unpause_actor_counted)

lemma unpause_entries_counted: "counted pb \<Longrightarrow> counted (fold (unpause_entry s) es pb)"
proof (induction es arbitrary: pb)
  case (Cons x es)
  from Cons.IH [OF unpause_entry_counted [OF Cons.prems]] show ?case
    by simp
qed simp

lemma on_unpause_counted: "counted pb \<Longrightarrow> counted (on_unpause rng msg pb)"
  unfolding on_unpause_def Let_def by (simp add: unpause_actor_counted unpause_entries_counted)

lemma handleNotifyPause_counted:
  assumes "counted pb" and "map_of (fst pb) \<lparr>at_actorType = t, at_actorId = i\<rparr> = None"
  shows "counted (handleNotifyPause t i info pb)"
proof -
  have a: "\<lparr>at_actorType = t, at_actorId = i\<rparr> \<notin> hits (fst pb) b" for b
    using assms(2) by (simp add: hits_def paused_by_def)
  show ?thesis
    using assms a
    by (cases pb) (auto simp: counted_def handleNotifyPause_def Let_def hits_mput_new
        split: option.splits if_splits)
qed

lemma on_listPausedActors_eq:
  "map_of (fst pb) \<lparr>at_actorType = pi_ActorType info, at_actorId = pi_ActorId info\<rparr> = None \<Longrightarrow>
   on_listPausedActors info pb = handleNotifyPause (pi_ActorType info) (pi_ActorId info) info pb"
  by (cases pb) (simp add: on_listPausedActors_def handleNotifyPause_def Let_def)

definition info_actor :: "pauseInfo_t \<Rightarrow> actor_t" where
  "info_actor info = \<lparr>at_actorType = pi_ActorType info, at_actorId = pi_ActorId info\<rparr>"

lemma listPausedActors_counted:
  "counted pb \<Longrightarrow> distinct (map info_actor infos) \<Longrightarrow> \<forall>i \<in> set infos. map_of (fst pb) (info_actor i) = None \<Longrightarrow>
   counted (fold on_listPausedActors infos pb)"
proof (induction infos arbitrary: pb)
  case (Cons info infos)
  have new: "map_of (fst pb) \<lparr>at_actorType = pi_ActorType info, at_actorId = pi_ActorId info\<rparr> = None"
    using Cons.prems(3) by (simp add: info_actor_def)
  have "fst (on_listPausedActors info pb) = mput (info_actor info) info (fst pb)"
    by (cases pb) (simp add: on_listPausedActors_def info_actor_def)
  moreover have "counted (on_listPausedActors info pb)"
    unfolding on_listPausedActors_eq [OF new] by (rule handleNotifyPause_counted [OF Cons.prems(1) new])
  moreover have "\<forall>i \<in> set infos. map_of (mput (info_actor info) info (fst pb)) (info_actor i) = None"
    using Cons.prems(2,3) by (simp add: image_iff) metis
  ultimately show ?case
    using Cons.IH [of "on_listPausedActors info pb"] Cons.prems(2) by simp
qed simp

lemma counted_sub:
  assumes "counted (p, bks)"
    and "\<And>b bk'. map_of bks' b = Some bk' \<Longrightarrow>
      (\<exists>bk. map_of bks b = Some bk \<and> cb_NumPausedActors bk' = cb_NumPausedActors bk) \<or>
      (hits p b = {} \<and> cb_NumPausedActors bk' = 0)"
  shows "counted (p, bks')"
  unfolding counted_def prod.case
proof (intro allI impI)
  fix b bk' assume "map_of bks' b = Some bk'"
  from assms(2) [OF this] show "cb_NumPausedActors bk' = int (card (hits p b))"
    using assms(1) by (auto simp: counted_def)
qed

definition counts_right :: "('c, 's) client_state \<Rightarrow> bool" where
  "counts_right st \<longleftrightarrow> counted (cs_pausedActors st, cs_breakpoints st)"

text \<open>
  A message that reports nothing twice: a pause is of an actor that is not recorded yet, a new
  breakpoint has an identifier that pauses no recorded actor, and the lists that the client asks for
  when it starts arrive before any pause is recorded.
\<close>

definition fresh :: "('c, 's) client_env \<Rightarrow> string \<Rightarrow> ('c, 's) client_state \<Rightarrow> bool" where
  "fresh e msgBytes st \<longleftrightarrow>
     (let msg = ce_strs e msgBytes; cmd = mget [] msg ''command''; p = cs_pausedActors st;
          bkId = mget [] msg ''breakpointId'';
          infos = mget [] (ce_pauses e msgBytes) ''actorsList''
      in if cmd = ''notifyPause'' \<or> cmd = ''notifyBreakpoint''
         then map_of p \<lparr>at_actorType = mget [] msg ''actorType'', at_actorId = mget [] msg ''actorId''\<rparr> = None
         else if cmd = ''setBreakpoint''
         then map_of (cs_breakpoints st) bkId \<noteq> None \<or> (\<forall>a \<in> set (keys p). paused_by p a \<noteq> Some bkId)
         else if cmd = ''listPausedActors''
         then distinct (map info_actor infos) \<and> (\<forall>i \<in> set infos. map_of p (info_actor i) = None)
         else if cmd = ''listBreakpoints''
         then p = [] \<and> (\<forall>(b, bk) \<in> set (mget [] (ce_bks e msgBytes) ''breakpoints''). cb_NumPausedActors bk = 0)
         else True)"

fun listen_all :: "('c, 's) client_env \<Rightarrow> string list \<Rightarrow> ('c, 's) client_state \<Rightarrow>
    listen \<times> ('c, 's) client_state" where
  "listen_all e [] st = (Listening, st)"
| "listen_all e (m # ms) st =
     (case listenSidecar e m st of
        (Listening, st') \<Rightarrow> listen_all e ms st'
      | r \<Rightarrow> r)"

fun all_fresh :: "('c, 's) client_env \<Rightarrow> string list \<Rightarrow> ('c, 's) client_state \<Rightarrow> bool" where
  "all_fresh e [] st \<longleftrightarrow> True"
| "all_fresh e (m # ms) st \<longleftrightarrow> fresh e m st \<and>
     (case listenSidecar e m st of (Listening, st') \<Rightarrow> all_fresh e ms st' | _ \<Rightarrow> True)"

lemma with_pauses_counted:
  "counts_right st \<Longrightarrow> (counted (cs_pausedActors st, cs_breakpoints st) \<Longrightarrow>
     counted (f (cs_pausedActors st, cs_breakpoints st))) \<Longrightarrow> counts_right (with_pauses f st)"
  by (cases "f (cs_pausedActors st, cs_breakpoints st)") (simp add: counts_right_def with_pauses_def)

lemma reply_command_counted [simp]: "counts_right (reply_command once msg bytes st) = counts_right st"
  by (simp add: reply_command_def counts_right_def to_debugger_def Let_def split: option.split)

lemma hits_empty: "\<forall>a \<in> set (keys p). paused_by p a \<noteq> Some b \<Longrightarrow> hits p b = {}"
proof -
  assume *: "\<forall>a \<in> set (keys p). paused_by p a \<noteq> Some b"
  have "paused_by p a = None" if "a \<notin> set (keys p)" for a
    using that by (simp add: paused_by_def map_of_eq_None_iff [THEN iffD2])
  then show ?thesis
    using * unfolding hits_def by fastforce
qed

lemma counted_mput:
  assumes "counted (p, bks)" and "map_of bks b = Some bk" and "cb_NumPausedActors bk' = cb_NumPausedActors bk"
  shows "counted (p, mput b bk' bks)"
  by (rule counted_sub [OF assms(1)]) (use assms(2,3) in \<open>auto split: if_splits\<close>)

lemma on_notifyBreakpoint_counted:
  assumes "counts_right st" and "map_of (cs_pausedActors st)
    \<lparr>at_actorType = mget [] (ce_strs e m) ''actorType'', at_actorId = mget [] (ce_strs e m) ''actorId''\<rparr> = None"
  shows "counts_right (snd (on_notifyBreakpoint e m st))"
  using assms
  by (auto simp: on_notifyBreakpoint_def Let_def counts_right_def counted_mput
      intro!: with_pauses_counted [unfolded counts_right_def] handleNotifyPause_counted
      split: option.splits)

lemma on_setBreakpoint_counted:
  assumes "counts_right st" and "map_of (cs_breakpoints st) (mget [] (ce_strs e m) ''breakpointId'') \<noteq> None \<or>
    hits (cs_pausedActors st) (mget [] (ce_strs e m) ''breakpointId'') = {}"
  shows "counts_right (snd (on_setBreakpoint e m st))"
proof -
  let ?b = "mget [] (ce_strs e m) ''breakpointId''"
  have "counted (cs_pausedActors st, mput ?b (new_breakpoint msg nodes) (cs_breakpoints st))"
    if "map_of (cs_breakpoints st) ?b = None" for msg nodes
    by (rule counted_sub [OF assms(1) [unfolded counts_right_def]])
      (use that assms(2) in \<open>auto simp: new_breakpoint_def split: if_splits\<close>)
  moreover have "counted (cs_pausedActors st, cs_breakpoints st)"
    using assms(1) by (simp add: counts_right_def)
  ultimately show ?thesis
    by (auto simp: on_setBreakpoint_def Let_def counts_right_def [symmetric] split: option.splits jval.splits)
      (auto simp: counts_right_def counted_mput)
qed

lemma on_unsetBreakpoint_counted:
  assumes "counts_right st"
  shows "counts_right (snd (on_unsetBreakpoint e m st))"
proof -
  have st: "counted (cs_pausedActors st, cs_breakpoints st)"
    using assms by (simp add: counts_right_def)
  have "counted (cs_pausedActors st, mdel b (cs_breakpoints st))" for b
    by (rule counted_sub [OF st]) (auto split: if_splits)
  then show ?thesis
    using st
    by (auto simp: on_unsetBreakpoint_def Let_def counts_right_def counted_mput split: option.splits jval.splits)
qed

lemma pause_parents_keeps:
  "pause_parents n info e flow r chld depth p = Some p' \<Longrightarrow> 1 \<le> depth \<Longrightarrow> paused_by p' = paused_by p"
proof (induction n arbitrary: r chld depth p)
  case 0
  then show ?case
    by (cases "r = []") (simp_all add: pause_parents.simps [of 0])
next
  case (Suc n)
  show ?case
  proof (cases "r = []")
    case False
    from Suc.IH [OF Suc.prems(1) [unfolded pause_parents_Suc [OF False]]] Suc.prems(2) show ?thesis
      by (simp add: pause_indirect_spec(2))
  qed (use Suc.prems in simp)
qed

lemma pause_callers_keeps:
  assumes "pause_callers n info x (v, p) = Some (v', p')"
  shows "paused_by p' = paused_by p"
proof (cases "mget False v (fst x)")
  case False
  obtain q i where x: "x = (q, i)"
    by (cases x)
  let ?a = "actor_of (bs_Actor i)"
  define e where "e = (case map_of p ?a of
    Some tmp \<Rightarrow> if pi_PauseDepth tmp = 0 then Some tmp else None | None \<Rightarrow> None)"
  define p1 where "p1 = (case e of
      Some tmp \<Rightarrow> mput ?a (tmp\<lparr>pi_IsPaused := True, pi_PauseDepth := 0,
        pi_EndActorId := at_actorId ?a, pi_EndActorType := at_actorType ?a,
        pi_FlowId := bs_FlowId i, pi_CanStep := bs_ParentId i \<noteq> []\<rparr>) p
    | None \<Rightarrow> p)"
  have "pause_parents n info e (bs_FlowId i) (bs_ParentId i) q 1 p1 = Some p'"
    using assms False by (auto simp: pause_callers_def x e_def p1_def Let_def)
  moreover have "paused_by p1 = paused_by p"
    by (auto simp: p1_def e_def paused_by_def fun_eq_iff split: option.splits)
  ultimately show ?thesis
    using pause_parents_keeps by fastforce
qed (use assms in \<open>auto simp: pause_callers_def case_prod_beta\<close>)

lemma pause_requests_keeps: "pause_requests n info xs vp = Some p' \<Longrightarrow> paused_by p' = paused_by (snd vp)"
proof (induction xs arbitrary: vp)
  case (Cons x xs)
  then obtain v p where "pause_callers n info x vp = Some (v, p)" and "pause_requests n info xs (v, p) = Some p'"
    by (auto split: option.splits)
  then show ?case
    using Cons.IH [of "(v, p)"] pause_callers_keeps [of n info x "fst vp" "snd vp" v p] by simp
qed simp

lemma on_busyInfo_counted: "counts_right st \<Longrightarrow> counts_right (snd (on_busyInfo e m st))"
  by (auto simp: on_busyInfo_def on_listBusyActors_def counts_right_def counted_def hits_def Let_def
      split: option.splits dest!: pause_requests_keeps)

lemma on_listBreakpoints_counted:
  assumes "cs_pausedActors st = []"
    and "\<forall>(b, bk) \<in> set (case bks of Some bs \<Rightarrow> bs | None \<Rightarrow> []). cb_NumPausedActors bk = 0"
  shows "counts_right (on_listBreakpoints bks st)"
  using assms
  by (auto simp: on_listBreakpoints_def counts_right_def counted_def hits_def paused_by_def
      split: option.splits dest!: map_of_SomeD)

definition pause_commands :: "string list" where
  "pause_commands = [''notifyPause'', ''notifyBreakpoint'', ''setBreakpoint'', ''listPausedActors'',
     ''listBreakpoints'', ''unpause'', ''unsetBreakpoint'', ''listBusyActors'']"

lemma counts_right_kafka [simp]: "counts_right (st\<lparr>cs_kafka := k\<rparr>) = counts_right st"
  by (simp add: counts_right_def)

lemma listen_other:
  assumes "map_of (ce_strs e m) ''command'' = Some cmd" and "cmd \<notin> set pause_commands"
  shows "counts_right (snd (listenSidecar e m st)) = counts_right st"
  using assms(2) unfolding listenSidecar_def Let_def assms(1) option.case pause_commands_def
  by (simp split: if_split)

lemma listen_counted:
  assumes "counts_right st" and "fresh e m st"
  shows "counts_right (snd (listenSidecar e m st))"
proof (cases "map_of (ce_strs e m) ''command''")
  case None
  then show ?thesis
    using assms(1) by (simp add: listenSidecar_def Let_def)
next
  case (Some cmd)
  then have cmd: "mget [] (ce_strs e m) ''command'' = cmd"
    by (simp add: mget_def)
  note defs = listenSidecar_def fresh_def Let_def Some cmd
  consider "cmd = ''notifyPause''" | "cmd = ''notifyBreakpoint''" | "cmd = ''setBreakpoint''"
    | "cmd = ''listPausedActors''" | "cmd = ''listBreakpoints''" | "cmd = ''unpause''"
    | "cmd = ''unsetBreakpoint''" | "cmd = ''listBusyActors''" | "cmd \<notin> set pause_commands"
    unfolding pause_commands_def list.set insert_iff empty_iff by satx
  then show ?thesis
  proof cases
    case 1
    then show ?thesis
      using assms by (simp add: defs) (intro with_pauses_counted handleNotifyPause_counted; simp)
  next
    case 2
    then show ?thesis
      using assms by (simp add: defs on_notifyBreakpoint_counted)
  next
    case 3
    have "map_of (cs_breakpoints st) (mget [] (ce_strs e m) ''breakpointId'') \<noteq> None \<or>
        hits (cs_pausedActors st) (mget [] (ce_strs e m) ''breakpointId'') = {}"
      using assms(2) 3 hits_empty by (simp add: defs) metis
    from on_setBreakpoint_counted [OF assms(1) this] show ?thesis
      using 3 by (simp add: defs)
  next
    case 4
    then show ?thesis
      using assms by (simp add: defs) (intro with_pauses_counted listPausedActors_counted; simp)
  next
    case 5
    then show ?thesis
      using assms(2) on_listBreakpoints_counted [of st "map_of (ce_bks e m) ''breakpoints''"]
      by (simp add: defs mget_def)
  next
    case 6
    then show ?thesis
      using assms(1) by (simp add: defs with_pauses_counted on_unpause_counted)
  next
    case 7
    then show ?thesis
      using assms(1) by (simp add: defs on_unsetBreakpoint_counted)
  next
    case 8
    then show ?thesis
      using assms(1) by (simp add: defs on_busyInfo_counted)
  next
    case 9
    then show ?thesis
      using assms(1) listen_other [OF Some] by blast
  qed
qed

lemma listen_all_counted: "counts_right st \<Longrightarrow> all_fresh e ms st \<Longrightarrow> counts_right (snd (listen_all e ms st))"
proof (induction ms arbitrary: st)
  case (Cons m ms)
  have "counts_right (snd (listenSidecar e m st))"
    using Cons.prems by (intro listen_counted) simp_all
  then show ?case
    using Cons by (auto split: prod.splits listen.splits)
qed simp


definition strs_example :: "string \<Rightarrow> (string, string) gomap" where
  "strs_example m =
     (if m = ''set'' then [(''command'', ''setBreakpoint''), (''breakpointId'', ''b'')]
      else if m = ''hit'' then [(''command'', ''notifyBreakpoint''), (''breakpointId'', ''b''),
        (''actorType'', ''Site''), (''actorId'', ''3'')]
      else if m = ''busy'' then [(''command'', ''listBusyActors'')]
      else if m = ''hit2'' then [(''command'', ''notifyBreakpoint''), (''breakpointId'', ''b''),
        (''actorType'', ''Site''), (''actorId'', ''2'')]
      else if m = ''up'' then [(''command'', ''unpause''), (''actorType'', ''Site''), (''actorId'', ''2'')]
      else [])"

definition env_example :: "(unit, unit) client_env" where
  "env_example =
     \<lparr>ce_strs = strs_example, ce_gen = (\<lambda>_. [(''nodes'', JArr [JStr ''n''])]), ce_pause = (\<lambda>_. pause_example),
      ce_bks = (\<lambda>_. []), ce_pauses = (\<lambda>_. []), ce_busy = (\<lambda>_. [(''busyInfo'', chain_example)]),
      ce_jstrs = (\<lambda>_. []),
      ce_sarama = \<lparr>sa_ParseKafkaVersion = (\<lambda>v. v), sa_NewClient = (\<lambda>_ _. Inr ()),
        sa_NewConsumerFromClient = (\<lambda>_. Inr ()), sa_text = (\<lambda>_. [])\<rparr>,
      ce_getenv = (\<lambda>_. []), ce_rng_paused = (\<lambda>p. p), ce_rng_sent = (\<lambda>m. m), ce_fuel = 2\<rparr>"

definition start_example :: "(unit, unit) client_state" where
  "start_example =
     \<lparr>cs_kafka = \<lparr>kv_Client = None, kv_Consumer = None, kv_Topic = [], kv_Err = None\<rparr>,
      cs_pausedActors = [], cs_busyInfo = \<lparr>bi_ActorHandling = [], bi_ActorSent = []\<rparr>,
      cs_breakpoints = [], cs_nilBreakpoints = False, cs_respChans = [], cs_stepBreakpoints = [],
      cs_idToConn = [], cs_goroutines = [], cs_answered = [], cs_toDebuggers = [], cs_toSidecar = []\<rparr>"

definition after_example :: "string list \<Rightarrow> (unit, unit) client_state" where
  "after_example ms = snd (listen_all env_example ms start_example)"

lemma counts_right_start: "counts_right start_example"
  by (simp add: counts_right_def counted_def start_example_def)

lemma example_fresh: "all_fresh env_example [''set'', ''hit'', ''busy''] start_example"
  by code_simp

lemma example_count:
  "map_option cb_NumPausedActors (map_of (cs_breakpoints (after_example [''set'', ''hit'', ''busy''])) ''b'') = Some 1"
  by code_simp


text \<open>
  An actor that is recorded as indirectly paused and then hits the breakpoint itself is not
  counted, but its unpausing is: the counter, which is then 0, ignores the actor that is still paused.
\<close>

lemma indirect_hit_not_counted:
  "map_option cb_NumPausedActors
     (map_of (cs_breakpoints (after_example [''set'', ''hit'', ''busy'', ''hit2''])) ''b'') = Some 1"
  "map_option cb_NumPausedActors
     (map_of (cs_breakpoints (after_example [''set'', ''hit'', ''busy'', ''hit2'', ''up''])) ''b'') = Some 0"
  "paused_by (cs_pausedActors (after_example [''set'', ''hit'', ''busy'', ''hit2'', ''up''])) (site ''3'') = Some ''b''"
  by code_simp+

text \<open>
  The entry of an indirectly paused actor is copied from the entry of the paused one before the
  end of the chain is filled in, so that it does not tell the actor it waits for.
\<close>

lemma indirect_end_missing:
  "map_option (\<lambda>i. (pi_PauseDepth i, pi_EndActorType i, pi_EndActorId i))
     (map_of (cs_pausedActors (after_example [''set'', ''hit'', ''busy''])) (site ''2'')) = Some (1, [], [])"
  by code_simp

text \<open>A confirmation without a list of nodes ends the listener with the lock held.\<close>

lemma set_without_nodes:
  assumes "map_of (ce_strs e m) ''command'' = Some ''setBreakpoint''" and "map_of (ce_gen e m) ''nodes'' = None"
  shows "fst (listenSidecar e m st) = Returned_locked"
  using assms by (simp add: listenSidecar_def on_setBreakpoint_def Let_def)

end
