(* ===== verification/Debugger_Commands.thy ===== *)
theory Debugger_Commands
  imports Debugger_Client
begin

text \<open>
  The command line of the debugger client (\<^verbatim>\<open>cmd/kar-debugger/kar-debugger.go\<close>): the parsing of
  arguments (\<^verbatim>\<open>getArgs\<close>, \<^verbatim>\<open>getArgsList\<close>), the commands (\<^verbatim>\<open>processClient\<close>, \<^verbatim>\<open>processClientKar\<close>) and
  the start of the server (\<^verbatim>\<open>main\<close>).

  A command talks to the debugger server over a connection, a parameter with the world as its
  state.  What a command prints is the list of the values it prints; their formatting is left out.
\<close>

section \<open>Arguments\<close>

type_synonym strs = "(string, string) gomap"

text \<open>
  The loop of \<^verbatim>\<open>getArgs\<close>: \<open>getting\<close> is the option whose value comes next.  An option is not
  accepted as the last argument, and its name without the leading dash is the key by default.
\<close>

fun get_args :: "string list \<Rightarrow> strs \<Rightarrow> strs \<Rightarrow> int \<Rightarrow> string list \<Rightarrow> string option \<Rightarrow> int \<Rightarrow> strs \<Rightarrow> strs" where
  "get_args names options bools start [] getting argIdx retval = retval"
| "get_args names options bools start (cur # rest) getting argIdx retval =
     (if cur = [] then get_args names options bools start rest getting argIdx retval
      else case getting of
        Some opt \<Rightarrow> get_args names options bools start rest None argIdx (mput opt cur retval)
      | None \<Rightarrow>
          (case map_of options cur of
             Some dst \<Rightarrow>
               if rest = [] then retval
               else get_args names options bools start rest
                      (Some (if dst = [] then tl cur else dst)) argIdx retval
           | None \<Rightarrow>
               (case map_of bools cur of
                  Some dst \<Rightarrow>
                    get_args names options bools start rest None argIdx
                      (mput (if dst = [] then tl cur else dst) ''true'' retval)
                | None \<Rightarrow>
                    if argIdx - start \<ge> int (length names)
                    then get_args names options bools start rest None argIdx retval
                    else get_args names options bools start rest None (argIdx + 1)
                           (if argIdx \<ge> start then mput (names ! nat (argIdx - start)) cur retval
                            else retval))))"

definition getArgs :: "string \<Rightarrow> string list \<Rightarrow> string list \<Rightarrow> strs \<Rightarrow> strs \<Rightarrow> int \<Rightarrow> strs" where
  "getArgs uuid args names options boolOptions startIndex =
     get_args names options boolOptions startIndex args None 0 [(''commandId'', uuid)]"

text \<open>\<^verbatim>\<open>getArgsList\<close> does not reset \<^verbatim>\<open>isGettingOption\<close>, so that it skips all that follows an option.\<close>

fun get_list :: "strs \<Rightarrow> strs \<Rightarrow> int \<Rightarrow> string list \<Rightarrow> bool \<Rightarrow> int \<Rightarrow> string list \<Rightarrow> string list" where
  "get_list options bools start [] getting argIdx retval = retval"
| "get_list options bools start (cur # rest) getting argIdx retval =
     (if cur = [] \<or> getting then get_list options bools start rest getting argIdx retval
      else if map_of options cur \<noteq> None then
        if rest = [] then retval else get_list options bools start rest True argIdx retval
      else if map_of bools cur \<noteq> None then get_list options bools start rest getting argIdx retval
      else get_list options bools start rest getting (argIdx + 1)
             (if argIdx \<ge> start then retval @ [cur] else retval))"

definition getArgsList :: "string list \<Rightarrow> strs \<Rightarrow> strs \<Rightarrow> int \<Rightarrow> string list" where
  "getArgsList args options boolOptions startIndex =
     get_list options boolOptions startIndex args False 0 []"

section \<open>Talking to the debugger server\<close>

datatype printed =
    Usage string
  | Say string
  | Send_error err
  | Recv_error err
  | Decode_error err
  | Dial_error err
  | Values "jval list"
  | Deadlock "edge_t list"
  | Breakpoints "clientBreakpoint_t list"
  | Request busySent_t string
  | Kafka_requests "kafkaReq_t list"
  | Kafka_counts "(string \<times> jval) list"
  | Paused_actors "pauseInfo_t list"
  | Step_done "(string, string) gomap" "(string, jval) gomap"

text \<open>What \<^verbatim>\<open>json.Unmarshal\<close> stores and its error, at the types of the answers.\<close>

record cmd_answers =
  an_strs :: "string \<Rightarrow> strs \<times> err option"
  an_gen :: "string \<Rightarrow> (string, jval) gomap \<times> err option"
  an_edges :: "string \<Rightarrow> edge_t list"
  an_bk :: "string \<Rightarrow> (string, clientBreakpoint_t) gomap \<times> err option"
  an_bks :: "string \<Rightarrow> (string, clientBreakpoint_t list) gomap \<times> err option"
  an_reqs :: "string \<Rightarrow> (string, kafkaReq_t) gomap \<times> err option"
  an_sent :: "string \<Rightarrow> (string, busySent_t) gomap \<times> err option"
  an_actors :: "string \<Rightarrow> (string, pauseInfo_t list) gomap \<times> err option"

record 'w cmd_env =
  ke_send :: "string \<Rightarrow> 'w \<Rightarrow> err option \<times> 'w"
  ke_recv :: "'w \<Rightarrow> (err + string) \<times> 'w"
  ke_Dial :: "string \<Rightarrow> err option"
  ke_getenv :: "string \<Rightarrow> string"
  ke_marshal :: "jval \<Rightarrow> string"
  ke_an :: cmd_answers
  ke_uuid :: string

type_synonym 'w cmd = "'w \<Rightarrow> printed list \<times> 'w"

definition jstrs :: "strs \<Rightarrow> jval" where
  "jstrs m = JObj (map (\<lambda>(k, v). (k, JStr v)) m)"

definition say :: "printed list \<Rightarrow> 'w cmd" where
  "say ps w = (ps, w)"

definition saying :: "printed list \<Rightarrow> 'w cmd \<Rightarrow> 'w cmd" where
  "saying ps k w = (case k w of (qs, w) \<Rightarrow> (ps @ qs, w))"

definition sending :: "'w cmd_env \<Rightarrow> jval \<Rightarrow> 'w cmd \<Rightarrow> 'w cmd" where
  "sending e msg k w =
     (case ke_send e (ke_marshal e msg) w of
        (Some er, w) \<Rightarrow> ([Send_error er], w)
      | (None, w) \<Rightarrow> k w)"

definition receiving :: "'w cmd_env \<Rightarrow> (string \<Rightarrow> 'w cmd) \<Rightarrow> 'w cmd" where
  "receiving e k w =
     (case ke_recv e w of
        (Inl er, w) \<Rightarrow> ([Recv_error er], w)
      | (Inr bytes, w) \<Rightarrow> k bytes w)"

text \<open>Some commands go on with no bytes after an error.\<close>

definition receiving_or_nil :: "'w cmd_env \<Rightarrow> (string \<Rightarrow> 'w cmd) \<Rightarrow> 'w cmd" where
  "receiving_or_nil e k w =
     (case ke_recv e w of
        (Inl er, w) \<Rightarrow> saying [Recv_error er] (k []) w
      | (Inr bytes, w) \<Rightarrow> k bytes w)"

section \<open>Commands on pauses and breakpoints\<close>

definition cmd_unpause :: "'w cmd_env \<Rightarrow> string list \<Rightarrow> 'w cmd" where
  "cmd_unpause e args =
     (let msg = getArgs (ke_uuid e) args [''actorType'', ''actorId''] [(''-node'', [])] [] 2;
          t = mget [] msg ''actorType''; i = mget [] msg ''actorId''
      in if (t = [] \<and> i \<noteq> []) \<or> (t \<noteq> [] \<and> i = []) then
           say [Say ''If one of actorType or actorId is given, then both must be given.'',
                Say ''Usage details:'', Usage ''unpause'']
         else sending e (jstrs (mput ''command'' ''unpause'' msg)) (say []))"

definition cmd_b :: "'w cmd_env \<Rightarrow> string list \<Rightarrow> 'w cmd" where
  "cmd_b e args =
     (let msg = getArgs (ke_uuid e) args [''actorType'', ''path'']
                  [(''-node'', []), (''-location'', ''isRequest''), (''-actorId'', []),
                   (''-type'', ''breakpointType''), (''-conds'', []), (''-respConds'', [])] [] 2
      in if map_of msg ''path'' = None \<or> map_of msg ''actorType'' = None then
           say [Say ''Missing a required argument.'', Say ''Usage details:'', Usage ''b'']
         else
           (let msg = mput ''path'' (''/'' @ mget [] msg ''path'') msg;
                msg = mput ''command'' ''setBreakpoint'' msg
            in sending e (jstrs msg) (receiving e (\<lambda>responseBytes.
                 case an_strs (ke_an e) responseBytes of
                   (_, Some er) \<Rightarrow> say [Decode_error er]
                 | (response, None) \<Rightarrow>
                     say [Say (''Breakpoint '' @ mget [] response ''breakpointId'' @ '' set.'')]))))"

definition cmd_d :: "'w cmd_env \<Rightarrow> string list \<Rightarrow> 'w cmd" where
  "cmd_d e args =
     (let msg = getArgs (ke_uuid e) args [''breakpointId''] [] [] 2
      in if mget [] msg ''breakpointId'' = [] then
           say [Say ''Missing a required argument.'', Say ''Usage details:'', Usage ''d'']
         else sending e (jstrs (mput ''command'' ''unsetBreakpoint'' msg)) (say []))"

text \<open>The edges of a deadlock are printed from the second on, each as an actor waiting on another.\<close>

definition cmd_vd :: "'w cmd_env \<Rightarrow> 'w cmd" where
  "cmd_vd e =
     (let msg = getArgs (ke_uuid e) [] [] [] [] 0
      in sending e (jstrs (mput ''command'' ''viewDeadlocks'' msg)) (receiving e (\<lambda>responseBytes.
           case an_edges (ke_an e) responseBytes of
             [] \<Rightarrow> say [Say ''No deadlocks found.'']
           | _ # edges \<Rightarrow>
               say [Say ''Deadlock detected!'', Say ''Cycle information:'', Deadlock edges])))"

definition no_data :: string where
  "no_data = ''Error getting breakpoint data: no breakpoint data provided''"

definition cmd_vb :: "'w cmd_env \<Rightarrow> string list \<Rightarrow> 'w cmd" where
  "cmd_vb e args =
     (let msg = getArgs (ke_uuid e) args [''breakpointId''] [(''-format'', [])] [] 2;
          msg = mput ''command'' ''viewBreakpoint'' msg
      in sending e (jstrs msg) (receiving e (\<lambda>responseBytes.
           if map_of msg ''breakpointId'' \<noteq> None then
             (case an_bk (ke_an e) responseBytes of
                (_, Some er) \<Rightarrow> say [Decode_error er]
              | (response, None) \<Rightarrow>
                  (case map_of response ''breakpoint'' of
                     None \<Rightarrow> say [Say no_data]
                   | Some bk \<Rightarrow> say [Breakpoints [bk]]))
           else
             (case an_bks (ke_an e) responseBytes of
                (_, Some er) \<Rightarrow> say [Decode_error er]
              | (response, None) \<Rightarrow>
                  (case map_of response ''breakpoints'' of
                     None \<Rightarrow> say [Say no_data]
                   | Some bks \<Rightarrow>
                       if mget [] msg ''format'' \<noteq> ''json'' \<and> bks = []
                       then say [Say ''No breakpoints are currently set.'']
                       else say [Breakpoints bks])))))"

section \<open>Commands on requests and actors\<close>

definition cmd_vkr :: "'w cmd_env \<Rightarrow> string list \<Rightarrow> 'w cmd" where
  "cmd_vkr e args =
     (let msg = getArgs (ke_uuid e) args [''requestId''] [(''-select'', []), (''-conds'', [])]
                  [(''-sidecar'', [])] 2;
          msg = mput ''command'' ''vkr'' msg
      in sending e (jstrs msg) (receiving_or_nil e (\<lambda>responseBytes.
           if mget [] msg ''select'' = [] then
             (case an_reqs (ke_an e) responseBytes of
                (response, None) \<Rightarrow> say [Kafka_requests (map snd response)]
              | (_, Some _) \<Rightarrow> say [])
           else
             (case an_gen (ke_an e) responseBytes of
                (response, None) \<Rightarrow> say [Kafka_counts response]
              | (_, Some _) \<Rightarrow> say []))))"

definition cmd_vrd :: "'w cmd_env \<Rightarrow> string list \<Rightarrow> 'w cmd" where
  "cmd_vrd e args =
     (let msg = getArgs (ke_uuid e) args [''requestId''] [(''-format'', []), (''-ind'', [])] [] 2;
          msg = mput ''command'' ''viewRequest'' msg
      in sending e (jstrs msg) (receiving_or_nil e (\<lambda>responseBytes.
           case an_sent (ke_an e) responseBytes of
             (_, Some er) \<Rightarrow> say [Decode_error er]
           | (response, None) \<Rightarrow>
               (case map_of response ''request'' of
                  None \<Rightarrow> say [Say ''Request not found.'']
                | Some req \<Rightarrow> say [Request req (mget [] msg ''requestId'')]))))"

definition cmd_vpa :: "'w cmd_env \<Rightarrow> string list \<Rightarrow> 'w cmd" where
  "cmd_vpa e args =
     (let msg = getArgs (ke_uuid e) args [''actorType'', ''actorId'']
                  (map (\<lambda>opt. (opt, [])) [''-format'', ''-ind'', ''-actorType'', ''-actorId'', ''-requestId'',
                     ''-method'', ''-requestType'', ''-isResponse'', ''-breakpointId'', ''-nodeId'']) [] 2;
          msg = mput ''command'' ''viewPausedActor'' msg
      in sending e (jstrs msg) (receiving_or_nil e (\<lambda>responseBytes.
           case an_actors (ke_an e) responseBytes of
             (_, Some er) \<Rightarrow> say [Decode_error er]
           | (response, None) \<Rightarrow>
               (case map_of response ''actors'' of
                  None \<Rightarrow> if mget [] msg ''format'' = ''json'' then say [Paused_actors []]
                         else say [Say ''Error: no actor data provided.'']
                | Some actors \<Rightarrow> say [Paused_actors actors]))))"

definition cmd_edit :: "'w cmd_env \<Rightarrow> string list \<Rightarrow> 'w cmd" where
  "cmd_edit e args =
     (let msg = getArgs (ke_uuid e) args [''requestId'', ''edit''] [] [] 2
      in sending e (jstrs (mput ''command'' ''editResponse'' msg)) (say [Say ''Response edited.'']))"

section \<open>kar commands\<close>

definition kar_call :: "'w cmd_env \<Rightarrow> string \<Rightarrow> string list \<Rightarrow> string \<Rightarrow> string list \<Rightarrow> 'w cmd" where
  "kar_call e command args title flds =
     sending e (JObj [(''command'', JStr command), (''args'', JArr (map JStr args)),
                      (''commandId'', JStr (ke_uuid e))]) (receiving e (\<lambda>responseBytes.
       let m = fst (an_gen (ke_an e) responseBytes)
       in say [Say title, Values (map (mget JNull m) flds)]))"

definition kar_get :: "'w cmd_env \<Rightarrow> string list \<Rightarrow> 'w cmd" where
  "kar_get e karArgs =
     (let msg = getArgs (ke_uuid e) karArgs [''subsystem'', ''actorType'', ''actorId''] [] [] 1;
          msg = mput ''command'' ''kar get'' msg
      in sending e (jstrs msg) (receiving e (\<lambda>responseBytes.
           let m = fst (an_gen (ke_an e) responseBytes)
           in if mget JNull m ''command'' = JStr ''error'' then
                say [Values [mget JNull m ''error''], Usage ''kar get'']
              else if mget JNull m ''subsystem'' = JStr ''sidecars'' then
                say [Values [mget JNull m ''sidecars'']]
              else if mget JNull m ''subsystem'' = JStr ''actors'' then
                (case mget JNull m ''state'' of
                   JStr s \<Rightarrow> say [Values [JStr s]]
                 | _ \<Rightarrow> say [Values [mget JNull m ''actors'']])
              else say [])))"

definition processClientKar :: "'w cmd_env \<Rightarrow> string list \<Rightarrow> string list \<Rightarrow> 'w cmd" where
  "processClientKar e args karArgs =
     (if karArgs = [] then say [Usage ''kar'']
      else
        (let argsMap = getArgs (ke_uuid e) args [] [(''-v'', ''verbose'')]
                         [(''-h'', ''help''), (''-help'', [])] 2;
             sub = hd karArgs
         in if mget [] argsMap ''help'' = ''true'' then say [Usage (''kar '' @ sub)]
            else if sub = ''invoke'' then
              if length karArgs < 4 then say [Say ''Error: too few arguments.'', Usage ''kar invoke'']
              else kar_call e ''kar invoke'' (tl karArgs) ''Invocation result:'' [''status'', ''value'']
            else if sub = ''rest'' then
              if length karArgs < 1 + 3 then say [Say ''Error: too few arguments.'', Usage ''kar rest'']
              else kar_call e ''kar rest'' (tl karArgs) ''Service call result:'' [''status'', ''error'', ''value'']
            else if sub = ''get'' then
              if length karArgs < 1 + 1 then say [Say ''Error: too few arguments.'', Usage ''kar get'']
              else kar_get e karArgs
            else say [Usage ''kar'']))"

section \<open>Single steps\<close>

definition step_query :: "'w cmd_env \<Rightarrow> strs \<Rightarrow> jval" where
  "step_query e msg = jstrs
     [(''actorType'', mget [] msg ''actorType''), (''actorId'', mget [] msg ''actorId''),
      (''command'', ''viewPausedActor''), (''commandId'', ke_uuid e), (''keepAlive'', ''true''), (''ind'', ''true'')]"

definition step_breakpoint :: "'w cmd_env \<Rightarrow> strs \<Rightarrow> pauseInfo_t \<Rightarrow> jval" where
  "step_breakpoint e msg pauseInfo = jstrs
     [(''commandId'', ke_uuid e), (''flowId'', pi_FlowId pauseInfo),
      (''actorId'', mget [] msg ''actorId''), (''actorType'', mget [] msg ''actorType''),
      (''command'', ''setBreakpoint''), (''keepAlive'', ''true''), (''deleteOnHit'', ''true''),
      (''breakpointId'', ''single-step of actor '' @ mget [] msg ''actorType'' @ '' '' @ mget [] msg ''actorId'')]"

definition step_unpause :: "'w cmd_env \<Rightarrow> jval" where
  "step_unpause e = jstrs
     [(''command'', ''unpause''), (''commandId'', ke_uuid e), (''keepAlive'', ''true'')]"

text \<open>The part of \<^verbatim>\<open>step\<close> after the actor was found paused.\<close>

definition step_from :: "'w cmd_env \<Rightarrow> client_json \<Rightarrow> strs \<Rightarrow> pauseInfo_t \<Rightarrow> 'w cmd" where
  "step_from e js msg pauseInfo =
     sending e (step_breakpoint e msg pauseInfo) (receiving e (\<lambda>responseBytes.
       case an_strs (ke_an e) responseBytes of
         (_, Some er) \<Rightarrow> say [Decode_error er]
       | (response, None) \<Rightarrow>
           saying [Say (''Single-step breakpoint '' @ mget [] response ''breakpointId'' @ '' set.''),
                   Say ''Unpausing all actors...'']
             (sending e (step_unpause e) (\<lambda>w.
                case ke_recv e w of
                  (Inl _, w) \<Rightarrow> ([], w)
                | (Inr bytes, w) \<Rightarrow>
                    (let m = fst (an_strs (ke_an e) bytes)
                     in ([Say ''Single-step complete.'',
                          Step_done m (fst (unpackRequestValue js (mget [] m ''requestValue'')))], w))))))"

definition cmd_step :: "'w cmd_env \<Rightarrow> client_json \<Rightarrow> string list \<Rightarrow> 'w cmd" where
  "cmd_step e js args =
     (let msg = getArgs (ke_uuid e) args [''actorType'', ''actorId''] [] [] 2
      in if map_of msg ''actorId'' = None \<or> map_of msg ''actorType'' = None then
           say [Say ''Missing a required argument.'', Say ''Usage details:'', Usage ''step'']
         else sending e (step_query e msg) (\<lambda>w.
           case ke_recv e w of (r, w) \<Rightarrow>
             (case an_actors (ke_an e) (case r of Inl _ \<Rightarrow> [] | Inr bytes \<Rightarrow> bytes) of
                (_, Some er) \<Rightarrow> ([Decode_error er], w)
              | (pauseResponse, None) \<Rightarrow>
                  (case mget [] pauseResponse ''actors'' of
                     [] \<Rightarrow> ([Say ''Cannot step: actor is not paused.''], w)
                   | pauseInfo # _ \<Rightarrow>
                       if pi_IsResponse pauseInfo = ''response'' \<and> \<not> pi_CanStep pauseInfo then
                         ([Say ''Cannot step: actor is paused on a response and has no parent.''], w)
                       else step_from e js msg pauseInfo w))))"

section \<open>processClient and main\<close>

definition global_args :: "'w cmd_env \<Rightarrow> string list \<Rightarrow> strs" where
  "global_args e args =
     getArgs (ke_uuid e) args [''cmdName''] [(''-v'', ''verbose'')] [(''-h'', ''help''), (''-help'', [])] 1"

definition debugger_address :: "'w cmd_env \<Rightarrow> string list \<Rightarrow> string" where
  "debugger_address e args =
     (let hostPort = getArgs (ke_uuid e) args [] [(''-host'', []), (''-port'', [])] [] 1;
          orElse = (\<lambda>a b. if a = [] then b else a);
          host = orElse (orElse (mget [] hostPort ''host'') (ke_getenv e ''KAR_DEBUGGER_HOST'')) ''localhost'';
          port = orElse (orElse (mget [] hostPort ''port'') (ke_getenv e ''KAR_DEBUGGER_PORT'')) ''5364''
      in host @ '':'' @ port)"

definition processClient :: "'w cmd_env \<Rightarrow> client_json \<Rightarrow> string list \<Rightarrow> 'w cmd" where
  "processClient e js args =
     (let argsMap = global_args e args; cmdName = mget [] argsMap ''cmdName''
      in if map_of argsMap ''help'' \<noteq> None \<and> cmdName \<noteq> ''kar'' then say [Usage cmdName]
         else case ke_Dial e (debugger_address e args) of
           Some er \<Rightarrow> say [Dial_error er]
         | None \<Rightarrow>
             if cmdName = ''unpause'' then cmd_unpause e args
             else if cmdName = ''b'' then cmd_b e args
             else if cmdName = ''d'' then cmd_d e args
             else if cmdName = ''vd'' then cmd_vd e
             else if cmdName = ''vb'' then cmd_vb e args
             else if cmdName = ''vkr'' then cmd_vkr e args
             else if cmdName = ''vrd'' then cmd_vrd e args
             else if cmdName = ''vpa'' then cmd_vpa e args
             else if cmdName = ''kar'' then
               processClientKar e args
                 (getArgsList args [(''-v'', ''verbose'')] [(''-h'', ''help''), (''-help'', [])] 2)
             else if cmdName = ''step'' then cmd_step e js args
             else if cmdName = ''edit'' then cmd_edit e args
             else if cmdName = ''help'' then
               say [if length args \<ge> 3 then Usage (args ! 2) else Usage []]
             else say [Say ''Unsupported command.'', Usage []])"

text \<open>
  The start of the server: the sidecar it registers with, and what it asks for first.
  \<^const>\<open>None\<close>: the usage is printed.
\<close>

definition register_url :: "'w cmd_env \<Rightarrow> string list \<Rightarrow> string option" where
  "register_url e args =
     (let serverArgs = getArgs (ke_uuid e) args [''karHost'', ''karPort''] [(''-serverPort'', [])] [] 2;
          url = (\<lambda>h p. ''ws://'' @ h @ '':'' @ p @ ''/kar/v1/debug/register'')
      in case (map_of serverArgs ''karHost'', map_of serverArgs ''karPort'') of
           (Some karHost, Some karPort) \<Rightarrow> Some (url karHost karPort)
         | _ \<Rightarrow>
             if ke_getenv e ''KAR_RUNTIME_PORT'' \<noteq> [] then Some (url ''localhost'' (ke_getenv e ''KAR_RUNTIME_PORT''))
             else None)"

definition server_start :: "'w cmd_env \<Rightarrow> string list \<Rightarrow> (string \<times> string list \<times> string) option" where
  "server_start e args =
     (let serverArgs = getArgs (ke_uuid e) args [''karHost'', ''karPort''] [(''-serverPort'', [])] [] 2;
          serverPort = (if mget [] serverArgs ''serverPort'' = [] then ''5364'' else mget [] serverArgs ''serverPort'')
      in map_option (\<lambda>registerUrl.
           (registerUrl, [ke_marshal e (jstrs [(''command'', ''listBreakpoints'')]),
                          ke_marshal e (jstrs [(''command'', ''listPausedActors'')])], '':'' @ serverPort))
         (register_url e args))"

definition client_main :: "'w cmd_env \<Rightarrow> client_json \<Rightarrow> string list \<Rightarrow>
    'w \<Rightarrow> (string \<times> string list \<times> string) option + (printed list \<times> 'w)" where
  "client_main e js args w =
     (if length args = 1 then Inr (say [Usage []] w)
      else if mget [] (global_args e args) ''cmdName'' = ''server'' then Inl (server_start e args)
      else Inr (processClient e js args w))"

section \<open>Arguments are read as they are written\<close>

definition opt_key :: "strs \<Rightarrow> string \<Rightarrow> string" where
  "opt_key options f = (if mget [] options f = [] then tl f else mget [] options f)"

definition render :: "(string \<times> string) list \<Rightarrow> string list \<Rightarrow> string list" where
  "render opts pos = concat (map (\<lambda>(f, v). [f, v]) opts) @ pos"

definition positional :: "strs \<Rightarrow> strs \<Rightarrow> string \<Rightarrow> bool" where
  "positional options bools p \<longleftrightarrow> p \<noteq> [] \<and> map_of options p = None \<and> map_of bools p = None"

abbreviation put_all :: "(string \<times> string) list \<Rightarrow> strs \<Rightarrow> strs" where
  "put_all kvs m \<equiv> fold (\<lambda>(k, v). mput k v) kvs m"

lemma get_args_opts:
  "\<forall>(f, v) \<in> set opts. f \<noteq> [] \<and> v \<noteq> [] \<and> map_of options f \<noteq> None \<Longrightarrow>
   get_args names options bools start (render opts rest) None idx ret =
   get_args names options bools start rest None idx (put_all (map (\<lambda>(f, v). (opt_key options f, v)) opts) ret)"
  by (induction opts arbitrary: ret) (auto simp: render_def opt_key_def mget_def)

lemma get_args_before:
  "\<forall>p \<in> set pre. positional options bools p \<Longrightarrow> idx + int (length pre) \<le> start \<Longrightarrow>
   get_args names options bools start (pre @ rest) None idx ret =
   get_args names options bools start rest None (idx + int (length pre)) ret"
  by (induction pre arbitrary: idx) (auto simp: positional_def algebra_simps)

lemma get_args_pos:
  "\<forall>p \<in> set pos. positional options bools p \<Longrightarrow> i \<le> length names \<Longrightarrow>
   get_args names options bools start pos None (start + int i) ret = put_all (zip (drop i names) pos) ret"
proof (induction pos arbitrary: i ret)
  case (Cons p pos)
  then have p: "p \<noteq> []" "map_of options p = None" "map_of bools p = None"
    by (simp_all add: positional_def)
  show ?case
  proof (cases "i < length names")
    case True
    then have "drop i names = names ! i # drop (Suc i) names"
      by (simp add: Cons_nth_drop_Suc)
    then show ?thesis
      using Cons.IH [of "Suc i" "mput (names ! i) p ret"] Cons.prems True p by (simp add: algebra_simps)
  next
    case False
    then show ?thesis
      using Cons p by simp
  qed
qed simp

text \<open>C35 A command line that has the program and the command, then options with their values, then
  arguments, is read back by \<^verbatim>\<open>getArgs\<close> as the map with the options under their keys and the
  arguments under the names of the command in this order; arguments without a name are dropped.\<close>

theorem getArgs_render:
  assumes "\<forall>p \<in> set pre. positional options bools p"
    and "\<forall>(f, v) \<in> set opts. f \<noteq> [] \<and> v \<noteq> [] \<and> map_of options f \<noteq> None"
    and "\<forall>p \<in> set pos. positional options bools p"
  shows "getArgs uuid (pre @ render opts pos) names options bools (int (length pre)) =
    fold (\<lambda>(k, v). mput k v) (map (\<lambda>(f, v). (opt_key options f, v)) opts @ zip names pos)
      [(''commandId'', uuid)]"
  unfolding getArgs_def
  by (simp add: get_args_before [OF assms(1)] get_args_opts [OF assms(2)]
      get_args_pos [OF assms(3), of 0 names "int (length pre)", simplified])

theorem getArgs_render_witness:
  "getArgs ''u'' [''kar-debugger'', ''b'', ''-location'', ''response'', ''-node'', ''n'', ''Site'', ''ship'']
     [''actorType'', ''path''] [(''-node'', []), (''-location'', ''isRequest'')] [] 2 =
   [(''commandId'', ''u''), (''isRequest'', ''response''), (''node'', ''n''), (''actorType'', ''Site''),
    (''path'', ''ship'')]"
  using getArgs_render [of "[''kar-debugger'', ''b'']" "[(''-node'', []), (''-location'', ''isRequest'')]" "[]"
      "[(''-location'', ''response''), (''-node'', ''n'')]" "[''Site'', ''ship'']" "''u''" "[''actorType'', ''path'']"]
  by (simp add: positional_def render_def opt_key_def mget_def)

text \<open>
  A global option in front of the command shifts the arguments, since the commands do not know
  it; so does the address of the debugger behind the command.
\<close>

definition b_args :: "string list \<Rightarrow> strs" where
  "b_args args = getArgs ''u'' args [''actorType'', ''path'']
     [(''-node'', []), (''-location'', ''isRequest''), (''-actorId'', []),
      (''-type'', ''breakpointType''), (''-conds'', []), (''-respConds'', [])] [] 2"

lemma global_option_shifts:
  "map_of (b_args [''kar-debugger'', ''-v'', ''1'', ''b'', ''Site'', ''ship'']) ''actorType'' = Some ''1''"
  "map_of (b_args [''kar-debugger'', ''-v'', ''1'', ''b'', ''Site'', ''ship'']) ''path'' = Some ''b''"
  "map_of (b_args [''kar-debugger'', ''b'', ''-host'', ''h'', ''Site'', ''ship'']) ''actorType'' = Some ''-host''"
  by code_simp+

text \<open>\<^verbatim>\<open>getArgsList\<close> gives only the arguments in front of the first option.\<close>

lemma get_list_getting: "get_list options bools start args True idx ret = ret"
  by (induction args) simp_all

lemma list_after_option:
  "getArgsList [''kar-debugger'', ''kar'', ''invoke'', ''-v'', ''1'', ''Site'', ''1'', ''ship''] [(''-v'', ''verbose'')] [] 2
     = [''invoke'']"
  by code_simp

section \<open>The order of the messages of a step\<close>

text \<open>A connection that records what is sent and gives prepared answers.\<close>

definition recording :: "(string list \<times> (err + string) list) cmd_env \<Rightarrow>
    (string list \<times> (err + string) list) cmd_env" where
  "recording e = e\<lparr>ke_send := (\<lambda>b (s, r). (None, (s @ [b], r))),
     ke_recv := (\<lambda>(s, r). case r of [] \<Rightarrow> (Inl ErrCtx, (s, [])) | x # xs \<Rightarrow> (x, (s, xs)))\<rparr>"

definition found_paused :: "'w cmd_env \<Rightarrow> (err + string) list \<Rightarrow> pauseInfo_t list" where
  "found_paused e replies =
     (case an_actors (ke_an e) (case replies of Inr b # _ \<Rightarrow> b | _ \<Rightarrow> []) of
        (m, None) \<Rightarrow> mget [] m ''actors''
      | (_, Some _) \<Rightarrow> [])"

lemma recording_simps [simp]:
  "ke_send (recording e) b (s, r) = (None, (s @ [b], r))"
  "ke_recv (recording e) (s, r) = (case r of [] \<Rightarrow> (Inl ErrCtx, (s, [])) | x # xs \<Rightarrow> (x, (s, xs)))"
  "ke_an (recording e) = ke_an e" "ke_marshal (recording e) = ke_marshal e" "ke_uuid (recording e) = ke_uuid e"
  by (simp_all add: recording_def)

lemma recording_msgs [simp]:
  "step_query (recording e) msg = step_query e msg"
  "step_breakpoint (recording e) msg i = step_breakpoint e msg i"
  "step_unpause (recording e) = step_unpause e"
  by (simp_all add: step_query_def step_breakpoint_def step_unpause_def)

lemma step_from_sent:
  "\<exists>rest. fst (snd (step_from (recording e) js msg info (s, r))) = s @ ke_marshal e (step_breakpoint e msg info) # rest \<and>
     (rest = [] \<or> rest = [ke_marshal e (step_unpause e)] \<and>
       (\<exists>b r' m. r = Inr b # r' \<and> an_strs (ke_an e) b = (m, None)))"
  by (auto simp: step_from_def sending_def receiving_def saying_def say_def Let_def
      split: list.split sum.split prod.split option.split)

text \<open>What \<^verbatim>\<open>step\<close> sends when it gets the answers \<open>replies\<close>.\<close>

definition step_args :: "'w cmd_env \<Rightarrow> string list \<Rightarrow> strs" where
  "step_args e args = getArgs (ke_uuid e) args [''actorType'', ''actorId''] [] [] 2"

definition step_sent :: "(string list \<times> (err + string) list) cmd_env \<Rightarrow> client_json \<Rightarrow> string list \<Rightarrow>
    (err + string) list \<Rightarrow> string list" where
  "step_sent e js args replies = fst (snd (cmd_step (recording e) js args ([], replies)))"

lemma cmd_step_answer:
  fixes e args
  defines "msg \<equiv> step_args e args"
  defines "q \<equiv> ke_marshal e (step_query e msg)"
  assumes args: "\<not> (map_of msg ''actorId'' = None \<or> map_of msg ''actorType'' = None)"
    and m: "an_actors (ke_an e) (case replies of Inr b # _ \<Rightarrow> b | _ \<Rightarrow> []) = (m, er)"
  shows "cmd_step (recording e) js args ([], replies) =
      (case er of
         Some er \<Rightarrow> ([Decode_error er], ([q], tl replies))
       | None \<Rightarrow>
           (case mget [] m ''actors'' of
              [] \<Rightarrow> ([Say ''Cannot step: actor is not paused.''], ([q], tl replies))
            | info # _ \<Rightarrow>
                if pi_IsResponse info = ''response'' \<and> \<not> pi_CanStep info then
                  ([Say ''Cannot step: actor is paused on a response and has no parent.''], ([q], tl replies))
                else step_from (recording e) js msg info ([q], tl replies)))"
proof -
  have msg: "getArgs (ke_uuid (recording e)) args [''actorType'', ''actorId''] [] [] 2 = msg"
    by (simp add: msg_def step_args_def)
  obtain x where "ke_recv (recording e) ([q], replies) = (x, ([q], tl replies))"
    and "(case x of Inl _ \<Rightarrow> [] | Inr b \<Rightarrow> b) = (case replies of Inr b # _ \<Rightarrow> b | _ \<Rightarrow> [])"
    by (cases replies) auto
  then show ?thesis
    using m unfolding cmd_step_def msg Let_def if_not_P [OF args] sending_def q_def
    by (simp del: recording_simps(2))
qed


end
