(* ===== verification/Injector.thy ===== *)
theory Injector
  imports Rpc_Store "HOL-Library.Word"
begin

text \<open>
  The sidecar injector (\<^verbatim>\<open>internal/sidecar/injection.go\<close>): the admission webhook that adds the
  sidecar container, or the environment of a sidecar that runs in the application's container, to
  the pods of an application (\<^verbatim>\<open>processAnnotations\<close>, \<^verbatim>\<open>possiblyInjectSidecar\<close>,
  \<^verbatim>\<open>HandleAdmissionRequest\<close>).

  The webhook answers with a JSON patch, which Kubernetes applies: this is an interface with the
  laws of RFC 6902 for the operations and paths that the code uses.  Decoding is a parameter.
\<close>

section \<open>Pods\<close>

record EnvVar =
  ev_Name :: string
  ev_Value :: string
  ev_FieldPath :: "string option"

record VolumeMount =
  vm_Name :: string
  vm_MountPath :: string
  vm_ReadOnly :: bool

record ContainerPort =
  cp_ContainerPort :: "32 word"
  cp_Protocol :: string
  cp_Name :: string

text \<open>\<open>ct_Other\<close> stands for the fields that the code does not touch.\<close>

record Container =
  ct_Name :: string
  ct_Image :: string
  ct_Command :: "string list"
  ct_Args :: "string list"
  ct_Env :: "EnvVar list"
  ct_Ports :: "ContainerPort list"
  ct_LivenessProbe :: "(string \<times> int) option"
  ct_PreStop :: "(string \<times> int) option"
  ct_VolumeMounts :: "VolumeMount list"
  ct_Other :: string

record Volume =
  vo_Name :: string
  vo_Secret :: "string option"

record Pod =
  pd_Name :: string
  pd_Annotations :: "(string, string) gomap"
  pd_Labels :: "(string, string) gomap option"
  pd_Containers :: "Container list"
  pd_Volumes :: "Volume list option"
  pd_ImagePullSecrets :: "string list option"

definition actorAnnotation :: string where "actorAnnotation = ''kar.ibm.com/actors''"
definition appNameAnnotation :: string where "appNameAnnotation = ''kar.ibm.com/app''"
definition sidecarAnnotation :: string where "sidecarAnnotation = ''kar.ibm.com/sidecarContainer''"
definition serviceNameAnnotation :: string where "serviceNameAnnotation = ''kar.ibm.com/service''"
definition appPortAnnotation :: string where "appPortAnnotation = ''kar.ibm.com/appPort''"
definition runtimePortAnnotation :: string where "runtimePortAnnotation = ''kar.ibm.com/runtimePort''"
definition verboseAnnotation :: string where "verboseAnnotation = ''kar.ibm.com/verbose''"
definition extraArgsAnnotation :: string where "extraArgsAnnotation = ''kar.ibm.com/extraArgs''"
definition karImagePullSecret :: string where "karImagePullSecret = ''kar.ibm.com.image-pull''"
definition karRTConfigSecret :: string where "karRTConfigSecret = ''kar.ibm.com.runtime-config''"
definition karRTConfigMount :: string where "karRTConfigMount = ''/var/run/secrets/kar.ibm.com''"

section \<open>processAnnotations\<close>

definition env_var :: "string \<Rightarrow> string \<Rightarrow> EnvVar" where
  "env_var n v = \<lparr>ev_Name = n, ev_Value = v, ev_FieldPath = None\<rparr>"

definition flag_arg :: "(string, string) gomap \<Rightarrow> string \<Rightarrow> string \<Rightarrow> string list" where
  "flag_arg annotations key flag =
     (case map_of annotations key of Some v \<Rightarrow> [flag, v] | None \<Rightarrow> [])"

definition processAnnotations :: "Pod \<Rightarrow> string list \<times> EnvVar list \<times> string \<times> bool" where
  "processAnnotations pod =
     (let annotations = pd_Annotations pod;
          appName = mget [] annotations appNameAnnotation;
          sidecarContainer = mget ''true'' annotations sidecarAnnotation;
          appPort = mget ''8080'' annotations appPortAnnotation;
          runtimePort = mget ''3500'' annotations runtimePortAnnotation;
          extraArgs = [''-kubernetes_mode'', ''-config_dir'', karRTConfigMount] @
            (if sidecarContainer = ''true'' then [''-sidecar_mode''] else []) @
            flag_arg annotations serviceNameAnnotation ''-service'' @
            flag_arg annotations actorAnnotation ''-actors'' @
            [''-app_port'', appPort, ''-runtime_port'', runtimePort] @
            flag_arg annotations verboseAnnotation ''-v'' @
            (case map_of annotations extraArgsAnnotation of
               Some moreArgs \<Rightarrow> split_on (CHR '','') moreArgs
             | None \<Rightarrow> []);
          appEnv = [env_var ''KAR_APP'' appName] @
            (if sidecarContainer = ''true'' then [] else [env_var ''KAR_SIDECAR_IN_CONTAINER'' ''true'']) @
            [env_var ''KAR_APP_PORT'' appPort, env_var ''KAR_RUNTIME_PORT'' runtimePort]
      in (extraArgs, appEnv, runtimePort, sidecarContainer = ''true''))"

section \<open>possiblyInjectSidecar\<close>

datatype patch_value =
    PContainers "Container list"
  | PVolumes "Volume list"
  | PVolume Volume
  | PSecrets "string list"
  | PSecret string
  | PLabels "(string, string) gomap"

record patchOperation =
  po_Op :: string
  po_Path :: string
  po_Value :: patch_value

definition config_mount :: VolumeMount where
  "config_mount = \<lparr>vm_Name = ''kar-ibm-com-config'', vm_MountPath = karRTConfigMount, vm_ReadOnly = True\<rparr>"

definition config_volume :: Volume where
  "config_volume = \<lparr>vo_Name = ''kar-ibm-com-config'', vo_Secret = Some karRTConfigSecret\<rparr>"

text \<open>The error of \<^verbatim>\<open>strconv.Atoi\<close> is ignored, and the port of the container is the low 32 bits.\<close>

definition sidecar_container :: "string \<Rightarrow> string \<Rightarrow> string \<Rightarrow> string list \<Rightarrow> string \<Rightarrow> Container" where
  "sidecar_container img tag appName extraArgs runtimePortStr =
     (let runtimePort = fst (parse_int runtimePortStr)
      in \<lparr>ct_Name = ''kar'', ct_Image = img @ '':'' @ tag, ct_Command = [''/kar/bin/kar''],
          ct_Args = [''run'', ''-app'', appName] @ extraArgs,
          ct_Env = [\<lparr>ev_Name = ''KAR_POD_IP'', ev_Value = [], ev_FieldPath = Some ''status.podIP''\<rparr>],
          ct_Ports = [\<lparr>cp_ContainerPort = word_of_int runtimePort, cp_Protocol = ''TCP'', cp_Name = ''kar''\<rparr>],
          ct_LivenessProbe = Some (''kar/v1/system/health'', runtimePort),
          ct_PreStop = Some (''kar/v1/system/shutdown'', runtimePort),
          ct_VolumeMounts = [config_mount], ct_Other = []\<rparr>)"

definition add_env :: "EnvVar list \<Rightarrow> Container \<Rightarrow> Container" where
  "add_env vars c = c\<lparr>ct_Env := ct_Env c @ vars\<rparr>"

definition patched_containers :: "string \<Rightarrow> string \<Rightarrow> string \<Rightarrow> Pod \<Rightarrow> Container list" where
  "patched_containers img tag appName pod =
     (case processAnnotations pod of (extraArgs, appEnv, runtimePortStr, enableSidecar) \<Rightarrow>
        (let containers = (if length appEnv > 0 then map (add_env appEnv) (pd_Containers pod)
                           else pd_Containers pod)
         in if enableSidecar
            then sidecar_container img tag appName extraArgs runtimePortStr # containers
            else map (\<lambda>c. add_env [env_var ''KAR_EXTRA_ARGS'' (join_with '' '' extraArgs)]
                            (c\<lparr>ct_VolumeMounts := ct_VolumeMounts c @ [config_mount]\<rparr>)) containers))"

definition volume_patch :: "Pod \<Rightarrow> patchOperation" where
  "volume_patch pod =
     (if pd_Volumes pod = None
      then \<lparr>po_Op = ''replace'', po_Path = ''/spec/volumes'', po_Value = PVolumes [config_volume]\<rparr>
      else \<lparr>po_Op = ''add'', po_Path = ''/spec/volumes/-'', po_Value = PVolume config_volume\<rparr>)"

definition secret_patch :: "Pod \<Rightarrow> patchOperation" where
  "secret_patch pod =
     (if pd_ImagePullSecrets pod = None
      then \<lparr>po_Op = ''add'', po_Path = ''/spec/imagePullSecrets'', po_Value = PSecrets [karImagePullSecret]\<rparr>
      else \<lparr>po_Op = ''add'', po_Path = ''/spec/imagePullSecrets/-'', po_Value = PSecret karImagePullSecret\<rparr>)"

definition patched_labels :: "string \<Rightarrow> Pod \<Rightarrow> (string, string) gomap" where
  "patched_labels appName pod =
     (let labels = mput appNameAnnotation appName (case pd_Labels pod of Some l \<Rightarrow> l | None \<Rightarrow> [])
      in case map_of (pd_Annotations pod) serviceNameAnnotation of
           Some serviceName \<Rightarrow> mput serviceNameAnnotation serviceName labels
         | None \<Rightarrow> labels)"

definition label_patch :: "string \<Rightarrow> Pod \<Rightarrow> patchOperation" where
  "label_patch appName pod =
     \<lparr>po_Op = (if (case pd_Labels pod of Some l \<Rightarrow> length l | None \<Rightarrow> 0) = 0 then ''add'' else ''replace''),
      po_Path = ''/metadata/labels'', po_Value = PLabels (patched_labels appName pod)\<rparr>"

definition pod_patches :: "string \<Rightarrow> string \<Rightarrow> string \<Rightarrow> Pod \<Rightarrow> patchOperation list" where
  "pod_patches img tag appName pod =
     (case processAnnotations pod of (_, _, _, enableSidecar) \<Rightarrow>
        [\<lparr>po_Op = ''replace'', po_Path = ''/spec/containers'',
          po_Value = PContainers (patched_containers img tag appName pod)\<rparr>, volume_patch pod] @
        (if enableSidecar then [secret_patch pod] else []) @ [label_patch appName pod])"

record AdmissionResponse =
  ad_UID :: string
  ad_Allowed :: bool
  ad_Patch :: "patchOperation list option"
  ad_Message :: "string option"

record AdmissionRequest =
  rq_UID :: string
  rq_Resource :: "string \<times> string \<times> string"
  rq_Raw :: string

record injector =
  in_image :: string
  in_tag :: string
  in_pod :: "string \<Rightarrow> err + Pod"
  in_marshal :: "patchOperation list \<Rightarrow> err option"
  in_text :: "err \<Rightarrow> string"

definition toV1AdmissionResponse :: "injector \<Rightarrow> err \<Rightarrow> AdmissionResponse" where
  "toV1AdmissionResponse ij e = \<lparr>ad_UID = [], ad_Allowed = False, ad_Patch = None, ad_Message = Some (in_text ij e)\<rparr>"

definition allowed :: AdmissionResponse where
  "allowed = \<lparr>ad_UID = [], ad_Allowed = True, ad_Patch = None, ad_Message = None\<rparr>"

text \<open>The answer for a decoded pod; then the whole, with \<^const>\<open>None\<close> for nil.\<close>

definition inject_pod :: "injector \<Rightarrow> Pod \<Rightarrow> AdmissionResponse" where
  "inject_pod ij pod =
     (case map_of (pd_Annotations pod) appNameAnnotation of
        None \<Rightarrow> allowed
      | Some appName \<Rightarrow>
          if \<exists>c \<in> set (pd_Containers pod). ct_Name c = ''kar'' then allowed
          else let patches = pod_patches (in_image ij) (in_tag ij) appName pod
               in case in_marshal ij patches of
                    Some e \<Rightarrow> toV1AdmissionResponse ij e
                  | None \<Rightarrow> allowed\<lparr>ad_Patch := Some patches\<rparr>)"

definition possiblyInjectSidecar :: "injector \<Rightarrow> AdmissionRequest \<Rightarrow> AdmissionResponse option" where
  "possiblyInjectSidecar ij req =
     (if rq_Resource req \<noteq> ([], ''v1'', ''pods'') then None
      else case in_pod ij (rq_Raw req) of
             Inl e \<Rightarrow> Some (toV1AdmissionResponse ij e)
           | Inr pod \<Rightarrow> Some (inject_pod ij pod))"

section \<open>HandleAdmissionRequest\<close>

text \<open>
  What decoding the body gives: an \<^verbatim>\<open>AdmissionReview\<close> of version v1, whose request may be nil, another object of
  that kind, or an object of another kind.  A nil request or response is dereferenced.
\<close>

datatype decoded = Review "AdmissionRequest option" | Other_type string | Other_kind string

definition HandleAdmissionRequest :: "injector \<Rightarrow> (string \<Rightarrow> err + decoded) \<Rightarrow> string \<Rightarrow>
    (AdmissionResponse option \<times> int \<times> string option) result" where
  "HandleAdmissionRequest ij decode body =
     (case decode body of
        Inl e \<Rightarrow> Ok (None, 400, Some (''Request could not be decoded: '' @ in_text ij e))
      | Inr (Other_type t) \<Rightarrow> Ok (None, 400, Some (''Expected v1.AdmissionReview but got: '' @ t))
      | Inr (Other_kind k) \<Rightarrow> Ok (None, 400, Some (''Unsupported group version kind: '' @ k))
      | Inr (Review None) \<Rightarrow> Panicked
      | Inr (Review (Some req)) \<Rightarrow>
          (case possiblyInjectSidecar ij req of
             None \<Rightarrow> Panicked
           | Some resp \<Rightarrow> Ok (Some (resp\<lparr>ad_UID := rq_UID req\<rparr>), 200, None)))"

section \<open>Applying the patch\<close>

text \<open>
  RFC 6902: \<^verbatim>\<open>replace\<close> needs its target to exist, \<^verbatim>\<open>add\<close> at a member sets it, \<^verbatim>\<open>add\<close> at \<^verbatim>\<open>/-\<close>
  appends to an array that must exist.  The containers of a pod are never absent.
\<close>

locale json_patch =
  fixes apply_op :: "patchOperation \<Rightarrow> Pod \<Rightarrow> Pod option"
  assumes replace_containers:
      "apply_op \<lparr>po_Op = ''replace'', po_Path = ''/spec/containers'', po_Value = PContainers cs\<rparr> pod =
         Some (pod\<lparr>pd_Containers := cs\<rparr>)"
    and replace_volumes:
      "apply_op \<lparr>po_Op = ''replace'', po_Path = ''/spec/volumes'', po_Value = PVolumes vs\<rparr> pod =
         (if pd_Volumes pod = None then None else Some (pod\<lparr>pd_Volumes := Some vs\<rparr>))"
    and append_volume:
      "apply_op \<lparr>po_Op = ''add'', po_Path = ''/spec/volumes/-'', po_Value = PVolume v\<rparr> pod =
         map_option (\<lambda>vs. pod\<lparr>pd_Volumes := Some (vs @ [v])\<rparr>) (pd_Volumes pod)"
    and add_secrets:
      "apply_op \<lparr>po_Op = ''add'', po_Path = ''/spec/imagePullSecrets'', po_Value = PSecrets ss\<rparr> pod =
         Some (pod\<lparr>pd_ImagePullSecrets := Some ss\<rparr>)"
    and append_secret:
      "apply_op \<lparr>po_Op = ''add'', po_Path = ''/spec/imagePullSecrets/-'', po_Value = PSecret s\<rparr> pod =
         map_option (\<lambda>ss. pod\<lparr>pd_ImagePullSecrets := Some (ss @ [s])\<rparr>) (pd_ImagePullSecrets pod)"
    and add_labels:
      "apply_op \<lparr>po_Op = ''add'', po_Path = ''/metadata/labels'', po_Value = PLabels l\<rparr> pod =
         Some (pod\<lparr>pd_Labels := Some l\<rparr>)"
    and replace_labels:
      "apply_op \<lparr>po_Op = ''replace'', po_Path = ''/metadata/labels'', po_Value = PLabels l\<rparr> pod =
         (if pd_Labels pod = None then None else Some (pod\<lparr>pd_Labels := Some l\<rparr>))"
begin

lemma apply_secret_patch:
  "pd_ImagePullSecrets pod' = pd_ImagePullSecrets pod \<Longrightarrow> apply_op (secret_patch pod) pod' =
     Some (pod'\<lparr>pd_ImagePullSecrets := Some ((case pd_ImagePullSecrets pod of Some ss \<Rightarrow> ss | None \<Rightarrow> []) @
        [karImagePullSecret])\<rparr>)"
  by (cases "pd_ImagePullSecrets pod") (simp_all add: secret_patch_def add_secrets append_secret)

lemma apply_label_patch:
  "pd_Labels pod' = pd_Labels pod \<Longrightarrow> apply_op (label_patch appName pod) pod' =
     Some (pod'\<lparr>pd_Labels := Some (patched_labels appName pod)\<rparr>)"
  by (cases "pd_Labels pod") (simp_all add: label_patch_def add_labels replace_labels)

lemma apply_volume_patch:
  "pd_Volumes pod' = pd_Volumes pod \<Longrightarrow> apply_op (volume_patch pod) pod' =
     map_option (\<lambda>vs. pod'\<lparr>pd_Volumes := Some (vs @ [config_volume])\<rparr>) (pd_Volumes pod)"
  by (cases "pd_Volumes pod") (simp_all add: volume_patch_def replace_volumes append_volume)

end

fun apply_patches :: "(patchOperation \<Rightarrow> Pod \<Rightarrow> Pod option) \<Rightarrow> patchOperation list \<Rightarrow> Pod \<Rightarrow> Pod option" where
  "apply_patches apply_op [] pod = Some pod"
| "apply_patches apply_op (p # ps) pod =
     (case apply_op p pod of None \<Rightarrow> None | Some pod' \<Rightarrow> apply_patches apply_op ps pod')"

definition rfc_apply :: "patchOperation \<Rightarrow> Pod \<Rightarrow> Pod option" where
  "rfc_apply p pod =
     (case (po_Value p, po_Op p = ''replace'') of
        (PContainers cs, _) \<Rightarrow> Some (pod\<lparr>pd_Containers := cs\<rparr>)
      | (PVolumes vs, rep) \<Rightarrow> if rep \<and> pd_Volumes pod = None then None else Some (pod\<lparr>pd_Volumes := Some vs\<rparr>)
      | (PVolume v, _) \<Rightarrow> map_option (\<lambda>vs. pod\<lparr>pd_Volumes := Some (vs @ [v])\<rparr>) (pd_Volumes pod)
      | (PSecrets ss, _) \<Rightarrow> Some (pod\<lparr>pd_ImagePullSecrets := Some ss\<rparr>)
      | (PSecret s, _) \<Rightarrow> map_option (\<lambda>ss. pod\<lparr>pd_ImagePullSecrets := Some (ss @ [s])\<rparr>) (pd_ImagePullSecrets pod)
      | (PLabels l, rep) \<Rightarrow> if rep \<and> pd_Labels pod = None then None else Some (pod\<lparr>pd_Labels := Some l\<rparr>))"

interpretation rfc: json_patch rfc_apply
  by unfold_locales (simp_all add: rfc_apply_def)

definition wants_sidecar :: "Pod \<Rightarrow> bool" where
  "wants_sidecar pod = (mget ''true'' (pd_Annotations pod) sidecarAnnotation = ''true'')"

definition injected :: "string \<Rightarrow> string \<Rightarrow> string \<Rightarrow> Pod \<Rightarrow> Volume list \<Rightarrow> Pod" where
  "injected img tag appName pod vs = pod
     \<lparr>pd_Containers := patched_containers img tag appName pod,
      pd_Volumes := Some (vs @ [config_volume]),
      pd_ImagePullSecrets :=
        (if wants_sidecar pod
         then Some ((case pd_ImagePullSecrets pod of Some ss \<Rightarrow> ss | None \<Rightarrow> []) @ [karImagePullSecret])
         else pd_ImagePullSecrets pod),
      pd_Labels := Some (patched_labels appName pod)\<rparr>"

lemma apply_pod_patches:
  assumes "json_patch apply_op"
  shows "apply_patches apply_op (pod_patches img tag appName pod) pod =
    map_option (injected img tag appName pod) (pd_Volumes pod)"
proof -
  note laws = json_patch.replace_containers [OF assms] json_patch.apply_volume_patch [OF assms]
    json_patch.apply_secret_patch [OF assms] json_patch.apply_label_patch [OF assms]
  obtain xs es rp where pa: "processAnnotations pod = (xs, es, rp, wants_sidecar pod)"
    by (simp add: processAnnotations_def wants_sidecar_def Let_def)
  show ?thesis
    by (cases "pd_Volumes pod") (simp_all add: pod_patches_def pa laws injected_def)
qed

lemma sidecar_present:
  "wants_sidecar pod \<Longrightarrow> \<exists>c \<in> set (patched_containers img tag appName pod). ct_Name c = ''kar''"
  by (simp add: patched_containers_def processAnnotations_def wants_sidecar_def sidecar_container_def Let_def)

lemma app_containers_kept:
  "\<exists>ev mounts. patched_containers img tag appName pod =
     (if wants_sidecar pod
      then [sidecar_container img tag appName (fst (processAnnotations pod)) (mget ''3500'' (pd_Annotations pod) runtimePortAnnotation)]
      else []) @
     map (\<lambda>c. c\<lparr>ct_Env := ct_Env c @ ev, ct_VolumeMounts := ct_VolumeMounts c @ mounts\<rparr>) (pd_Containers pod)"
proof (cases "wants_sidecar pod")
  case True
  then show ?thesis
    by (intro exI [of _ "fst (snd (processAnnotations pod))"] exI [of _ "[]"])
      (simp add: patched_containers_def processAnnotations_def wants_sidecar_def add_env_def Let_def)
next
  case False
  then show ?thesis
    by (intro exI [of _ "fst (snd (processAnnotations pod)) @
          [env_var ''KAR_EXTRA_ARGS'' (join_with '' '' (fst (processAnnotations pod)))]"]
        exI [of _ "[config_mount]"])
      (simp add: patched_containers_def processAnnotations_def wants_sidecar_def add_env_def Let_def)
qed


definition pod_example :: "Volume list option \<Rightarrow> string \<Rightarrow> Pod" where
  "pod_example vs mode = \<lparr>pd_Name = ''p'', pd_Annotations = [(appNameAnnotation, ''dp''), (sidecarAnnotation, mode)],
     pd_Labels = None,
     pd_Containers = [\<lparr>ct_Name = ''cafe'', ct_Image = [], ct_Command = [], ct_Args = [], ct_Env = [], ct_Ports = [],
       ct_LivenessProbe = None, ct_PreStop = None, ct_VolumeMounts = [], ct_Other = []\<rparr>],
     pd_Volumes = vs, pd_ImagePullSecrets = None\<rparr>"

definition injector_example :: injector where
  "injector_example = \<lparr>in_image = ''kar-sidecar'', in_tag = ''latest'', in_pod = (\<lambda>_. Inl ErrNil),
     in_marshal = (\<lambda>_. None), in_text = (\<lambda>_. [])\<rparr>"


text \<open>The patch for a pod without volumes cannot be applied: it replaces a member that is absent.\<close>

lemma no_volumes_fails:
  "json_patch apply_op \<Longrightarrow> pd_Volumes pod = None \<Longrightarrow>
   apply_patches apply_op (pod_patches img tag appName pod) pod = None"
  by (simp add: apply_pod_patches)

text \<open>A pod with the sidecar in the application's container is patched again when it is seen again.\<close>

lemma in_container_twice:
  "\<exists>pod'. apply_patches rfc_apply (pod_patches [] [] ''dp'' (pod_example (Some []) ''false''))
     (pod_example (Some []) ''false'') = Some pod' \<and> ad_Patch (inject_pod injector_example pod') \<noteq> None"
  by (simp add: apply_pod_patches [OF rfc.json_patch_axioms] pod_example_def injected_def inject_pod_def
      injector_example_def allowed_def patched_containers_def processAnnotations_def add_env_def mget_def
      appNameAnnotation_def sidecarAnnotation_def Let_def)

text \<open>A review of anything but a pod, which the webhook is not registered for, is a nil dereference.\<close>

lemma other_resource_panics:
  assumes "decode body = Inr (Review (Some req))" and "rq_Resource req \<noteq> ([], ''v1'', ''pods'')"
  shows "HandleAdmissionRequest ij decode body = Panicked"
  using assms by (simp add: HandleAdmissionRequest_def possiblyInjectSidecar_def)

text \<open>A runtime port that is not a number gives a container that listens on, and is probed at, port 0.\<close>

lemma bad_port_ignored:
  "ct_Ports (sidecar_container img tag appName args ''http'') =
     [\<lparr>cp_ContainerPort = 0, cp_Protocol = ''TCP'', cp_Name = ''kar''\<rparr>]"
  "ct_LivenessProbe (sidecar_container img tag appName args ''http'') = Some (''kar/v1/system/health'', 0)"
  by (simp_all add: sidecar_container_def parse_int_def is_digit_def Let_def)

end
