(* ===== verification/Log_Analyzer.thy ===== *)
theory Log_Analyzer
  imports Debug_Conditions
begin

text \<open>
  The log analyzer (\<^verbatim>\<open>cmd/kar-log-analyzer/main.go\<close>): the readers of the three logs, and
  \<^verbatim>\<open>correlateLogs\<close>, which assigns to each cluster of failures the rebalance of Kafka and the end of
  the recovery that follow it and breaks the outage down.

  A log is its list of lines, and \<^verbatim>\<open>time.Parse\<close> a parameter.  An index out of range is a panic.
\<close>

section \<open>Text\<close>

text \<open>\<^verbatim>\<open>strings.Split\<close> with a separator of any length, and \<^verbatim>\<open>strings.Replace\<close> of the first occurrence.\<close>

function split_str :: "string \<Rightarrow> string \<Rightarrow> string list" where
  "split_str sep [] = [[]]"
| "split_str sep (x # xs) =
     (if sep \<noteq> [] \<and> take (length sep) (x # xs) = sep then [] # split_str sep (drop (length sep) (x # xs))
      else case split_str sep xs of [] \<Rightarrow> [[x]] | w # ws \<Rightarrow> (x # w) # ws)"
  by pat_completeness auto

termination
  by (relation "measure (\<lambda>(sep, s). length s)") auto

fun replace_first :: "string \<Rightarrow> string \<Rightarrow> string \<Rightarrow> string" where
  "replace_first old new [] = []"
| "replace_first old new (x # xs) =
     (if take (length old) (x # xs) = old then new @ drop (length old) (x # xs)
      else x # replace_first old new xs)"

section \<open>Events\<close>

record rebalanceEvent =
  rb_startTime :: time
  rb_endTime :: time

record failureEvent =
  fe_startTime :: time
  fe_maximumOrder :: int

record outage_summary =
  sm_startTime :: time
  sm_totalDuration :: int
  sm_maximumOrder :: int
  sm_detection :: int
  sm_consensus :: int
  sm_reconciliation :: int
  sm_failureCount :: nat

type_synonym parse_time = "string \<Rightarrow> string \<Rightarrow> time option"

text \<open>\<^verbatim>\<open>readKarLog\<close>: the times of the messages that report the end of a recovery.\<close>

fun readKarLog :: "parse_time \<Rightarrow> string list \<Rightarrow> time list \<Rightarrow> time list result" where
  "readKarLog tp [] processing = Ok processing"
| "readKarLog tp (line # rest) processing =
     (case split_str ''[INFO]'' line of
        [before, after] \<Rightarrow>
          (case tp ''2006/01/02 15:04:05'' (trim_space before) of
             None \<Rightarrow> Panicked
           | Some ts \<Rightarrow>
               readKarLog tp rest
                 (if contains after ''processing messages'' then processing @ [ts] else processing))
      | _ \<Rightarrow> readKarLog tp rest processing)"

fun readKafkaLog :: "parse_time \<Rightarrow> string list \<Rightarrow> time \<Rightarrow> rebalanceEvent list \<Rightarrow> rebalanceEvent list result" where
  "readKafkaLog tp [] prep rebalances = Ok rebalances"
| "readKafkaLog tp (line # rest) prep rebalances =
     (case split_str '' INFO '' line of
        [before, after] \<Rightarrow>
          (case tp ''[2006-01-02 15:04:05]'' (trim_space before) of
             None \<Rightarrow> Panicked
           | Some ts \<Rightarrow>
               if contains after ''Preparing to rebalance group'' then readKafkaLog tp rest ts rebalances
               else if contains after ''Stabilized group'' then
                 readKafkaLog tp rest 0 (rebalances @ [\<lparr>rb_startTime = prep, rb_endTime = ts\<rparr>])
               else readKafkaLog tp rest prep rebalances)
      | _ \<Rightarrow> readKafkaLog tp rest prep rebalances)"

text \<open>
  \<^verbatim>\<open>readAppLog\<close>: a failure gets the greatest latency of the orders up to the next failure.  The last
  line of the function fails when there is no failure.
\<close>

definition set_order :: "nat \<Rightarrow> int \<Rightarrow> failureEvent list \<Rightarrow> failureEvent list" where
  "set_order i ms fs = fs[i := (fs ! i)\<lparr>fe_maximumOrder := (ms * 1000000 + 2 ^ 63) mod 2 ^ 64 - 2 ^ 63\<rparr>]"

fun readAppLog :: "parse_time \<Rightarrow> string list \<Rightarrow> int \<Rightarrow> failureEvent list \<Rightarrow> failureEvent list result" where
  "readAppLog tp [] maxOrderLatency failures =
     (if failures = [] then Panicked else Ok (set_order (length failures - 1) maxOrderLatency failures))"
| "readAppLog tp (line # rest) maxOrderLatency failures =
     (if contains line ''k3d node stop'' then
        (let tmp = replace_first '', 24:'' '', 00:'' (hd (split_str ''k3d'' line))
         in case tp ''1/2/2006, 15:04:05'' (trim_space tmp) of
              None \<Rightarrow> Panicked
            | Some ts \<Rightarrow>
                (let failures = failures @ [\<lparr>fe_startTime = ts, fe_maximumOrder = 0\<rparr>]
                 in readAppLog tp rest 0
                      (if length failures > 1 then set_order (length failures - 2) maxOrderLatency failures
                       else failures)))
      else if contains line ''child message:'' then
        (case split_on (CHR '']'') line of
           _ # o1 # _ \<Rightarrow>
             (case parse_int (trim_space o1) of
                (orderLatency, okay) \<Rightarrow>
                  readAppLog tp rest
                    (if okay \<and> orderLatency > maxOrderLatency then orderLatency else maxOrderLatency) failures)
         | _ \<Rightarrow> Panicked)
      else readAppLog tp rest maxOrderLatency failures)"

section \<open>correlateLogs\<close>

text \<open>\<^verbatim>\<open>time.Time.Sub\<close> saturates.\<close>

definition Sub :: "time \<Rightarrow> time \<Rightarrow> int" where
  "Sub a b = max (- (2 ^ 63)) (min (2 ^ 63 - 1) (a - b))"

text \<open>The loops that advance an index while the event there is too early; \<^const>\<open>None\<close> past the end.\<close>

function advance :: "('a \<Rightarrow> bool) \<Rightarrow> 'a list \<Rightarrow> nat \<Rightarrow> nat option" where
  "advance early xs i =
     (if i < length xs then if early (xs ! i) then advance early xs (Suc i) else Some i else None)"
  by pat_completeness auto

termination
  by (relation "measure (\<lambda>(early, xs, i). length xs - i)") auto

declare advance.simps [simp del]

text \<open>The loop that merges the failures before the end of the recovery: their number, the greatest
  latency, and the failures left.\<close>

fun merge_failures :: "time \<Rightarrow> failureEvent list \<Rightarrow> nat \<Rightarrow> int \<Rightarrow> nat \<times> int \<times> failureEvent list" where
  "merge_failures p [] n maxOrder = (n, maxOrder, [])"
| "merge_failures p (sf # rest) n maxOrder =
     (if p > fe_startTime sf
      then merge_failures p rest (n + 1)
             (if fe_maximumOrder sf > maxOrder then fe_maximumOrder sf else maxOrder)
      else (n, maxOrder, sf # rest))"

lemma merge_failures_length: "merge_failures p fs n m = (n', m', rest) \<Longrightarrow> length rest \<le> length fs"
  by (induction fs arbitrary: n m) (auto split: if_splits dest: le_SucI)

function correlate :: "rebalanceEvent list \<Rightarrow> time list \<Rightarrow> failureEvent list \<Rightarrow> nat \<Rightarrow> nat \<Rightarrow>
    outage_summary list \<Rightarrow> nat list \<Rightarrow> (outage_summary list \<times> nat list) result" where
  "correlate rebalances processing [] ri pri summaries histo = Ok (summaries, histo)"
| "correlate rebalances processing (pf # fs) ri pri summaries histo =
     (case advance (\<lambda>r. rb_startTime r < fe_startTime pf) rebalances ri of
        None \<Rightarrow> Panicked
      | Some ri \<Rightarrow>
          (let r = rebalances ! ri
           in case advance (\<lambda>p. p < rb_endTime r) processing pri of
                None \<Rightarrow> Panicked
              | Some pri \<Rightarrow>
                  (let p = processing ! pri
                   in case merge_failures p fs 1 (fe_maximumOrder pf) of
                        (numFailures, maxOrder, rest) \<Rightarrow>
                          if numFailures > 10 then correlate rebalances processing rest ri pri summaries histo
                          else if numFailures \<ge> length histo then Panicked
                          else correlate rebalances processing rest ri pri
                                 (summaries @
                                   [\<lparr>sm_startTime = fe_startTime pf,
                                     sm_totalDuration = Sub p (fe_startTime pf), sm_maximumOrder = maxOrder,
                                     sm_detection = Sub (rb_startTime r) (fe_startTime pf),
                                     sm_consensus = Sub (rb_endTime r) (rb_startTime r),
                                     sm_reconciliation = Sub p (rb_endTime r), sm_failureCount = numFailures\<rparr>])
                                 (histo[numFailures := histo ! numFailures + 1]))))"
  by pat_completeness auto

termination
  by (relation "measure (\<lambda>(_, _, fs, _). length fs)")
    (auto dest!: merge_failures_length [OF sym] simp: less_Suc_eq_le)

definition correlateLogs :: "rebalanceEvent list \<Rightarrow> time list \<Rightarrow> failureEvent list \<Rightarrow>
    (outage_summary list \<times> nat list) result" where
  "correlateLogs rebalances processing failures =
     correlate rebalances processing failures 0 0 [] (replicate 10 0)"

text \<open>\<^verbatim>\<open>main\<close> without its output.\<close>

definition analyze :: "parse_time \<Rightarrow> string list \<Rightarrow> string list \<Rightarrow> string list \<Rightarrow>
    (outage_summary list \<times> nat list) result" where
  "analyze tp kafkalog karlog applog =
     (case readKafkaLog tp kafkalog 0 [] of
        Ok rebalances \<Rightarrow>
          (case readKarLog tp karlog [] of
             Ok processing \<Rightarrow>
               (case readAppLog tp applog 0 [] of
                  Ok failures \<Rightarrow> correlateLogs rebalances processing failures
                | Error e \<Rightarrow> Error e
                | Panicked \<Rightarrow> Panicked)
           | Error e \<Rightarrow> Error e
           | Panicked \<Rightarrow> Panicked)
      | Error e \<Rightarrow> Error e
      | Panicked \<Rightarrow> Panicked)"

section \<open>The breakdown of the outages\<close>

lemma advance_Some: "advance early xs i = Some j \<Longrightarrow> j < length xs \<and> i \<le> j \<and> \<not> early (xs ! j)"
proof (induction early xs i rule: advance.induct)
  case (1 early xs i)
  then show ?case
    by (subst (asm) advance.simps) (auto split: if_splits)
qed

lemma merge_failures_count:
  "merge_failures p fs n m = (n', m', rest) \<Longrightarrow> n' + length rest = n + length fs \<and> n \<le> n' \<and>
     (\<exists>merged. fs = merged @ rest)"
proof (induction fs arbitrary: n m)
  case (Cons f fs)
  then show ?case
    by (cases "p > fe_startTime f") (auto dest!: Cons.IH)
qed simp

definition breaks_down :: "outage_summary \<Rightarrow> bool" where
  "breaks_down s \<longleftrightarrow> 0 \<le> sm_detection s \<and> 0 \<le> sm_reconciliation s \<and>
     sm_totalDuration s = sm_detection s + sm_consensus s + sm_reconciliation s"

definition with_count :: "nat \<Rightarrow> outage_summary list \<Rightarrow> nat" where
  "with_count k ss = length (filter (\<lambda>s. sm_failureCount s = k) ss)"

definition window :: "time \<Rightarrow> time \<Rightarrow> bool" where
  "window T t \<longleftrightarrow> T \<le> t \<and> t < T + 2 ^ 62"

lemma Sub_window: "window T a \<Longrightarrow> window T b \<Longrightarrow> Sub a b = a - b"
  by (simp add: window_def Sub_def)

definition in_window :: "time \<Rightarrow> rebalanceEvent list \<Rightarrow> time list \<Rightarrow> failureEvent list \<Rightarrow> bool" where
  "in_window T rebalances processing failures \<longleftrightarrow>
     (\<forall>r \<in> set rebalances. window T (rb_startTime r) \<and> window T (rb_endTime r)) \<and>
     (\<forall>p \<in> set processing. window T p) \<and> (\<forall>f \<in> set failures. window T (fe_startTime f))"

definition accounts :: "nat \<Rightarrow> outage_summary list \<Rightarrow> nat list \<Rightarrow> outage_summary list \<Rightarrow> nat list \<Rightarrow> bool" where
  "accounts n ss histo ss' histo' \<longleftrightarrow> (\<exists>new skipped. ss' = ss @ new \<and> (\<forall>s \<in> set new. breaks_down s) \<and>
     (\<forall>k \<in> set skipped. 10 < k) \<and> sum_list (map sm_failureCount new) + sum_list skipped = n \<and>
     length histo' = length histo \<and> (\<forall>k < length histo. histo' ! k = histo ! k + with_count k new))"

lemma accounts_skip: "accounts n ss h ss' h' \<Longrightarrow> 10 < k \<Longrightarrow> accounts (k + n) ss h ss' h'"
  unfolding accounts_def
proof (elim exE conjE)
  fix new skipped
  assume a: "ss' = ss @ new" "\<forall>s \<in> set new. breaks_down s" "\<forall>k \<in> set skipped. 10 < k"
    "sum_list (map sm_failureCount new) + sum_list skipped = n" "length h' = length h"
    "\<forall>k < length h. h' ! k = h ! k + with_count k new" "10 < k"
  show "\<exists>new skipped. ss' = ss @ new \<and> (\<forall>s \<in> set new. breaks_down s) \<and>
     (\<forall>k \<in> set skipped. 10 < k) \<and> sum_list (map sm_failureCount new) + sum_list skipped = k + n \<and>
     length h' = length h \<and> (\<forall>k < length h. h' ! k = h ! k + with_count k new)"
    by (rule exI [of _ new], rule exI [of _ "k # skipped"]) (use a in simp)
qed

lemma accounts_add:
  assumes "accounts n (ss @ [s]) (h[k := Suc (h ! k)]) ss' h'" and "breaks_down s" and "sm_failureCount s = k"
    and "k < length h"
  shows "accounts (k + n) ss h ss' h'"
proof -
  from assms(1) obtain new skipped where a: "ss' = (ss @ [s]) @ new" "\<forall>s \<in> set new. breaks_down s"
    "\<forall>k \<in> set skipped. 10 < k" "sum_list (map sm_failureCount new) + sum_list skipped = n"
    "length h' = length (h[k := Suc (h ! k)])"
    "\<forall>i < length (h[k := Suc (h ! k)]). h' ! i = h[k := Suc (h ! k)] ! i + with_count i new"
    unfolding accounts_def by blast
  have "\<forall>i < length h. h' ! i = h ! i + with_count i (s # new)"
    using a(6) assms(3,4) by (auto simp: with_count_def nth_list_update)
  then show ?thesis
    unfolding accounts_def
    by (intro exI [of _ "s # new"] exI [of _ skipped]) (use a assms(2,3) in simp)
qed

lemma correlate_accounts:
  "correlate rebs procs fs ri pri ss h = Ok (ss', h') \<Longrightarrow> in_window T rebs procs fs \<Longrightarrow>
   accounts (length fs) ss h ss' h'"
proof (induction rebs procs fs ri pri ss h rule: correlate.induct)
  case (1 rebs procs ri pri ss h)
  then show ?case
    unfolding accounts_def by (intro exI [of _ "[]"]) (simp add: with_count_def)
next
  case (2 rebs procs pf fs ri pri ss h)
  obtain i j where i: "advance (\<lambda>r. rb_startTime r < fe_startTime pf) rebs ri = Some i"
    and j: "advance (\<lambda>p. p < rb_endTime (rebs ! i)) procs pri = Some j"
    using "2.prems"(1) by (auto simp: Let_def split: option.splits)
  obtain k m rest where mf: "merge_failures (procs ! j) fs 1 (fe_maximumOrder pf) = (k, m, rest)"
    by (cases "merge_failures (procs ! j) fs 1 (fe_maximumOrder pf)")
  then have len: "k + length rest = length (pf # fs)" and sub: "set rest \<subseteq> set fs"
    using merge_failures_count by fastforce+
  have w: "in_window T rebs procs rest"
    using "2.prems"(2) sub by (auto simp: in_window_def)
  let ?s = "\<lparr>sm_startTime = fe_startTime pf, sm_totalDuration = Sub (procs ! j) (fe_startTime pf),
    sm_maximumOrder = m, sm_detection = Sub (rb_startTime (rebs ! i)) (fe_startTime pf),
    sm_consensus = Sub (rb_endTime (rebs ! i)) (rb_startTime (rebs ! i)),
    sm_reconciliation = Sub (procs ! j) (rb_endTime (rebs ! i)), sm_failureCount = k\<rparr>"
  have "window T (rb_startTime (rebs ! i))" "window T (rb_endTime (rebs ! i))" "window T (procs ! j)"
    "window T (fe_startTime pf)"
    using advance_Some [OF i] advance_Some [OF j] "2.prems"(2) by (simp_all add: in_window_def)
  then have good: "breaks_down ?s"
    using advance_Some [OF i] advance_Some [OF j] by (simp add: breaks_down_def Sub_window [of T])
  note IH = "2.IH" [OF i refl j refl mf [symmetric] refl]
  have "accounts (k + length rest) ss h ss' h'"
  proof (cases "k > 10")
    case True
    then have "accounts (length rest) ss h ss' h'"
      using IH(1) "2.prems"(1) i j mf w by (simp add: Let_def)
    then show ?thesis
      using True by (rule accounts_skip)
  next
    case False
    then have k: "k < length h" and "accounts (length rest) (ss @ [?s]) (h[k := Suc (h ! k)]) ss' h'"
      using IH(2) "2.prems"(1) i j mf w by (auto simp: Let_def split: if_splits)
    from accounts_add [OF this(2) good _ k] show ?thesis
      by simp
  qed
  then show ?case
    unfolding len .
qed


definition stop_at :: "time \<Rightarrow> failureEvent" where
  "stop_at t = \<lparr>fe_startTime = t, fe_maximumOrder = 7\<rparr>"

definition logs_example :: "(outage_summary list \<times> nat list) result" where
  "logs_example = correlateLogs [\<lparr>rb_startTime = 3, rb_endTime = 5\<rparr>, \<lparr>rb_startTime = 22, rb_endTime = 25\<rparr>] [6, 30]
     [stop_at 1, stop_at 4, stop_at 20]"

lemma logs_example_eq: "\<exists>ss. logs_example = Ok (ss, [0, 1, 1, 0, 0, 0, 0, 0, 0, 0]) \<and> map sm_failureCount ss = [2, 1] \<and>
    map sm_totalDuration ss = [5, 10]"
  by (simp add: logs_example_def correlateLogs_def stop_at_def advance.simps Sub_def eval_nat_numeral Let_def)


text \<open>A cluster of exactly ten failures is past the end of the histogram.\<close>

lemma ten_failures_panic:
  "correlateLogs [\<lparr>rb_startTime = 20, rb_endTime = 21\<rparr>] [22] (map (\<lambda>i. stop_at (int i)) [0..<10]) = Panicked"
  by (simp add: correlateLogs_def stop_at_def advance.simps upt_conv_Cons eval_nat_numeral Let_def)

text \<open>So is a failure after the last rebalance.\<close>

lemma no_rebalance_panics: "correlateLogs [] processing (f # fs) = Panicked"
  by (simp add: correlateLogs_def advance.simps)

end
