(* ===== verification/Configuration.thy ===== *)
theory Configuration
  imports Rpc_Store
begin

text \<open>
  The configuration of the \<^verbatim>\<open>kar\<close> command (\<^verbatim>\<open>internal/config/config.go\<close>): the flags of the commands
  and their defaults, the choice of the command, and the settings, each from a flag, the
  environment, a file of the configuration directory or a default.

  The splitting of the command line into flags and arguments is that of the \<^verbatim>\<open>flag\<close> package.  The
  environment, the file system, the number formats of flags and certificates are parameters.
\<close>

section \<open>Flags\<close>

record cli_flags =
  cf_app :: string
  cf_kafka_brokers :: string
  cf_kafka_enable_tls :: bool
  cf_kafka_username :: string
  cf_kafka_password :: string
  cf_kafka_version :: string
  cf_kafka_tls_skip_verify :: bool
  cf_debug :: bool
  cf_topicConfig :: "(string, string) gomap"
  cf_redis_host :: string
  cf_redis_port :: int
  cf_redis_enable_tls :: bool
  cf_redis_password :: string
  cf_redis_user :: string
  cf_redis_tls_skip_verify :: bool
  cf_redis_ca_cert :: string
  cf_request_retry_limit :: int
  cf_redis_slow_op_threshold :: int
  cf_v :: string
  cf_config_dir :: string
  cf_placement_cache :: bool
  cf_help :: bool
  cf_service :: string
  cf_actors :: string
  cf_actor_collector_interval :: int
  cf_actor_reminder_interval :: int
  cf_actor_reminder_acceptable_delay :: int
  cf_app_port :: int
  cf_runtime_port :: int
  cf_sidecar_mode :: bool
  cf_kubernetes_mode :: bool
  cf_h2c :: bool
  cf_hostname :: string
  cf_actor_busy_timeout :: int
  cf_missing_component_timeout :: int
  cf_cancel :: bool
  cf_s :: string
  cf_mr :: bool
  cf_t :: string
  cf_i :: string
  cf_o :: string
  cf_content_type :: string

text \<open>
  The variables before the flags are read.  A variable whose flag the command does not have keeps
  its zero value.  Durations are in nanoseconds.
\<close>

definition seconds :: "int \<Rightarrow> int" where
  "seconds n = n * 1000000000"

definition default_flags :: "string \<Rightarrow> cli_flags" where
  "default_flags cmd =
     (let run = (cmd = ''run''); calls = (cmd = ''run'' \<or> cmd = ''invoke'')
      in \<lparr>cf_app = [], cf_kafka_brokers = [], cf_kafka_enable_tls = False, cf_kafka_username = [],
          cf_kafka_password = [], cf_kafka_version = [], cf_kafka_tls_skip_verify = False, cf_debug = False,
          cf_topicConfig = [(''retention.ms'', ''900000''), (''segment.ms'', ''300000'')],
          cf_redis_host = [], cf_redis_port = 0, cf_redis_enable_tls = False, cf_redis_password = [],
          cf_redis_user = [], cf_redis_tls_skip_verify = False, cf_redis_ca_cert = [],
          cf_request_retry_limit = seconds (- 1), cf_redis_slow_op_threshold = seconds 1, cf_v = ''error'',
          cf_config_dir = [], cf_placement_cache = True, cf_help = False, cf_service = [], cf_actors = [],
          cf_actor_collector_interval = (if run then seconds 10 else 0),
          cf_actor_reminder_interval = (if run then 100000000 else 0),
          cf_actor_reminder_acceptable_delay = (if run then seconds 3 else 0),
          cf_app_port = (if run then 8080 else 0), cf_runtime_port = 0, cf_sidecar_mode = False,
          cf_kubernetes_mode = False, cf_h2c = False, cf_hostname = (if run then ''localhost'' else []),
          cf_actor_busy_timeout = (if calls then seconds 120 else 0),
          cf_missing_component_timeout = (if calls \<or> cmd = ''rest'' then seconds 120 else 0),
          cf_cancel = False, cf_s = (if cmd = ''get'' then ''actors'' else []), cf_mr = False, cf_t = [],
          cf_i = [], cf_o = [], cf_content_type = (if cmd = ''rest'' then ''application/json'' else [])\<rparr>)"

text \<open>The flag \<^verbatim>\<open>kafka_topic_config\<close>: pairs are set one by one, up to an ill-formed one.\<close>

fun topic_config :: "string list \<Rightarrow> (string, string) gomap \<Rightarrow> (string, string) gomap option" where
  "topic_config [] m = Some m"
| "topic_config (x # xs) m =
     (case split_on (CHR ''='') x of
        [k, v] \<Rightarrow> topic_config xs (mput k v m)
      | _ \<Rightarrow> None)"

definition string_flags :: "(string \<times> (string \<Rightarrow> cli_flags \<Rightarrow> cli_flags)) list" where
  "string_flags =
     [(''app'', \<lambda>v f. f\<lparr>cf_app := v\<rparr>), (''kafka_brokers'', \<lambda>v f. f\<lparr>cf_kafka_brokers := v\<rparr>),
      (''kafka_username'', \<lambda>v f. f\<lparr>cf_kafka_username := v\<rparr>),
      (''kafka_password'', \<lambda>v f. f\<lparr>cf_kafka_password := v\<rparr>),
      (''kafka_version'', \<lambda>v f. f\<lparr>cf_kafka_version := v\<rparr>), (''redis_host'', \<lambda>v f. f\<lparr>cf_redis_host := v\<rparr>),
      (''redis_password'', \<lambda>v f. f\<lparr>cf_redis_password := v\<rparr>), (''redis_user'', \<lambda>v f. f\<lparr>cf_redis_user := v\<rparr>),
      (''redis_ca_cert'', \<lambda>v f. f\<lparr>cf_redis_ca_cert := v\<rparr>), (''v'', \<lambda>v f. f\<lparr>cf_v := v\<rparr>),
      (''config_dir'', \<lambda>v f. f\<lparr>cf_config_dir := v\<rparr>)]"

definition bool_flags :: "(string \<times> (bool \<Rightarrow> cli_flags \<Rightarrow> cli_flags)) list" where
  "bool_flags =
     [(''kafka_enable_tls'', \<lambda>v f. f\<lparr>cf_kafka_enable_tls := v\<rparr>),
      (''kafka_tls_skip_verify'', \<lambda>v f. f\<lparr>cf_kafka_tls_skip_verify := v\<rparr>), (''debug'', \<lambda>v f. f\<lparr>cf_debug := v\<rparr>),
      (''redis_enable_tls'', \<lambda>v f. f\<lparr>cf_redis_enable_tls := v\<rparr>),
      (''redis_tls_skip_verify'', \<lambda>v f. f\<lparr>cf_redis_tls_skip_verify := v\<rparr>),
      (''placement_cache'', \<lambda>v f. f\<lparr>cf_placement_cache := v\<rparr>), (''help'', \<lambda>v f. f\<lparr>cf_help := v\<rparr>),
      (''h'', \<lambda>v f. f\<lparr>cf_help := v\<rparr>)]"

definition duration_flags :: "(string \<times> (int \<Rightarrow> cli_flags \<Rightarrow> cli_flags)) list" where
  "duration_flags =
     [(''request_retry_limit'', \<lambda>v f. f\<lparr>cf_request_retry_limit := v\<rparr>),
      (''redis_slow_op_threshold'', \<lambda>v f. f\<lparr>cf_redis_slow_op_threshold := v\<rparr>)]"

definition command_strings :: "string \<Rightarrow> (string \<times> (string \<Rightarrow> cli_flags \<Rightarrow> cli_flags)) list" where
  "command_strings cmd =
     (if cmd = ''run'' then
        [(''service'', \<lambda>v f. f\<lparr>cf_service := v\<rparr>), (''actors'', \<lambda>v f. f\<lparr>cf_actors := v\<rparr>),
         (''hostname'', \<lambda>v f. f\<lparr>cf_hostname := v\<rparr>)]
      else if cmd = ''get'' then
        [(''s'', \<lambda>v f. f\<lparr>cf_s := v\<rparr>), (''t'', \<lambda>v f. f\<lparr>cf_t := v\<rparr>), (''i'', \<lambda>v f. f\<lparr>cf_i := v\<rparr>),
         (''o'', \<lambda>v f. f\<lparr>cf_o := v\<rparr>)]
      else if cmd = ''rest'' then [(''content_type'', \<lambda>v f. f\<lparr>cf_content_type := v\<rparr>)]
      else [])"

definition command_bools :: "string \<Rightarrow> (string \<times> (bool \<Rightarrow> cli_flags \<Rightarrow> cli_flags)) list" where
  "command_bools cmd =
     (if cmd = ''run'' then
        [(''sidecar_mode'', \<lambda>v f. f\<lparr>cf_sidecar_mode := v\<rparr>), (''kubernetes_mode'', \<lambda>v f. f\<lparr>cf_kubernetes_mode := v\<rparr>),
         (''h2c'', \<lambda>v f. f\<lparr>cf_h2c := v\<rparr>), (''cancel'', \<lambda>v f. f\<lparr>cf_cancel := v\<rparr>)]
      else if cmd = ''get'' then [(''mr'', \<lambda>v f. f\<lparr>cf_mr := v\<rparr>)]
      else [])"

definition command_durations :: "string \<Rightarrow> (string \<times> (int \<Rightarrow> cli_flags \<Rightarrow> cli_flags)) list" where
  "command_durations cmd =
     (let busy = (''actor_busy_timeout'', \<lambda>v f. f\<lparr>cf_actor_busy_timeout := v\<rparr>);
          missing = (''missing_component_timeout'', \<lambda>v f. f\<lparr>cf_missing_component_timeout := v\<rparr>)
      in if cmd = ''run'' then
           [(''actor_collector_interval'', \<lambda>v f. f\<lparr>cf_actor_collector_interval := v\<rparr>),
            (''actor_reminder_interval'', \<lambda>v f. f\<lparr>cf_actor_reminder_interval := v\<rparr>),
            (''actor_reminder_acceptable_delay'', \<lambda>v f. f\<lparr>cf_actor_reminder_acceptable_delay := v\<rparr>),
            busy, missing]
         else if cmd = ''invoke'' then [busy, missing]
         else if cmd = ''rest'' then [missing]
         else [])"

definition int_flags :: "string \<Rightarrow> (string \<times> (int \<Rightarrow> cli_flags \<Rightarrow> cli_flags)) list" where
  "int_flags cmd =
     (if cmd = ''run'' then [(''app_port'', \<lambda>v f. f\<lparr>cf_app_port := v\<rparr>), (''runtime_port'', \<lambda>v f. f\<lparr>cf_runtime_port := v\<rparr>)]
      else []) @ [(''redis_port'', \<lambda>v f. f\<lparr>cf_redis_port := v\<rparr>)]"

text \<open>
  The value of one flag; \<^const>\<open>None\<close> where the \<^verbatim>\<open>flag\<close> package stops with an error.  Integer
  flags may have a base prefix, so that reading them is a parameter, as for durations.
\<close>

record flag_texts =
  ft_int :: "string \<Rightarrow> int option"
  ft_duration :: "string \<Rightarrow> int option"

definition set_flag :: "flag_texts \<Rightarrow> string \<Rightarrow> string \<times> string \<Rightarrow> cli_flags \<Rightarrow> cli_flags option" where
  "set_flag ft cmd = (\<lambda>(name, v) f.
     if name = ''kafka_topic_config'' then
       map_option (\<lambda>m. f\<lparr>cf_topicConfig := m\<rparr>) (topic_config (split_on (CHR '','') v) (cf_topicConfig f))
     else case map_of (command_strings cmd @ string_flags) name of
       Some upd \<Rightarrow> Some (upd v f)
     | None \<Rightarrow>
         (case map_of (command_bools cmd @ bool_flags) name of
            Some upd \<Rightarrow> map_option (\<lambda>b. upd b f) (parse_bool v)
          | None \<Rightarrow>
              (case map_of (command_durations cmd @ duration_flags) name of
                 Some upd \<Rightarrow> map_option (\<lambda>d. upd d f) (ft_duration ft v)
               | None \<Rightarrow>
                   (case map_of (int_flags cmd) name of
                      Some upd \<Rightarrow> map_option (\<lambda>i. upd i f) (ft_int ft v)
                    | None \<Rightarrow> None))))"

fun set_flags :: "flag_texts \<Rightarrow> string \<Rightarrow> (string \<times> string) list \<Rightarrow> cli_flags \<Rightarrow> cli_flags option" where
  "set_flags ft cmd [] f = Some f"
| "set_flags ft cmd (x # xs) f =
     (case set_flag ft cmd x f of None \<Rightarrow> None | Some f' \<Rightarrow> set_flags ft cmd xs f')"

section \<open>Settings\<close>

record 'ca host =
  os_Getenv :: "string \<Rightarrow> string"
  os_ReadFile :: "string \<Rightarrow> string option"
  os_Join :: "string \<Rightarrow> string \<Rightarrow> string"
  os_base64 :: "string \<Rightarrow> string option"
  os_pem :: "string \<Rightarrow> string option"
  os_x509 :: "string \<Rightarrow> 'ca option"

definition loadStringFromConfig :: "'ca host \<Rightarrow> string \<Rightarrow> string \<Rightarrow> string" where
  "loadStringFromConfig os path file =
     (if path \<noteq> [] then (case os_ReadFile os (os_Join os path file) of Some bytes \<Rightarrow> bytes | None \<Rightarrow> []) else [])"

record 'ca settings =
  st_AppName :: string
  st_ServiceName :: string
  st_ActorTypes :: "string list"
  st_PlacementCache :: bool
  st_RuntimePort :: int
  st_AppPort :: int
  st_Kafka_EnableTLS :: bool
  st_Kafka_Brokers :: "string list"
  st_Kafka_User :: string
  st_Kafka_Password :: string
  st_Kafka_Version :: string
  st_Kafka_TLSSkipVerify :: bool
  st_Kafka_TopicConfig :: "(string, string) gomap"
  st_Redis_EnableTLS :: bool
  st_Redis_TLSSkipVerify :: bool
  st_Redis_Host :: string
  st_Redis_CA :: "'ca option"
  st_Redis_Port :: int
  st_Redis_Password :: string
  st_Redis_User :: string
  st_GetOutputStyle :: string

definition and_then :: "'a result \<Rightarrow> ('a \<Rightarrow> 'b result) \<Rightarrow> 'b result" where
  "and_then r k = (case r of Ok x \<Rightarrow> k x | Error e \<Rightarrow> Error e | Panicked \<Rightarrow> Panicked)"

abbreviation fatal :: "string \<Rightarrow> 'a result" where
  "fatal s \<equiv> Error (ErrMsg s)"

text \<open>A text comes from the flag, else from the environment, else from a file.\<close>

definition text_setting :: "'ca host \<Rightarrow> string \<Rightarrow> string \<Rightarrow> string \<Rightarrow> string \<Rightarrow> string" where
  "text_setting os dir flag var file =
     (if flag = [] then
        (let v = os_Getenv os var in if v = [] then loadStringFromConfig os dir file else v)
      else flag)"

definition bool_setting :: "'ca host \<Rightarrow> string \<Rightarrow> bool \<Rightarrow> string \<Rightarrow> string \<Rightarrow> bool result" where
  "bool_setting os dir flag var file =
     (if \<not> flag then
        (let tmp = os_Getenv os var; tmp = (if tmp = [] then loadStringFromConfig os dir file else tmp)
         in if tmp = [] then Ok False
            else case parse_bool tmp of
                   Some b \<Rightarrow> Ok b
                 | None \<Rightarrow> fatal (''error parsing '' @ var @ '' as boolean''))
      else Ok True)"

text \<open>A port whose flag has its default value may be set by the environment.\<close>

definition port_setting :: "'ca host \<Rightarrow> int \<Rightarrow> int \<Rightarrow> string \<Rightarrow> int result" where
  "port_setting os dflt flag var =
     (if flag = dflt then
        (let ptmp = os_Getenv os var
         in if ptmp = [] then Ok flag
            else case parse_int ptmp of
                   (i, True) \<Rightarrow> Ok i
                 | (_, False) \<Rightarrow> fatal (''error parsing '' @ var @ '' as an integer''))
      else Ok flag)"

definition redis_port_setting :: "'ca host \<Rightarrow> string \<Rightarrow> int \<Rightarrow> int result" where
  "redis_port_setting os dir flag =
     (if flag = 0 then
        if os_Getenv os ''REDIS_PORT'' \<noteq> [] then
          (case parse_int (os_Getenv os ''REDIS_PORT'') of
             (i, True) \<Rightarrow> Ok i
           | (_, False) \<Rightarrow> fatal ''error parsing environment variable REDIS_PORT'')
        else
          (let rp = loadStringFromConfig os dir ''redis_port''
           in if rp \<noteq> [] then
                (case parse_int rp of
                   (i, True) \<Rightarrow> Ok i
                 | (_, False) \<Rightarrow> fatal (''error parsing config value for redis_port: '' @ rp))
              else Ok 6379)
      else Ok flag)"

text \<open>\<^verbatim>\<open>pem.Decode\<close> gives a nil block when it finds none, which is dereferenced.\<close>

definition redis_CA_setting :: "'ca host \<Rightarrow> string \<Rightarrow> string \<Rightarrow> 'ca option result" where
  "redis_CA_setting os dir flag =
     (let redisCABase64 = text_setting os dir flag ''REDIS_CA'' ''redis_ca''
      in if redisCABase64 = [] then Ok None
         else case os_base64 os redisCABase64 of
           None \<Rightarrow> fatal ''error parsing Redis CA certificate''
         | Some buf \<Rightarrow>
             (case os_pem os buf of
                None \<Rightarrow> Panicked
              | Some block \<Rightarrow>
                  (case os_x509 os block of
                     None \<Rightarrow> fatal ''error parsing Redis CA certificate''
                   | Some ca \<Rightarrow> Ok (Some ca))))"

definition required :: "string \<Rightarrow> string \<Rightarrow> string result" where
  "required message v = (if v = [] then fatal message else Ok v)"

definition or_default :: "string \<Rightarrow> string \<Rightarrow> string" where
  "or_default d v = (if v = [] then d else v)"

text \<open>The part of \<^verbatim>\<open>init\<close> after the flags were read; \<open>args\<close> is \<^verbatim>\<open>flag.Args()\<close>.\<close>

definition settle :: "'ca host \<Rightarrow> string \<Rightarrow> cli_flags \<Rightarrow> string list \<Rightarrow> 'ca settings result" where
  "settle os cmd f args =
     (let dir = cf_config_dir f
      in and_then (required ''app name is required'' (cf_app f)) (\<lambda>app.
         and_then (port_setting os 0 (cf_runtime_port f) ''KAR_RUNTIME_PORT'') (\<lambda>runtimePort.
         and_then (port_setting os 8080 (cf_app_port f) ''KAR_APP_PORT'') (\<lambda>appPort.
         and_then (bool_setting os dir (cf_kafka_enable_tls f) ''KAFKA_ENABLE_TLS'' ''kafka_enable_tls'') (\<lambda>kafkaTLS.
         and_then (required ''at least one Kafka broker is required''
                     (text_setting os dir (cf_kafka_brokers f) ''KAFKA_BROKERS'' ''kafka_brokers'')) (\<lambda>brokers.
         and_then (bool_setting os dir (cf_kafka_tls_skip_verify f) ''KAFKA_TLS_SKIP_VERIFY'' ''kafka_tls_skip_verify'') (\<lambda>kafkaSkip.
         and_then (bool_setting os dir (cf_redis_enable_tls f) ''REDIS_ENABLE_TLS'' ''redis_enable_tls'') (\<lambda>redisTLS.
         and_then (bool_setting os dir (cf_redis_tls_skip_verify f) ''REDIS_TLS_SKIP_VERIFY'' ''redis_tls_skip_verify'') (\<lambda>redisSkip.
         and_then (required ''Redis host is required''
                     (text_setting os dir (cf_redis_host f) ''REDIS_HOST'' ''redis_host'')) (\<lambda>host.
         and_then (redis_CA_setting os dir (cf_redis_ca_cert f)) (\<lambda>ca.
         and_then (redis_port_setting os dir (cf_redis_port f)) (\<lambda>port.
           if cmd = ''invoke'' \<and> length args < 3 then fatal ''invoke expects at least three arguments''
           else if cmd = ''rest'' \<and> \<not> (length args = 3 \<or> length args = 4) then
             fatal (''rest expects either three or four arguments; got '' @ itoa (int (length args)))
           else Ok
             \<lparr>st_AppName = app, st_ServiceName = or_default ''kar.none'' (cf_service f),
              st_ActorTypes = (if cf_actors f = [] then [] else split_on (CHR '','') (cf_actors f)),
              st_PlacementCache = cf_placement_cache f, st_RuntimePort = runtimePort, st_AppPort = appPort,
              st_Kafka_EnableTLS = kafkaTLS, st_Kafka_Brokers = split_on (CHR '','') brokers,
              st_Kafka_User = or_default ''token''
                (text_setting os dir (cf_kafka_username f) ''KAFKA_USERNAME'' ''kafka_username''),
              st_Kafka_Password = text_setting os dir (cf_kafka_password f) ''KAFKA_PASSWORD'' ''kafka_password'',
              st_Kafka_Version = or_default ''2.8.1''
                (text_setting os dir (cf_kafka_version f) ''KAFKA_VERSION'' ''kafka_version''),
              st_Kafka_TLSSkipVerify = kafkaSkip, st_Kafka_TopicConfig = cf_topicConfig f,
              st_Redis_EnableTLS = redisTLS, st_Redis_TLSSkipVerify = redisSkip, st_Redis_Host = host,
              st_Redis_CA = ca, st_Redis_Port = port,
              st_Redis_Password = text_setting os dir (cf_redis_password f) ''REDIS_PASSWORD'' ''redis_password'',
              st_Redis_User = text_setting os dir (cf_redis_user f) ''REDIS_USER'' ''redis_user'',
              st_GetOutputStyle = to_lower (cf_o f)\<rparr>))))))))))))"

section \<open>Commands\<close>

datatype 'ca init_end = Exits int | Fatal_error err | Crashes | Configured string "'ca settings"

text \<open>
  The \<^verbatim>\<open>flag\<close> package on one word of the command line: an argument, the end of the flags, a malformed
  flag, or a flag with its value if it is part of the word.
\<close>

datatype word_kind = Argument | Terminator | Malformed | Flag string "string option"

definition flag_word :: "string \<Rightarrow> word_kind" where
  "flag_word s =
     (if length s < 2 \<or> hd s \<noteq> CHR ''-'' then Argument
      else if s = ''--'' then Terminator
      else let name = drop (if s ! 1 = CHR ''-'' then 2 else 1) s
           in if hd name = CHR ''-'' \<or> hd name = CHR ''='' then Malformed
              else Flag (takeWhile (\<lambda>c. c \<noteq> CHR ''='') name)
                     (if CHR ''='' \<in> set name then Some (tl (dropWhile (\<lambda>c. c \<noteq> CHR ''='') name)) else None))"

definition is_bool :: "string \<Rightarrow> string \<Rightarrow> bool" where
  "is_bool cmd name \<longleftrightarrow> name \<in> fst ` set (command_bools cmd @ bool_flags)"

text \<open>
  The flags with their values and the arguments behind them.  A boolean flag has its value in the
  same word or none.  \<^const>\<open>None\<close>: the package reports an error and exits with 2, as it does for a flag
  that is not defined, which is left to \<^const>\<open>set_flag\<close>.
\<close>

fun parse_flags :: "string \<Rightarrow> string list \<Rightarrow> ((string \<times> string) list \<times> string list) option" where
  "parse_flags cmd [] = Some ([], [])"
| "parse_flags cmd (s # args) =
     (case flag_word s of
        Argument \<Rightarrow> Some ([], s # args)
      | Terminator \<Rightarrow> Some ([], args)
      | Malformed \<Rightarrow> None
      | Flag name (Some v) \<Rightarrow> map_option (apfst ((#) (name, v))) (parse_flags cmd args)
      | Flag name None \<Rightarrow>
          if is_bool cmd name then map_option (apfst ((#) (name, ''true''))) (parse_flags cmd args)
          else (case args of
                  [] \<Rightarrow> None
                | v # rest \<Rightarrow> map_option (apfst ((#) (name, v))) (parse_flags cmd rest)))"

definition config_init :: "'ca host \<Rightarrow> flag_texts \<Rightarrow> string list \<Rightarrow> 'ca init_end" where
  "config_init os ft osArgs =
     (if length osArgs < 2 then Exits 2
      else let cmd = osArgs ! 1
           in if cmd \<in> set [''run'', ''get'', ''invoke'', ''rest'', ''purge'', ''drain''] then
                (case parse_flags cmd (drop 2 osArgs) of
                   None \<Rightarrow> Exits 2
                 | Some (flags, args) \<Rightarrow>
                     (case set_flags ft cmd flags (default_flags cmd) of
                        None \<Rightarrow> Exits 2
                      | Some f \<Rightarrow>
                          if cf_help f then Exits 0
                          else case settle os cmd f args of
                                 Ok s \<Rightarrow> Configured cmd s
                               | Error e \<Rightarrow> Fatal_error e
                               | Panicked \<Rightarrow> Crashes))
              else if cmd \<in> set [''version'', ''-help'', ''--help'', ''-h'', ''--h'', ''help''] then Exits 0
              else Exits 2)"

section \<open>The flags decide\<close>

lemma text_setting_flag [simp]: "flag \<noteq> [] \<Longrightarrow> text_setting os dir flag var file = flag"
  by (simp add: text_setting_def)

lemma text_setting_eq:
  "text_setting os dir flag var file =
     (case filter (\<lambda>v. v \<noteq> []) [flag, os_Getenv os var, loadStringFromConfig os dir file] of
        [] \<Rightarrow> [] | v # _ \<Rightarrow> v)"
  by (simp add: text_setting_def Let_def)

definition explicit :: "cli_flags \<Rightarrow> bool" where
  "explicit f \<longleftrightarrow> (\<forall>v \<in> set [cf_kafka_brokers f, cf_kafka_username f, cf_kafka_password f, cf_kafka_version f,
      cf_redis_host f, cf_redis_password f, cf_redis_user f, cf_redis_ca_cert f]. v \<noteq> []) \<and>
     cf_runtime_port f \<noteq> 0 \<and> cf_app_port f \<noteq> 8080 \<and> cf_redis_port f \<noteq> 0 \<and>
     cf_kafka_enable_tls f \<and> cf_kafka_tls_skip_verify f \<and> cf_redis_enable_tls f \<and> cf_redis_tls_skip_verify f"

definition same_certificates :: "'ca host \<Rightarrow> 'ca host \<Rightarrow> bool" where
  "same_certificates os os' \<longleftrightarrow> os_base64 os = os_base64 os' \<and> os_pem os = os_pem os' \<and> os_x509 os = os_x509 os'"


definition host_example :: "string \<Rightarrow> unit host" where
  "host_example v = \<lparr>os_Getenv = (\<lambda>_. v), os_ReadFile = (\<lambda>_. None), os_Join = (\<lambda>a b. a @ ''/'' @ b),
     os_base64 = (\<lambda>s. Some s), os_pem = (\<lambda>s. Some s), os_x509 = (\<lambda>_. Some ())\<rparr>"

definition explicit_example :: cli_flags where
  "explicit_example = (default_flags ''run'')
     \<lparr>cf_app := ''dp'', cf_kafka_brokers := ''k:9092,l:9092'', cf_kafka_username := ''u'', cf_kafka_password := ''p'',
      cf_kafka_version := ''2.8.1'', cf_redis_host := ''r'', cf_redis_password := ''p'', cf_redis_user := ''u'',
      cf_redis_ca_cert := ''c'', cf_runtime_port := 3500, cf_app_port := 8081, cf_redis_port := 6379,
      cf_kafka_enable_tls := True, cf_kafka_tls_skip_verify := True, cf_redis_enable_tls := True,
      cf_redis_tls_skip_verify := True\<rparr>"

lemma settle_example:
  "\<exists>s. settle (host_example []) ''run'' explicit_example [] = Ok s \<and> st_AppPort s = 8081 \<and>
     st_Kafka_Brokers s = [''k:9092'', ''l:9092'']"
  by (simp add: settle_def explicit_example_def host_example_def and_then_def required_def port_setting_def
      bool_setting_def redis_port_setting_def redis_CA_setting_def default_flags_def Let_def)


text \<open>
  A flag with its default value does not count as given: the environment overrides an explicit
  \<^verbatim>\<open>-app_port 8080\<close> and an explicit \<^verbatim>\<open>-redis_enable_tls=false\<close>.
\<close>

lemma default_flag_overridden:
  "os_Getenv os ''KAR_APP_PORT'' = itoa p \<Longrightarrow> int64 p \<Longrightarrow> itoa p \<noteq> [] \<Longrightarrow> port_setting os 8080 8080 ''KAR_APP_PORT'' = Ok p"
  "os_Getenv os ''REDIS_ENABLE_TLS'' = ''true'' \<Longrightarrow>
     bool_setting os dir False ''REDIS_ENABLE_TLS'' ''redis_enable_tls'' = Ok True"
  by (simp_all add: port_setting_def bool_setting_def parse_bool_def Let_def)

text \<open>A certificate that is not in the PEM format is a nil dereference, not an error.\<close>

lemma bad_certificate_crashes:
  assumes "flag \<noteq> []" and "os_base64 os flag = Some buf" and "os_pem os buf = None"
  shows "redis_CA_setting os dir flag = Panicked"
  using assms by (simp add: redis_CA_setting_def Let_def)

text \<open>Pairs are read back as they are written.\<close>

lemma topic_config_pairs:
  "\<forall>(k, v) \<in> set kvs. CHR ''='' \<notin> set k \<and> CHR ''='' \<notin> set v \<Longrightarrow>
   topic_config (map (\<lambda>(k, v). k @ ''='' @ v) kvs) m = Some (fold (\<lambda>(k, v). mput k v) kvs m)"
  by (induction kvs arbitrary: m) (auto simp: split_on_append split_on_absent)

text \<open>A written command line is read back as its flags and arguments.\<close>

definition flag_name :: "string \<Rightarrow> bool" where
  "flag_name n \<longleftrightarrow> n \<noteq> [] \<and> hd n \<noteq> CHR ''-'' \<and> CHR ''='' \<notin> set n"

definition render_flag :: "string \<Rightarrow> string \<times> string \<Rightarrow> string list" where
  "render_flag cmd = (\<lambda>(n, v). if is_bool cmd n then [''-'' @ n @ ''='' @ v] else [''-'' @ n, v])"

lemma flag_word_name: "flag_name n \<Longrightarrow> flag_word (''-'' @ n) = Flag n None"
  by (cases n) (auto simp: flag_name_def flag_word_def Let_def takeWhile_eq_all_conv)

lemma flag_word_value:
  assumes "flag_name n"
  shows "flag_word (''-'' @ n @ ''='' @ v) = Flag n (Some v)"
proof -
  have "takeWhile (\<lambda>c. c \<noteq> CHR ''='') (n @ CHR ''='' # v) = n" "dropWhile (\<lambda>c. c \<noteq> CHR ''='') (n @ CHR ''='' # v) = CHR ''='' # v"
    using assms by (auto simp: flag_name_def takeWhile_append dropWhile_append takeWhile_eq_all_conv)
  then show ?thesis
    using assms by (cases n) (auto simp: flag_name_def flag_word_def Let_def)
qed

lemma parse_flags_render:
  assumes "\<forall>(n, v) \<in> set flags. flag_name n"
  shows "parse_flags cmd (concat (map (render_flag cmd) flags) @ ''--'' # args) = Some (flags, args)"
  using assms
proof (induction flags)
  case Nil
  then show ?case
    by (simp add: flag_word_def)
next
  case (Cons x xs)
  obtain n v where x: "x = (n, v)"
    by fastforce
  show ?case
    using Cons flag_word_name [of n] flag_word_value [of n v] by (simp add: x render_flag_def)
qed

text \<open>Nothing is configured without an application, a broker and a Redis host.\<close>

lemma settle_required:
  "settle os cmd f args = Ok s \<Longrightarrow> st_AppName s \<noteq> [] \<and> st_Redis_Host s \<noteq> [] \<and> st_Kafka_Brokers s \<noteq> []"
  by (auto simp: settle_def and_then_def required_def Let_def split: result.splits if_splits)

end
