(* ===== verification/Spec2Isabelle.thy ===== *)
theory Spec2Isabelle
  imports Rpc_Recovery Reminders Events Debug_Kar Debugger_Commands Injector Log_Analyzer Configuration
begin

text \<open>
  KAR, the Kubernetes Application Runtime: verification of the Go sources under \<^verbatim>\<open>src/core\<close>.

  \<^bold>\<open>The program.\<close>  A KAR application is a set of nodes (sidecars).  Nodes exchange requests and responses through the
  partitions of one Kafka topic and keep the placement of actors, their state and their bindings in Redis.  An actor
  executes one flow of requests at a time; requests of a dead node are executed again by the live ones.

  \<^item> \<^verbatim>\<open>pkg/store\<close> is the Redis client.  \<^verbatim>\<open>Rpc_Store\<close> models its retries, conversions and every operation.
  \<^item> \<^verbatim>\<open>pkg/rpc\<close> is the messaging layer.  \<^verbatim>\<open>Rpc_Messages\<close> has the messages and their encoding as Kafka records (\<^verbatim>\<open>messages.go\<close>,
    \<^verbatim>\<open>rpc.go\<close>); \<^verbatim>\<open>Rpc_Routing\<close> the routing tables, the placement of sessions and sending (\<^verbatim>\<open>dial.go\<close>, \<^verbatim>\<open>send.go\<close>, \<^verbatim>\<open>query.go\<close>);
    \<^verbatim>\<open>Rpc_Strategy\<close> the assignment of partitions (\<^verbatim>\<open>strategy.go\<close>); \<^verbatim>\<open>Rpc_Recovery\<close> consumption and recovery (\<^verbatim>\<open>transport.go\<close>);
    \<^verbatim>\<open>Rpc_Sessions\<close> the acceptance and the scheduling of requests (\<^verbatim>\<open>requests.go\<close>), with their proofs in \<^verbatim>\<open>Rpc_Exclusion\<close> and
    \<^verbatim>\<open>Rpc_Requests\<close>; \<^verbatim>\<open>Rpc_Topics\<close> topics and subscriptions (\<^verbatim>\<open>topics.go\<close>).
  \<^item> \<^verbatim>\<open>internal/runtime\<close> is the sidecar.  \<^verbatim>\<open>Actor_Calls\<close> has the sending side and \<^verbatim>\<open>Actor_Handlers\<close> the receiving side of
    \<^verbatim>\<open>commands.go\<close>, with \<^verbatim>\<open>http_client.go\<close>; \<^verbatim>\<open>Actor_State\<close> the routes of \<^verbatim>\<open>routes-state.go\<close>; \<^verbatim>\<open>Bindings\<close>, \<^verbatim>\<open>Reminder_Queue\<close>,
    \<^verbatim>\<open>Reminders\<close> and \<^verbatim>\<open>Events\<close> the files \<^verbatim>\<open>bindings.go\<close>, \<^verbatim>\<open>reminder_queue.go\<close>, \<^verbatim>\<open>reminders.go\<close> and \<^verbatim>\<open>events.go\<close>;
    \<^verbatim>\<open>Debug_Conditions\<close> the file \<^verbatim>\<open>debug-parser.go\<close>, \<^verbatim>\<open>Debugger\<close> the debugger of \<^verbatim>\<open>commands.go\<close> and \<^verbatim>\<open>Debug_Routes\<close> the file
    \<^verbatim>\<open>routes-debug.go\<close>, with the commands that repeat the command line in \<^verbatim>\<open>Debug_Kar\<close>; \<^verbatim>\<open>Rest_Routes\<close> the other routes and
    \<^verbatim>\<open>repl.go\<close>.  \<^verbatim>\<open>Configuration\<close> has the flags and settings of \<^verbatim>\<open>internal/config/config.go\<close>.
  \<^item> \<^verbatim>\<open>cmd/kar-debugger\<close> is the debugger: a server that keeps what the sidecars report, and a command line that asks it.
    \<^verbatim>\<open>Deadlocks\<close> has the search for deadlocks among busy actors, \<^verbatim>\<open>Kafka_Reader\<close> the reading of the messages of an application
    from Kafka with the conditions of \<^verbatim>\<open>parser.go\<close>, \<^verbatim>\<open>Debugger_Client\<close> the server (\<^verbatim>\<open>listenSidecar\<close>, \<^verbatim>\<open>serveDebugger\<close>),
    \<^verbatim>\<open>Debugger_Commands\<close> the arguments, the commands and \<^verbatim>\<open>main\<close>.
  \<^item> \<^verbatim>\<open>internal/sidecar\<close> decides on the injection of the sidecar into a Kubernetes pod (\<^verbatim>\<open>Injector\<close>), and
    \<^verbatim>\<open>cmd/kar-log-analyzer\<close> correlates the logs of an experiment with failures (\<^verbatim>\<open>Log_Analyzer\<close>).
  \<^item> \<^verbatim>\<open>KAR_Prelude\<close> has what all share: errors, Go maps, range orders, splitting and joining of strings, numbers as text.

  \<^bold>\<open>State and operations.\<close>  The package variables of a component are a record (\<^typ>\<open>rpc_state\<close>, \<^typ>\<open>sess\<close>, \<^typ>\<open>runtime\<close>,
  \<^typ>\<open>debugger\<close>, \<^typ>\<open>('c, 's) client_state\<close>); every operation takes it and returns it updated.  A Go function that returns a value or an error, or
  panics, has a \<^typ>\<open>unit result\<close> or the like: \<^const>\<open>Ok\<close>, \<^const>\<open>Error\<close> and \<^const>\<open>Panicked\<close>; functions that return a value
  beside an error return both.  A Go map is an association list; where the code ranges over a map, the order is a
  parameter, constrained by \<^const>\<open>range_order\<close> only.  A mutex is the atomicity of the operation that holds it.  Goroutines
  that wait (tasks of sessions, callers, paused actors) are part of the state, and the interleavings are step relations:
  \<^verbatim>\<open>Rpc_Exclusion\<close> for the scheduler, \<^verbatim>\<open>Rpc_Recovery\<close> for generations of the consumer group, \<^const>\<open>dstep\<close> for the debugger.
  A channel of capacity one is a cell that is empty, full or closed; sending, receiving and closing go on, block or panic.

  \<^bold>\<open>Libraries.\<close>  Redis, Kafka, JSON, HTTP, web sockets, container/heap, the clock and uuids are parameters.  What is relied on is
  a locale: \<^const>\<open>redis\<close> for the store, interpreted on an in-memory store; \<^const>\<open>json_lib\<close> for the codec, interpreted on a
  codec of string maps; \<^const>\<open>debug_rpc\<close> for the calls between debuggers, interpreted on a cluster of nodes that run
  \<^const>\<open>handlerDebugger\<close>; \<^const>\<open>bindings\<close> for a collection of bindings, interpreted on reminders and on
  subscriptions; \<^const>\<open>time_texts\<close> for times and durations as text; \<^const>\<open>waiting\<close> for the graph that the deadlock search walks,
  interpreted on the busy actors; \<^const>\<open>json_patch\<close> for the application of JSON patches, interpreted on RFC 6902 for the
  paths that occur.  Theorems over the store or the codec have the locale
  as a hypothesis, so they hold of every library that keeps the contract.

  \<^bold>\<open>What is shown.\<close>
  \<^item> Scheduling: a session executes at most one exclusive task, its token is in exactly one place, and no channel operation of
    the scheduler panics, in every interleaving of messages, timeouts, deactivations and collections.
  \<^item> Recovery: every unanswered request whose restart point is lost is sent again, exactly once, and with the lock released;
    an interrupted consumer resumes without loss or repetition; the writer lock is free exactly while a node consumes.
  \<^item> Partitions and routing: plans are injective and keep known assignments; sending puts one record into the partition of
    the destination, after at most two rounds of compare-and-swap for a session.
  \<^item> Requests: a response reaches exactly its caller; what a task sends when it ends; promises are awaited once; a nested call
    stays in the flow of the caller and the REST route answers what the callee replied.
  \<^item> Actors: the type discipline of continuations, deletion, the effect of state updates, reading the whole state.
  \<^item> Bindings: replacement of reminders and subscriptions, firing in order of time, reloading, delivery of events.
  \<^item> Debugger: no interleaving closes a channel twice and ending a pause releases all that wait on it; conditions and edits on
    JSON values; how commands spread over the nodes; commands that repeat the command line do the same calls.
  \<^item> Debugger client: the deadlock search ends and decides; the counters of breakpoints agree with the recorded pauses; which
    actors are paused indirectly; the entries read from Kafka for every interleaving of the readers; the order of the messages
    of a single step; the reading of arguments.
  \<^item> Injector, log analyzer, configuration: the patched pod and that it is patched once; outages as sums of their phases, each
    failure in one of them; settings that flags decide.
  \<^item> Round trips of messages, keys and records, with the exact condition under which they hold.

  \<^bold>\<open>Bounds.\<close>  The loop of \<^const>\<open>Send\<close> on a moving session and the scans of Redis take fuel.  Two rounds are shown to be enough for the
  former; for the latter \<^const>\<open>None\<close> means that the server has not ended the scan, on which the code has no bound either.
  The search for deadlocks takes a depth, of which twice the number of pending calls and two is enough; the loop over the parents of a
  request takes the length of the chain of calls, and does not end in the code either if the chain is a circle.
  Numbers that the code stores as text are restricted to \<^const>\<open>int64\<close>; offsets, sequence numbers and times are integers
  without wrap-around, since nothing in the code reaches their ends.  Recovery marks a completed request with sequence
  2^30, and its theorems assume sequence numbers below that.

  \<^bold>\<open>Not modelled.\<close>  The set-up of connections (\<^verbatim>\<open>Dial\<close>), \<^verbatim>\<open>Main\<close> and the table of the HTTP router, the launcher of the
  application, logging and metrics are calls of libraries and of the operating system without behaviour of their own, and so
  are the HTTP server of the injector and the registration of its Kubernetes types.  The layout of what the debugger
  prints, its usage texts and those of \<^verbatim>\<open>kar\<close> are output only: the commands are modelled with what they print as
  values.  The test support in \<^verbatim>\<open>pkg/checker\<close>, the test programs and the benchmarks are no part of the system.
\<close>

end
